(* ===== verification/Prelude.thy ===== *)
theory Prelude
  imports Main "HOL-Library.Product_Lexorder" "HOL-Library.Signed_Division"
begin

text \<open>
  Shared vocabulary of the RelayForge development.

  \<^item> Types: a Go \<^verbatim>\<open>string\<close> or \<^verbatim>\<open>[]byte\<close> is a list of bytes (\<^typ>\<open>string\<close>), a
    \<^verbatim>\<open>time.Duration\<close> is its number of nanoseconds, a \<^verbatim>\<open>time.Time\<close> is the number of
    nanoseconds since Go's zero time (so that \<^verbatim>\<open>IsZero\<close> is comparison with \<open>0\<close>), and a
    \<^verbatim>\<open>uuid\<close> column is its canonical text.
  \<^item> Integers: \<^verbatim>\<open>int\<close>, \<^verbatim>\<open>int64\<close> and \<^verbatim>\<open>int32\<close> are \<^typ>\<open>int\<close> with the wrap-around
    written out (\<open>wrap64\<close>, \<open>wrap32\<close>) where the code computes something that can
    leave the range.
  \<^item> Errors: \<open>go_error\<close> keeps the tree that \<^verbatim>\<open>errors.New\<close>, package sentinels and
    \<^verbatim>\<open>fmt.Errorf\<close> with \<^verbatim>\<open>%w\<close> build, so that \<^verbatim>\<open>errors.Is\<close> and \<^verbatim>\<open>err.Error()\<close> are
    functions of the model.
  \<^item> Tables: the list operations that the SQL statements are made of (lookup by key, update
    by key, \<^verbatim>\<open>WHERE ... ORDER BY ... LIMIT\<close>) with the lemmas the store theories use.
\<close>

section \<open>Types and collections of rules\<close>

type_synonym bytes = string
type_synonym uuid = string
type_synonym time = int
type_synonym duration = int
type_synonym ('e, 'a) result = "'e + 'a"

named_theorems table_simps \<open>lookup and update of rows by key\<close>
named_theorems row_defs \<open>definitions of row updates and row constraints\<close>
named_theorems op_defs \<open>definitions of the store operations\<close>

section \<open>Machine integers and durations\<close>

abbreviation max_int32 :: int where
  "max_int32 \<equiv> 2147483647"

abbreviation max_int64 :: int where
  "max_int64 \<equiv> 9223372036854775807"

abbreviation millisecond :: duration where
  "millisecond \<equiv> 1000000"

abbreviation second :: duration where
  "second \<equiv> 1000000000"

text \<open>Two's complement wrap-around of 64-bit and 32-bit signed integers.\<close>

definition wrap64 :: "int \<Rightarrow> int" where
  "wrap64 x = (x + 2 ^ 63) mod 2 ^ 64 - 2 ^ 63"

definition wrap32 :: "int \<Rightarrow> int" where
  "wrap32 x = (x + 2 ^ 31) mod 2 ^ 32 - 2 ^ 31"

text \<open>\<^verbatim>\<open>Duration.Milliseconds\<close>: \<^verbatim>\<open>int64(d) / 1e6\<close>, truncated towards zero.\<close>

definition milliseconds :: "duration \<Rightarrow> int" where
  "milliseconds d = d sdiv millisecond"

text \<open>\<^verbatim>\<open>Time.Sub\<close> saturates at the ends of the \<^verbatim>\<open>Duration\<close> range.\<close>

definition time_sub :: "time \<Rightarrow> time \<Rightarrow> duration" where
  "time_sub t u = max (- max_int64 - 1) (min max_int64 (t - u))"

section \<open>Errors\<close>

text \<open>The package-level error variables of the repository.\<close>

datatype sentinel =
    ErrLeaseLost                \<comment> \<open>store\<close>
  | DeliveryErrInvalid | DeliveryErrNotFound | DeliveryErrNotReplayable
  | DeliveryErrEndpointDisabled \<comment> \<open>delivery\<close>
  | EndpointErrInvalid | EndpointErrNotFound  \<comment> \<open>endpoint\<close>
  | EventErrInvalid | EventErrIdempotencyConflict | EventErrEndpointDisabled \<comment> \<open>eventing\<close>
  | ErrInvalidCiphertext        \<comment> \<open>secure\<close>
  | ErrBlockedAddress           \<comment> \<open>webhook\<close>
  | ErrUnsupportedMediaType     \<comment> \<open>api\<close> | ErrServerClosed

fun sentinel_text :: "sentinel \<Rightarrow> string" where
  "sentinel_text ErrLeaseLost = ''delivery lease lost''"
| "sentinel_text DeliveryErrInvalid = ''invalid delivery''"
| "sentinel_text DeliveryErrNotFound = ''delivery not found''"
| "sentinel_text DeliveryErrNotReplayable = ''delivery is not replayable''"
| "sentinel_text DeliveryErrEndpointDisabled = ''delivery endpoint is disabled''"
| "sentinel_text EndpointErrInvalid = ''invalid endpoint''"
| "sentinel_text EndpointErrNotFound = ''endpoint not found''"
| "sentinel_text EventErrInvalid = ''invalid event''"
| "sentinel_text EventErrIdempotencyConflict = ''idempotency conflict''"
| "sentinel_text EventErrEndpointDisabled = ''endpoint disabled''"
| "sentinel_text ErrInvalidCiphertext = ''invalid ciphertext''"
| "sentinel_text ErrBlockedAddress = ''target address is blocked''"
| "sentinel_text ErrUnsupportedMediaType = ''Content-Type must be application/json''"
| "sentinel_text ErrServerClosed = ''http: Server closed''"

datatype go_error =
    ErrNew string                  \<comment> \<open>\<^verbatim>\<open>errors.New(s)\<close>, or an error made outside the repository\<close>
  | ErrVar sentinel                \<comment> \<open>a package-level variable\<close>
  | WrapPrefix string go_error     \<comment> \<open>\<^verbatim>\<open>fmt.Errorf("s: %w", err)\<close>\<close>
  | WrapSuffix go_error string     \<comment> \<open>\<^verbatim>\<open>fmt.Errorf("%w: s", err)\<close>\<close>
  | ErrJoin "go_error list"        \<comment> \<open>\<^verbatim>\<open>errors.Join(errs...)\<close>\<close>

fun errors_is :: "go_error \<Rightarrow> sentinel \<Rightarrow> bool" where
  "errors_is (ErrNew _) t = False"
| "errors_is (ErrVar s) t = (s = t)"
| "errors_is (WrapPrefix _ e) t = errors_is e t"
| "errors_is (WrapSuffix e _) t = errors_is e t"
| "errors_is (ErrJoin es) t = list_ex (\<lambda>e. errors_is e t) es"

fun join_lines :: "string list \<Rightarrow> string" where
  "join_lines [] = []"
| "join_lines [s] = s"
| "join_lines (s # t # ss) = s @ CHR 0x0A # join_lines (t # ss)"

fun error_text :: "go_error \<Rightarrow> string" where
  "error_text (ErrNew s) = s"
| "error_text (ErrVar s) = sentinel_text s"
| "error_text (WrapPrefix p e) = p @ '': '' @ error_text e"
| "error_text (WrapSuffix e s) = error_text e @ '': '' @ s"
| "error_text (ErrJoin es) = join_lines (map error_text es)"

section \<open>Tables\<close>

text \<open>A table is a list of rows; \<open>key\<close> reads the primary key of a row.\<close>

definition tfind :: "('r \<Rightarrow> 'k) \<Rightarrow> 'k \<Rightarrow> 'r list \<Rightarrow> 'r option" where
  "tfind key k rows = find (\<lambda>r. key r = k) rows"

definition tupdate :: "('r \<Rightarrow> 'k) \<Rightarrow> 'k \<Rightarrow> ('r \<Rightarrow> 'r) \<Rightarrow> 'r list \<Rightarrow> 'r list" where
  "tupdate key k f rows = map (\<lambda>r. if key r = k then f r else r) rows"

text \<open>\<^verbatim>\<open>SELECT ... WHERE p ORDER BY k LIMIT n\<close>.\<close>

definition select_limit ::
  "('r \<Rightarrow> bool) \<Rightarrow> ('r \<Rightarrow> 'o::linorder) \<Rightarrow> nat \<Rightarrow> 'r list \<Rightarrow> 'r list" where
  "select_limit p k n rows = take n (sort_key k (filter p rows))"

section \<open>Lemmas on integers and durations\<close>

lemma wrap64_id [simp]:
  assumes "- (2 ^ 63) \<le> x" and "x < 2 ^ 63"
  shows "wrap64 x = x"
  using assms by (simp add: wrap64_def)

lemma wrap32_id [simp]:
  assumes "- (2 ^ 31) \<le> x" and "x < 2 ^ 31"
  shows "wrap32 x = x"
  using assms by (simp add: wrap32_def)

lemma sdiv_nonneg_eq_div: "0 \<le> (a::int) \<Longrightarrow> 0 < b \<Longrightarrow> a sdiv b = a div b"
  by (simp add: signed_divide_int_def sgn_if)

lemma milliseconds_nonneg: "0 \<le> d \<Longrightarrow> 0 \<le> milliseconds d"
  by (simp add: milliseconds_def sdiv_nonneg_eq_div pos_imp_zdiv_nonneg_iff)

lemma milliseconds_pos: "millisecond \<le> d \<Longrightarrow> 0 < milliseconds d"
  by (simp add: milliseconds_def sdiv_nonneg_eq_div pos_imp_zdiv_pos_iff)

lemma time_sub_nonneg: "u \<le> t \<Longrightarrow> 0 \<le> time_sub t u"
  by (simp add: time_sub_def)

section \<open>Lemmas on tables\<close>

lemma tfind_Nil [simp, table_simps]: "tfind key k [] = None"
  by (simp add: tfind_def)

lemma tfind_Cons [table_simps]:
  "tfind key k (r # rows) = (if key r = k then Some r else tfind key k rows)"
  by (simp add: tfind_def)

lemma tfind_append:
  "tfind key k (xs @ ys) = (case tfind key k xs of None \<Rightarrow> tfind key k ys | Some r \<Rightarrow> Some r)"
  by (induction xs) (auto simp: tfind_Cons)

lemma tfind_SomeD: "tfind key k rows = Some r \<Longrightarrow> r \<in> set rows \<and> key r = k"
  by (induction rows) (auto simp: tfind_Cons split: if_splits)

lemma tfind_None_iff: "tfind key k rows = None \<longleftrightarrow> k \<notin> key ` set rows"
  by (induction rows) (auto simp: tfind_Cons)

lemma tfind_Some_iff:
  "distinct (map key rows) \<Longrightarrow> tfind key k rows = Some r \<longleftrightarrow> r \<in> set rows \<and> key r = k"
  by (induction rows) (auto simp: tfind_Cons)

lemma tfind_key: "distinct (map key rows) \<Longrightarrow> r \<in> set rows \<Longrightarrow> tfind key (key r) rows = Some r"
  by (simp add: tfind_Some_iff)

lemma key_inj: "distinct (map key rows) \<Longrightarrow> x \<in> set rows \<Longrightarrow> y \<in> set rows \<Longrightarrow> key x = key y \<Longrightarrow> x = y"
  by (auto simp: distinct_map dest: inj_onD)

lemma tfind_unique:
  "distinct (map key rows) \<Longrightarrow> tfind key k rows = Some r \<Longrightarrow> x \<in> set rows \<Longrightarrow> key x = k \<Longrightarrow> x = r"
  by (metis tfind_key option.inject)

lemma map_key_tupdate [table_simps]:
  assumes "\<And>r. key (f r) = key r"
  shows "map key (tupdate key k f rows) = map key rows"
  using assms by (induction rows) (auto simp: tupdate_def)

lemma map_tupdate_frame:
  assumes "\<And>r. g (f r) = g r"
  shows "map g (tupdate key k f rows) = map g rows"
  using assms by (induction rows) (auto simp: tupdate_def)

lemma tfind_tupdate [table_simps]:
  assumes "\<And>r. key (f r) = key r"
  shows "tfind key j (tupdate key k f rows) =
    (if j = k then map_option f (tfind key j rows) else tfind key j rows)"
  using assms by (induction rows) (auto simp: tupdate_def tfind_Cons)

lemma set_tupdate:
  "set (tupdate key k f rows) =
    {r \<in> set rows. key r \<noteq> k} \<union> f ` {r \<in> set rows. key r = k}"
  by (induction rows) (auto simp: tupdate_def)

lemma in_tupdateE:
  assumes "r \<in> set (tupdate key k f rows)"
  obtains (old) "r \<in> set rows" "key r \<noteq> k"
  | (new) r0 where "r0 \<in> set rows" "key r0 = k" "r = f r0"
  using assms by (auto simp: set_tupdate)

lemma length_tupdate [simp]: "length (tupdate key k f rows) = length rows"
  by (simp add: tupdate_def)

lemma set_select_limit: "set (select_limit p k n rows) \<subseteq> {r \<in> set rows. p r}"
  unfolding select_limit_def using set_take_subset by fastforce

lemma select_limitD: "r \<in> set (select_limit p k n rows) \<Longrightarrow> r \<in> set rows \<and> p r"
  using set_select_limit by fastforce

lemma length_select_limit: "length (select_limit p k n rows) \<le> n"
  by (simp add: select_limit_def)

lemma distinct_map_select_limit:
  "distinct (map g rows) \<Longrightarrow> distinct (map g (select_limit p k n rows))"
proof -
  assume d: "distinct (map g rows)"
  have "distinct (map g (filter p rows))"
    using d by (rule distinct_map_filter)
  then have "distinct (map g (sort_key k (filter p rows)))"
    by (simp add: distinct_map)
  then show ?thesis
    unfolding select_limit_def by (simp add: take_map [symmetric])
qed

lemma select_limit_head_min:
  assumes "select_limit p k n rows = r # rs" and "x \<in> set rows" and "p x"
  shows "k r \<le> k x"
proof -
  let ?s = "sort_key k (filter p rows)"
  from assms(1) obtain t where s: "?s = r # t"
    unfolding select_limit_def by (cases ?s; cases n) auto
  have "sorted (map k ?s)" by simp
  moreover have "x \<in> set ?s" using assms(2,3) by simp
  ultimately show ?thesis using s by auto
qed

lemma select_limit_Nil_iff:
  assumes "0 < n"
  shows "select_limit p k n rows = [] \<longleftrightarrow> (\<forall>r \<in> set rows. \<not> p r)"
proof -
  have "select_limit p k n rows = [] \<longleftrightarrow> filter p rows = []"
    using assms by (simp add: select_limit_def min_def flip: length_0_conv)
  then show ?thesis by (simp add: filter_empty_conv)
qed

lemma list_all2_in_set2:
  "list_all2 P xs ys \<Longrightarrow> y \<in> set ys \<Longrightarrow> \<exists>x \<in> set xs. P x y"
  by (induction rule: list_all2_induct) auto

end
