(* ===== verification/Go_Float.thy ===== *)
theory Go_Float
  imports Prelude Complex_Main "HOL-Library.Log_Nat"
begin

text \<open>
  Go's \<^verbatim>\<open>float64\<close>: IEEE 754 binary64 with round-to-nearest, ties to even. A finite value is
  the rational number it stands for; an arithmetic result is rounded to 53 significant bits,
  or to a multiple of \<open>2 ^ -1074\<close> in the subnormal range. The two zeros are one value,
  which no operation used by the repository can tell apart. A result of magnitude
  \<open>2 ^ 1024\<close> or more becomes an infinity.
\<close>

datatype float64 = Fin rat | NaN | PInf | NInf

definition pow2 :: "int \<Rightarrow> rat" where
  "pow2 e = (if 0 \<le> e then 2 ^ nat e else 1 / 2 ^ nat (- e))"

text \<open>Round a rational to the nearest integer, ties to even.\<close>

definition round_even :: "rat \<Rightarrow> int" where
  "round_even x =
     (let f = \<lfloor>x\<rfloor>; r = x - of_int f in
      if r < 1 / 2 then f else if 1 / 2 < r then f + 1 else if even f then f else f + 1)"

text \<open>The exponent of the last place of the binade of \<open>x\<close>.\<close>

definition ulp_exp :: "rat \<Rightarrow> int" where
  "ulp_exp x =
     (let (n, d) = quotient_of \<bar>x\<bar>;
          e = bitlen n - bitlen d;
          l = (if pow2 e * of_int d \<le> of_int n then e else e - 1)
      in max (l - 52) (- 1074))"

definition rnd64 :: "rat \<Rightarrow> rat" where
  "rnd64 x = of_int (round_even (x / pow2 (ulp_exp x))) * pow2 (ulp_exp x)"

definition f64 :: "rat \<Rightarrow> float64" where
  "f64 x = (let y = rnd64 x in
     if pow2 1024 \<le> y then PInf else if y \<le> - pow2 1024 then NInf else Fin y)"

text \<open>Comparison: every comparison with \<^verbatim>\<open>NaN\<close> is false.\<close>

fun flt :: "float64 \<Rightarrow> float64 \<Rightarrow> bool" where
  "flt (Fin x) (Fin y) = (x < y)"
| "flt NaN _ = False"
| "flt _ NaN = False"
| "flt NInf NInf = False"
| "flt NInf _ = True"
| "flt PInf _ = False"
| "flt (Fin _) PInf = True"
| "flt (Fin _) NInf = False"

fun fsign :: "float64 \<Rightarrow> int" where
  "fsign (Fin x) = (if x < 0 then - 1 else if 0 < x then 1 else 0)"
| "fsign PInf = 1"
| "fsign NInf = - 1"
| "fsign NaN = 0"

fun fadd :: "float64 \<Rightarrow> float64 \<Rightarrow> float64" where
  "fadd (Fin x) (Fin y) = f64 (x + y)"
| "fadd NaN _ = NaN"
| "fadd _ NaN = NaN"
| "fadd PInf NInf = NaN"
| "fadd NInf PInf = NaN"
| "fadd PInf _ = PInf"
| "fadd NInf _ = NInf"
| "fadd (Fin _) PInf = PInf"
| "fadd (Fin _) NInf = NInf"

fun fneg :: "float64 \<Rightarrow> float64" where
  "fneg (Fin x) = Fin (- x)"
| "fneg NaN = NaN"
| "fneg PInf = NInf"
| "fneg NInf = PInf"

definition fsub :: "float64 \<Rightarrow> float64 \<Rightarrow> float64" where
  "fsub x y = fadd x (fneg y)"

fun fmul :: "float64 \<Rightarrow> float64 \<Rightarrow> float64" where
  "fmul (Fin x) (Fin y) = f64 (x * y)"
| "fmul NaN _ = NaN"
| "fmul _ NaN = NaN"
| "fmul x y = (let s = fsign x * fsign y in if s = 0 then NaN else if 0 < s then PInf else NInf)"

text \<open>\<^verbatim>\<open>float64(n)\<close> for an integer \<open>n\<close>.\<close>

fun fdiv :: "float64 \<Rightarrow> float64 \<Rightarrow> float64" where
  "fdiv (Fin x) (Fin y) =
     (if y \<noteq> 0 then f64 (x / y) else if x = 0 then NaN else if 0 < x then PInf else NInf)"
| "fdiv NaN _ = NaN"
| "fdiv _ NaN = NaN"
| "fdiv (Fin _) _ = Fin 0"
| "fdiv x (Fin y) = (if y < 0 then fneg x else x)"
| "fdiv _ _ = NaN"

definition f64_of_int :: "int \<Rightarrow> float64" where
  "f64_of_int n = f64 (of_int n)"

text \<open>\<^verbatim>\<open>Duration.Seconds\<close>.\<close>

definition seconds_f64 :: "duration \<Rightarrow> float64" where
  "seconds_f64 d = fadd (f64_of_int (d sdiv second)) (fdiv (f64_of_int (d smod second)) (f64_of_int second))"

text \<open>
  \<^verbatim>\<open>int64(x)\<close>: the fraction is discarded. For a \<^verbatim>\<open>NaN\<close> and for a value outside the range
  the Go specification leaves the result to the implementation: it is the parameter \<open>cvt\<close>.
\<close>

definition trunc_rat :: "rat \<Rightarrow> int" where
  "trunc_rat x = (if 0 \<le> x then \<lfloor>x\<rfloor> else \<lceil>x\<rceil>)"

fun int64_of_f64 :: "(float64 \<Rightarrow> int) \<Rightarrow> float64 \<Rightarrow> int" where
  "int64_of_f64 cvt (Fin x) =
     (if - (2 ^ 63) \<le> trunc_rat x \<and> trunc_rat x < 2 ^ 63 then trunc_rat x else cvt (Fin x))"
| "int64_of_f64 cvt x = cvt x"

section \<open>Rounding\<close>

lemma pow2_pos [simp]: "0 < pow2 e"
  by (simp add: pow2_def)

lemma pow2_nonneg [simp]: "0 \<le> pow2 e"
  by (rule less_imp_le) simp

lemma pow2_neq_0 [simp]: "pow2 e \<noteq> 0"
  by (rule less_imp_neq [THEN not_sym]) simp

lemma pow2_powi: "pow2 e = 2 powi e"
  by (simp add: pow2_def power_int_def field_simps)

lemma round_even_le: "x \<le> of_int k \<Longrightarrow> round_even x \<le> k"
proof -
  assume le: "x \<le> of_int k"
  have f: "\<lfloor>x\<rfloor> \<le> k" using le by (simp add: floor_le_iff)
  show ?thesis
  proof (cases "\<lfloor>x\<rfloor> = k")
    case True
    with le have "x = of_int k" by (metis of_int_floor_le order_antisym)
    then show ?thesis by (simp add: round_even_def)
  next
    case False
    with f show ?thesis by (simp add: round_even_def Let_def)
  qed
qed

lemma round_even_ge: "of_int k \<le> x \<Longrightarrow> k \<le> round_even x"
proof -
  assume "of_int k \<le> x"
  then have "k \<le> \<lfloor>x\<rfloor>" by (simp add: le_floor_iff)
  then show ?thesis by (simp add: round_even_def Let_def)
qed

text \<open>A multiple of the last place is a bound that rounding respects.\<close>

lemma rnd64_le_grid:
  assumes "x \<le> of_int k * pow2 (ulp_exp x)"
  shows "rnd64 x \<le> of_int k * pow2 (ulp_exp x)"
proof -
  have "x / pow2 (ulp_exp x) \<le> of_int k"
    using assms by (simp add: divide_le_eq)
  then have "round_even (x / pow2 (ulp_exp x)) \<le> k" by (rule round_even_le)
  then show ?thesis by (simp add: rnd64_def)
qed

lemma rnd64_ge_grid:
  assumes "of_int k * pow2 (ulp_exp x) \<le> x"
  shows "of_int k * pow2 (ulp_exp x) \<le> rnd64 x"
proof -
  have "of_int k \<le> x / pow2 (ulp_exp x)"
    using assms by (simp add: le_divide_eq)
  then have "k \<le> round_even (x / pow2 (ulp_exp x))" by (rule round_even_ge)
  then show ?thesis by (simp add: rnd64_def)
qed

lemma rnd64_nonneg: "0 \<le> x \<Longrightarrow> 0 \<le> rnd64 x"
  using rnd64_ge_grid [of 0 x] by simp

lemma rnd64_nonpos: "x \<le> 0 \<Longrightarrow> rnd64 x \<le> 0"
  using rnd64_le_grid [of x 0] by simp

lemma int_on_grid:
  assumes "e \<le> 0"
  shows "of_int a = of_int (a * 2 ^ nat (- e)) * pow2 e"
  using assms by (cases "e = 0") (simp_all add: pow2_def)

lemma rnd64_le_int:
  assumes "ulp_exp x \<le> 0" and "x \<le> of_int a"
  shows "rnd64 x \<le> of_int a"
  using rnd64_le_grid [of x "a * 2 ^ nat (- ulp_exp x)"] assms(2)
  unfolding int_on_grid [OF assms(1), symmetric] by simp

lemma rnd64_ge_int:
  assumes "ulp_exp x \<le> 0" and "of_int a \<le> x"
  shows "of_int a \<le> rnd64 x"
  using rnd64_ge_grid [of "a * 2 ^ nat (- ulp_exp x)" x] assms(2)
  unfolding int_on_grid [OF assms(1), symmetric] by simp

lemma rnd64_int: "ulp_exp (of_int a) \<le> 0 \<Longrightarrow> rnd64 (of_int a) = of_int a"
  by (rule order_antisym) (auto intro: rnd64_le_int rnd64_ge_int)

section \<open>The exponent of the last place\<close>

lemma pow2_mono: "i \<le> j \<Longrightarrow> pow2 i \<le> pow2 j"
  unfolding pow2_powi by (simp add: power_int_increasing)

lemma pow2_nat: "pow2 (int n) = 2 ^ n"
  by (simp add: pow2_def)

lemma pow2_diff: "pow2 (i - j) = pow2 i / pow2 j"
  unfolding pow2_powi by (simp add: power_int_diff)

lemma bitlen_lower: "0 < n \<Longrightarrow> pow2 (bitlen n - 1) \<le> of_int n"
proof -
  assume n: "0 < n"
  then have "2 ^ nat (bitlen n - 1) \<le> n" using bitlen_bounds by blast
  then have "(of_int (2 ^ nat (bitlen n - 1)) :: rat) \<le> of_int n"
    by (simp only: of_int_le_iff)
  moreover have "0 \<le> bitlen n - 1"
    using n bitlen_nonneg [of n] bitlen_eq_zero_iff [of n] by linarith
  ultimately show ?thesis by (simp add: pow2_def)
qed

lemma bitlen_upper: "0 < d \<Longrightarrow> of_int d < pow2 (bitlen d)"
proof -
  assume d: "0 < d"
  then have "d < 2 ^ nat (bitlen d)" using bitlen_bounds by blast
  then have "(of_int d :: rat) < of_int (2 ^ nat (bitlen d))"
    by (simp only: of_int_less_iff)
  moreover have "0 \<le> bitlen d" by (simp add: bitlen_def)
  ultimately show ?thesis by (simp add: pow2_def)
qed

text \<open>The binade: for \<open>x\<close> other than zero, \<open>2 ^ l \<le> \<bar>x\<bar>\<close> where the last place is \<open>l - 52\<close>.\<close>

lemma ulp_exp_binade:
  assumes "x \<noteq> 0"
  obtains l where "ulp_exp x = max (l - 52) (- 1074)" and "pow2 l \<le> \<bar>x\<bar>"
proof -
  obtain n d where q: "quotient_of \<bar>x\<bar> = (n, d)" by (cases "quotient_of \<bar>x\<bar>")
  then have d: "0 < d" and x: "\<bar>x\<bar> = of_int n / of_int d"
    by (auto simp: quotient_of_denom_pos quotient_of_div)
  from assms have "0 < \<bar>x\<bar>" by simp
  with x d have n: "0 < n" by (simp add: zero_less_divide_iff)
  let ?e = "bitlen n - bitlen d"
  have low: "pow2 (?e - 1) * of_int d \<le> of_int n"
  proof -
    have "pow2 (?e - 1) * of_int d \<le> pow2 (?e - 1) * pow2 (bitlen d)"
      using bitlen_upper [OF d] by simp
    also have "\<dots> = pow2 (bitlen n - 1)"
      unfolding pow2_powi by (simp flip: power_int_add)
    also have "\<dots> \<le> of_int n" using n by (rule bitlen_lower)
    finally show ?thesis .
  qed
  define l where "l = (if pow2 ?e * of_int d \<le> of_int n then ?e else ?e - 1)"
  have "pow2 l * of_int d \<le> of_int n" using low by (simp add: l_def)
  then have "pow2 l \<le> \<bar>x\<bar>" using d x by (simp add: le_divide_eq)
  moreover have "ulp_exp x = max (l - 52) (- 1074)"
    unfolding ulp_exp_def q by (simp add: l_def Let_def)
  ultimately show ?thesis by (rule that [rotated])
qed

lemma ulp_exp_le:
  assumes "x \<noteq> 0" and "\<bar>x\<bar> < pow2 m" and "- 1021 \<le> m"
  shows "ulp_exp x \<le> m - 53"
proof -
  obtain l where u: "ulp_exp x = max (l - 52) (- 1074)" and "pow2 l \<le> \<bar>x\<bar>"
    using assms(1) by (rule ulp_exp_binade)
  with assms(2) have "pow2 l < pow2 m" by simp
  then have "l < m" using pow2_mono [of m l] by (meson linorder_not_less)
  with u assms(3) show ?thesis by simp
qed

lemma ulp_exp_0 [simp]: "ulp_exp 0 = - 54"
  by code_simp

lemma ulp_exp_nonpos: "\<bar>x\<bar> < 2 ^ 53 \<Longrightarrow> ulp_exp x \<le> 0"
proof (cases "x = 0")
  case True
  then show ?thesis by simp
next
  case False
  assume "\<bar>x\<bar> < 2 ^ 53"
  then have "\<bar>x\<bar> < pow2 53" by (simp add: pow2_def)
  from ulp_exp_le [OF False this] show ?thesis by simp
qed

lemma rnd64_of_int [simp]: "\<bar>a\<bar> < 2 ^ 53 \<Longrightarrow> rnd64 (of_int a) = of_int a"
proof (rule rnd64_int, rule ulp_exp_nonpos)
  assume "\<bar>a\<bar> < 2 ^ 53"
  then have "(of_int \<bar>a\<bar> :: rat) < of_int (2 ^ 53)" by (simp only: of_int_less_iff)
  then show "\<bar>of_int a :: rat\<bar> < 2 ^ 53" by simp
qed

text \<open>Rounding keeps a value between two integers below \<open>2 ^ 53\<close>.\<close>

lemma rnd64_between:
  assumes "of_int a \<le> x" and "x \<le> of_int b" and "\<bar>x\<bar> < 2 ^ 53"
  shows "of_int a \<le> rnd64 x" and "rnd64 x \<le> of_int b"
  by (rule rnd64_ge_int [OF ulp_exp_nonpos [OF assms(3)] assms(1)],
      rule rnd64_le_int [OF ulp_exp_nonpos [OF assms(3)] assms(2)])

lemma f64_finite: "\<bar>rnd64 x\<bar> < pow2 1024 \<Longrightarrow> f64 x = Fin (rnd64 x)"
  by (auto simp: f64_def Let_def)

lemma f64_small:
  assumes "of_int a \<le> x" and "x \<le> of_int b" and "\<bar>x\<bar> < 2 ^ 53" and "\<bar>a\<bar> < 2 ^ 53" and "\<bar>b\<bar> < 2 ^ 53"
  shows "f64 x = Fin (rnd64 x)" and "of_int a \<le> rnd64 x" and "rnd64 x \<le> of_int b"
proof -
  show lo: "of_int a \<le> rnd64 x" and hi: "rnd64 x \<le> of_int b"
    using rnd64_between [OF assms(1-3)] by auto
  have big: "(2 ^ 53 :: rat) \<le> pow2 1024"
    using pow2_mono [of 53 1024] by (simp add: pow2_def)
  have "\<bar>of_int a :: rat\<bar> < 2 ^ 53" and "\<bar>of_int b :: rat\<bar> < 2 ^ 53"
    using assms(4,5) by (simp_all flip: of_int_abs add: of_int_less_numeral_power_cancel_iff)
  then have "\<bar>rnd64 x\<bar> < 2 ^ 53" using lo hi by linarith
  with big show "f64 x = Fin (rnd64 x)" by (intro f64_finite) linarith
qed

text \<open>Powers of two are bounds that rounding respects, whatever the binade.\<close>

lemma pow2_add: "pow2 (i + j) = pow2 i * pow2 j"
  unfolding pow2_powi by (simp add: power_int_add)

lemma pow2_on_grid: "e \<le> m \<Longrightarrow> pow2 m = of_int (2 ^ nat (m - e)) * pow2 e"
  using pow2_add [of "m - e" e] by (simp add: pow2_def [of "m - e"])

lemma rnd64_le_pow2:
  assumes "\<bar>x\<bar> \<le> pow2 m" and "- 1022 \<le> m"
  shows "rnd64 x \<le> pow2 m"
proof (cases "x = 0")
  case True
  then have "rnd64 x \<le> 0" using rnd64_nonpos [of x] by simp
  also have "0 \<le> pow2 m" by simp
  finally show ?thesis .
next
  case False
  have "pow2 m < pow2 (m + 1)" by (simp add: pow2_add pow2_def [of 1])
  with assms have "ulp_exp x \<le> m" using ulp_exp_le [OF False, of "m + 1"] by simp
  note grid = pow2_on_grid [OF this]
  have "x \<le> pow2 m" using assms(1) by (simp add: abs_le_iff)
  then show ?thesis unfolding grid by (rule rnd64_le_grid)
qed

lemma rnd64_ge_pow2:
  assumes "pow2 m \<le> x" and "- 1074 \<le> m"
  shows "pow2 m \<le> rnd64 x"
proof -
  have x: "0 < x" using assms(1) pow2_pos [of m] by linarith
  then have "x \<noteq> 0" by simp
  then obtain l where u: "ulp_exp x = max (l - 52) (- 1074)" and l: "pow2 l \<le> \<bar>x\<bar>"
    by (rule ulp_exp_binade)
  show ?thesis
  proof (cases "ulp_exp x \<le> m")
    case True
    note grid = pow2_on_grid [OF this]
    show ?thesis using assms(1) unfolding grid by (rule rnd64_ge_grid)
  next
    case False
    with u assms(2) have e: "ulp_exp x \<le> l" and ml: "m \<le> l" by auto
    note grid = pow2_on_grid [OF e]
    have "pow2 m \<le> pow2 l" using ml by (rule pow2_mono)
    also have "pow2 l \<le> x" using l x by simp
    then have "pow2 l \<le> rnd64 x" unfolding grid by (rule rnd64_ge_grid)
    finally show ?thesis .
  qed
qed

end
