(* ===== verification/Delivery.thy ===== *)
theory Delivery
  imports Go_Float
begin

text \<open>
  The delivery domain: \<^verbatim>\<open>internal/delivery/model.go\<close> (the structs and the status machine) and
  \<^verbatim>\<open>internal/delivery/policy.go\<close> (decisions, retry policy). The lemmas give the closed form of
  the backoff loop and bounds of the jittered delay in binary64 arithmetic.
\<close>

section \<open>model.go\<close>

text \<open>
  \<^verbatim>\<open>type Status string\<close>: the five constants, and \<open>StatusOther\<close> for any other string.
\<close>

datatype status =
    StatusPending | StatusProcessing | StatusRetrying | StatusSucceeded | StatusDead
  | StatusOther string

record endpoint =
  ep_ID :: string
  ep_Name :: string
  ep_URL :: string
  ep_SecretCiphertext :: bytes
  ep_Timeout :: duration
  ep_MaxAttempts :: int
  ep_ConsecutiveFailures :: int
  ep_DisabledAt :: "time option"
  ep_CircuitOpenUntil :: "time option"
  ep_CreatedAt :: time
  ep_UpdatedAt :: time

record event =
  ev_ID :: string
  ev_EndpointID :: string
  ev_Type :: string
  ev_Payload :: bytes
  ev_IdempotencyKey :: string
  ev_CreatedAt :: time

record delivery =
  dl_ID :: string
  dl_EventID :: string
  dl_EndpointID :: string
  dl_Status :: status
  dl_AttemptCount :: int
  dl_MaxAttempts :: int
  dl_NextAttemptAt :: time
  dl_LockedBy :: string
  dl_LeaseToken :: string
  dl_LockedAt :: "time option"
  dl_LockedUntil :: "time option"
  dl_LastStatusCode :: "int option"
  dl_LastError :: string
  dl_LastCompletedAt :: "time option"
  dl_CreatedAt :: time
  dl_UpdatedAt :: time

record attempt =
  at_ID :: string
  at_DeliveryID :: string
  at_Number :: int
  at_StatusCode :: "int option"
  at_ResponseBody :: string
  at_ErrorMessage :: string
  at_Duration :: duration
  at_StartedAt :: time
  at_CompletedAt :: time

definition Final :: "status \<Rightarrow> bool" where
  "Final s \<longleftrightarrow> s = StatusSucceeded \<or> s = StatusDead"

fun CanTransition :: "status \<Rightarrow> status \<Rightarrow> bool" where
  "CanTransition StatusPending nxt = (nxt = StatusProcessing)"
| "CanTransition StatusRetrying nxt = (nxt = StatusProcessing)"
| "CanTransition StatusProcessing nxt =
     (nxt = StatusSucceeded \<or> nxt = StatusRetrying \<or> nxt = StatusDead)"
| "CanTransition StatusDead nxt = (nxt = StatusPending)"
| "CanTransition _ nxt = False"

section \<open>policy.go\<close>

text \<open>\<^verbatim>\<open>type Decision string\<close>: the three constants, and \<open>DecisionOther\<close> for any other string.\<close>

datatype decision = DecisionSucceed | DecisionRetry | DecisionDiscard | DecisionOther string

record RetryPolicy =
  rp_base :: duration
  rp_max :: duration
  rp_jitter :: float64

definition NewRetryPolicy ::
  "duration \<Rightarrow> duration \<Rightarrow> float64 \<Rightarrow> (go_error, RetryPolicy) result" where
  "NewRetryPolicy base mx jitter =
     (if base \<le> 0 then Inl (ErrNew ''base delay must be positive'')
      else if mx < base then Inl (ErrNew ''max delay must not be less than base delay'')
      else if flt jitter (Fin 0) \<or> flt (Fin 1) jitter
        then Inl (ErrNew ''jitter must be between 0 and 1'')
      else Inr \<lparr>rp_base = base, rp_max = mx, rp_jitter = jitter\<rparr>)"

text \<open>The loop of \<^verbatim>\<open>NextDelay\<close>; the counter is the number of iterations left.\<close>

fun backoff :: "duration \<Rightarrow> duration \<Rightarrow> nat \<Rightarrow> duration" where
  "backoff mx delay 0 = delay"
| "backoff mx delay (Suc n) =
     (if mx sdiv 2 \<le> delay then mx else backoff mx (wrap64 (delay * 2)) n)"

definition clamp_sample :: "float64 \<Rightarrow> float64" where
  "clamp_sample sample =
     (let s = (if flt sample (Fin 0) then Fin 0 else sample)
      in if flt (Fin 1) s then Fin 1 else s)"

definition NextDelay ::
  "(float64 \<Rightarrow> int) \<Rightarrow> RetryPolicy \<Rightarrow> int \<Rightarrow> float64 \<Rightarrow> duration" where
  "NextDelay cvt p att sample =
     (let att' = (if att < 1 then 1 else att);
          delay0 = backoff (rp_max p) (rp_base p) (nat (att' - 1));
          delay = (if rp_max p < delay0 then rp_max p else delay0);
          s = clamp_sample sample;
          factor = fadd (Fin 1) (fmul (fsub (fmul s (Fin 2)) (Fin 1)) (rp_jitter p));
          result = int64_of_f64 cvt (fmul (f64_of_int delay) factor)
      in if rp_max p < result then rp_max p else result)"

definition Evaluate :: "int \<Rightarrow> go_error option \<Rightarrow> decision" where
  "Evaluate statusCode requestErr =
     (if requestErr \<noteq> None then DecisionRetry
      else if 200 \<le> statusCode \<and> statusCode < 300 then DecisionSucceed
      else if statusCode = 408 \<or> statusCode = 425 \<or> statusCode = 429 \<or> 500 \<le> statusCode
        then DecisionRetry
      else DecisionDiscard)"

definition ValidateMaxAttempts :: "int \<Rightarrow> go_error option" where
  "ValidateMaxAttempts attempts =
     (if attempts < 1 \<or> 100 < attempts
      then Some (ErrNew ''max attempts must be between 1 and 100'') else None)"

section \<open>The backoff loop\<close>

lemma backoff_closed_form:
  assumes "0 < delay" and "delay \<le> mx" and "mx \<le> max_int64"
  shows "backoff mx delay n =
    (if n = 0 then delay
     else if delay * 2 ^ (n - 1) < mx div 2 then delay * 2 ^ n else mx)"
  using assms
proof (induction n arbitrary: delay)
  case 0
  then show ?case by simp
next
  case (Suc n)
  have q: "mx sdiv 2 = mx div 2" using Suc.prems by (simp add: sdiv_nonneg_eq_div)
  show ?case
  proof (cases "mx div 2 \<le> delay")
    case True
    have "delay * 1 \<le> delay * 2 ^ n" using Suc.prems by (intro mult_left_mono) auto
    with True have "\<not> delay * 2 ^ n < mx div 2" by simp
    with True show ?thesis by (simp add: q)
  next
    case False
    then have w: "wrap64 (delay * 2) = delay * 2" using Suc.prems by (intro wrap64_id) auto
    have "backoff mx (delay * 2) n =
        (if n = 0 then delay * 2
         else if delay * 2 * 2 ^ (n - 1) < mx div 2 then delay * 2 * 2 ^ n else mx)"
      using False Suc.prems by (intro Suc.IH) auto
    with False show ?thesis by (cases n) (simp_all add: q w)
  qed
qed

lemma backoff_bounds:
  assumes "0 < delay" and "delay \<le> mx" and "mx \<le> max_int64"
  shows "delay \<le> backoff mx delay n" and "backoff mx delay n \<le> mx"
proof -
  have "delay * 1 \<le> delay * 2 ^ n" using assms by (intro mult_left_mono) auto
  moreover have "delay * 2 ^ n \<le> mx" if "n \<noteq> 0" "delay * 2 ^ (n - 1) < mx div 2"
    using that by (cases n) auto
  ultimately show "delay \<le> backoff mx delay n" and "backoff mx delay n \<le> mx"
    using assms by (auto simp: backoff_closed_form)
qed

section \<open>The jitter factor in binary64\<close>

definition jitter_factor :: "float64 \<Rightarrow> float64 \<Rightarrow> float64" where
  "jitter_factor s j = fadd (Fin 1) (fmul (fsub (fmul s (Fin 2)) (Fin 1)) j)"

lemma clamp_sample_range:
  assumes "sample \<noteq> NaN"
  obtains s where "clamp_sample sample = Fin s" and "0 \<le> s" and "s \<le> 1"
proof (cases sample)
  case (Fin x)
  then have "clamp_sample sample = Fin (if x < 0 then 0 else if 1 < x then 1 else x)"
    by (simp add: clamp_sample_def Let_def)
  then show ?thesis by (rule that) auto
qed (use assms that in \<open>auto simp: clamp_sample_def Let_def\<close>)

lemma signed_sample_range:
  assumes "0 \<le> s" and "s \<le> 1"
  obtains t where "fsub (fmul (Fin s) (Fin 2)) (Fin 1) = Fin t" and "- 1 \<le> t" and "t \<le> 1"
proof -
  define u where "u = rnd64 (s * 2)"
  have u: "f64 (s * 2) = Fin u" "0 \<le> u" "u \<le> 2"
    using f64_small [of 0 "s * 2" 2] assms by (simp_all add: u_def)
  define t where "t = rnd64 (u - 1)"
  have t: "f64 (u - 1) = Fin t" "- 1 \<le> t" "t \<le> 1"
    using f64_small [of "- 1" "u - 1" 1] u by (simp_all add: t_def)
  show ?thesis using u t by (intro that [of t]) (simp_all add: fsub_def)
qed

text \<open>With a jitter of at most \<open>1 - 2 ^ -k\<close> the factor is at least \<open>2 ^ -k\<close>.\<close>

lemma jitter_factor_range:
  assumes s: "0 \<le> s" "s \<le> 1" and j: "0 \<le> j" "j \<le> 1"
  obtains f where "jitter_factor (Fin s) (Fin j) = Fin f" and "0 \<le> f" and "f \<le> 2"
    and "\<And>k. k \<le> 51 \<Longrightarrow> j \<le> 1 - pow2 (- int k) \<Longrightarrow> pow2 (- int k) \<le> f"
proof -
  obtain t where t: "fsub (fmul (Fin s) (Fin 2)) (Fin 1) = Fin t" "- 1 \<le> t" "t \<le> 1"
    using s by (rule signed_sample_range)
  have tj: "- j \<le> t * j" "t * j \<le> j"
    using t(2,3) j mult_right_mono [of "- 1" t j] mult_right_mono [of t 1 j] by auto
  then have tj1: "- 1 \<le> t * j" "t * j \<le> 1" using j by auto
  define m where "m = rnd64 (t * j)"
  have m: "f64 (t * j) = Fin m" "- 1 \<le> m" "m \<le> 1"
    using f64_small [of "- 1" "t * j" 1] tj1 by (simp_all add: m_def)
  define f where "f = rnd64 (1 + m)"
  have f: "f64 (1 + m) = Fin f" "0 \<le> f" "f \<le> 2"
    using f64_small [of 0 "1 + m" 2] m by (simp_all add: f_def)
  have "pow2 (- int k) \<le> f" if k: "k \<le> 51" "j \<le> 1 - pow2 (- int k)" for k
  proof -
    have "ulp_exp (t * j) \<le> - 51"
    proof (cases "t * j = 0")
      case True
      then show ?thesis by (simp only: ulp_exp_0)
    next
      case False
      have "\<bar>t * j\<bar> < pow2 1" using tj1 by (simp add: pow2_def abs_less_iff)
      from ulp_exp_le [OF False this] show ?thesis by simp
    qed
    then have e: "ulp_exp (t * j) \<le> - int k" using k(1) by simp
    let ?g = "\<lambda>a. of_int (2 ^ nat (a - ulp_exp (t * j))) * pow2 (ulp_exp (t * j))"
    have grid: "- (1 - pow2 (- int k)) =
        of_int (2 ^ nat (- int k - ulp_exp (t * j)) - 2 ^ nat (0 - ulp_exp (t * j)))
          * pow2 (ulp_exp (t * j))"
      using pow2_on_grid [OF e] pow2_on_grid [of "ulp_exp (t * j)" 0] e
      by (simp add: left_diff_distrib pow2_def [of 0])
    have "- (1 - pow2 (- int k)) \<le> t * j" using tj k(2) by linarith
    then have "- (1 - pow2 (- int k)) \<le> m"
      unfolding m_def grid by (rule rnd64_ge_grid)
    then have "pow2 (- int k) \<le> 1 + m" by simp
    then show ?thesis unfolding f_def using k(1) by (intro rnd64_ge_pow2) auto
  qed
  moreover have "jitter_factor (Fin s) (Fin j) = Fin f"
    using t(1) m(1) f(1) by (simp add: jitter_factor_def)
  ultimately show ?thesis using f that by blast
qed

lemma NewRetryPolicy_Fin:
  assumes "NewRetryPolicy base mx (Fin j) = Inr p"
  shows "p = \<lparr>rp_base = base, rp_max = mx, rp_jitter = Fin j\<rparr>"
    and "0 < base" and "base \<le> mx" and "0 \<le> j" and "j \<le> 1"
  using assms by (auto simp: NewRetryPolicy_def split: if_splits)

text \<open>The jittered delay before the final cap, for a delay of at most \<open>2 ^ 61\<close> nanoseconds.\<close>

lemma scaled_delay_range:
  assumes d: "0 < d" "d \<le> 2 ^ 61" and f: "0 \<le> f" "f \<le> 2"
  obtains r where "int64_of_f64 cvt (fmul (f64_of_int d) (Fin f)) = r" and "0 \<le> r"
    and "\<And>k. k \<le> 51 \<Longrightarrow> 2 ^ k \<le> d \<Longrightarrow> pow2 (- int k) \<le> f \<Longrightarrow> 1 \<le> r"
proof -
  have "(of_int d :: rat) \<le> of_int (2 ^ 61)" using d(2) by (simp only: of_int_le_iff)
  then have d61: "(of_int d :: rat) \<le> pow2 61" by (simp add: pow2_def)
  define x where "x = rnd64 (of_int d)"
  have x: "0 \<le> x" "x \<le> pow2 61"
    using d d61 by (auto simp: x_def intro: rnd64_nonneg rnd64_le_pow2)
  have fin: "f64 z = Fin (rnd64 z)" if "0 \<le> z" "z \<le> pow2 62" for z
  proof (rule f64_finite)
    have "rnd64 z \<le> pow2 62" using that by (intro rnd64_le_pow2) auto
    also have "\<dots> < pow2 1024" by (simp add: pow2_def)
    finally show "\<bar>rnd64 z\<bar> < pow2 1024" using rnd64_nonneg [OF that(1)] by simp
  qed
  have "x * f \<le> pow2 61 * 2" using x f by (intro mult_mono) auto
  then have xf: "0 \<le> x * f" "x * f \<le> pow2 62" using x f by (auto simp: pow2_def)
  define y where "y = rnd64 (x * f)"
  have y: "0 \<le> y" "y \<le> pow2 62"
    using xf by (auto simp: y_def intro: rnd64_nonneg rnd64_le_pow2)
  have "pow2 61 \<le> pow2 62" by (rule pow2_mono) simp
  then have fd: "f64_of_int d = Fin x"
    using d d61 by (simp add: f64_of_int_def x_def fin)
  have t: "trunc_rat y = \<lfloor>y\<rfloor>" using y by (simp add: trunc_rat_def)
  have "\<lfloor>y\<rfloor> < 2 ^ 63" using y(2) by (simp add: floor_less_iff pow2_def)
  with y t have r: "int64_of_f64 cvt (fmul (f64_of_int d) (Fin f)) = \<lfloor>y\<rfloor>"
    by (simp add: fd fin [OF xf] y_def [symmetric])
  have "1 \<le> \<lfloor>y\<rfloor>" if k: "k \<le> 51" "2 ^ k \<le> d" "pow2 (- int k) \<le> f" for k
  proof -
    have "(of_int (2 ^ k) :: rat) \<le> of_int d" using k(2) by (simp only: of_int_le_iff)
    then have "pow2 (int k) \<le> x" unfolding x_def by (intro rnd64_ge_pow2) (simp_all add: pow2_nat)
    with k(3) have "pow2 (int k) * pow2 (- int k) \<le> x * f" using x by (intro mult_mono) auto
    then have "pow2 0 \<le> x * f" by (simp flip: pow2_add)
    then have "pow2 0 \<le> y" unfolding y_def by (rule rnd64_ge_pow2) simp
    then show ?thesis by (simp add: pow2_def)
  qed
  with r y show ?thesis by (intro that) auto
qed

lemma NextDelay_unfold:
  assumes "0 < rp_base p" and "rp_base p \<le> rp_max p" and "rp_max p \<le> max_int64"
  shows "NextDelay cvt p att sample =
    min (rp_max p) (int64_of_f64 cvt (fmul (f64_of_int (backoff (rp_max p) (rp_base p) (nat (max 1 att - 1))))
      (jitter_factor (clamp_sample sample) (rp_jitter p))))"
proof -
  have a: "(if att < 1 then 1 else att) = max 1 att" by simp
  have b: "min (rp_max p) (backoff (rp_max p) (rp_base p) n) = backoff (rp_max p) (rp_base p) n" for n
    using backoff_bounds(2) [OF assms, of n] by simp
  have c: "(if m < r then m else r) = min m r" for m r :: int by simp
  show ?thesis unfolding NextDelay_def jitter_factor_def Let_def a c b by (rule refl)
qed

lemma NextDelay_bounds_aux:
  assumes p: "NewRetryPolicy base mx (Fin j) = Inr p" and mx: "mx \<le> 2 ^ 61" and s: "sample \<noteq> NaN"
  shows "0 \<le> NextDelay cvt p att sample" and "NextDelay cvt p att sample \<le> mx"
    and "k \<le> 51 \<Longrightarrow> 2 ^ k \<le> base \<Longrightarrow> j \<le> 1 - pow2 (- int k) \<Longrightarrow> 1 \<le> NextDelay cvt p att sample"
proof -
  note pol = NewRetryPolicy_Fin [OF p]
  let ?d = "backoff mx base (nat (max 1 att - 1))"
  have d: "base \<le> ?d" "?d \<le> mx" using backoff_bounds [of base mx] pol mx by auto
  obtain x where x: "clamp_sample sample = Fin x" "0 \<le> x" "x \<le> 1"
    using s by (rule clamp_sample_range)
  obtain f where f: "jitter_factor (Fin x) (Fin j) = Fin f" "0 \<le> f" "f \<le> 2"
    "\<And>k. k \<le> 51 \<Longrightarrow> j \<le> 1 - pow2 (- int k) \<Longrightarrow> pow2 (- int k) \<le> f"
    using x(2,3) pol(4,5) by (rule jitter_factor_range) blast
  have "0 < ?d" "?d \<le> 2 ^ 61" using d pol mx by auto
  then obtain r where r: "int64_of_f64 cvt (fmul (f64_of_int ?d) (Fin f)) = r" "0 \<le> r"
    "\<And>k. k \<le> 51 \<Longrightarrow> 2 ^ k \<le> ?d \<Longrightarrow> pow2 (- int k) \<le> f \<Longrightarrow> 1 \<le> r"
    using f(2,3) by (rule scaled_delay_range) blast
  have nd: "NextDelay cvt p att sample = min mx r"
    using NextDelay_unfold [of p cvt att sample] pol mx x f r by simp
  show "0 \<le> NextDelay cvt p att sample" and "NextDelay cvt p att sample \<le> mx"
    using nd r(2) pol by auto
  show "1 \<le> NextDelay cvt p att sample"
    if "k \<le> 51" "2 ^ k \<le> base" "j \<le> 1 - pow2 (- int k)"
    using nd r(3) [of k] f(4) [of k] that d pol by auto
qed

section \<open>Properties\<close>



text \<open>Without jitter the delay is exactly the exponential backoff: the base delay doubled for
  every further attempt, until a doubling starts from at least half the cap, and the cap
  from then on. No doubling wraps around and no rounding is lost, for a cap below
  \<open>2 ^ 53\<close> nanoseconds (104 days).
\<close>

theorem NextDelay_without_jitter:
  assumes "NewRetryPolicy base mx (Fin 0) = Inr p" and "mx < 2 ^ 53" and "sample \<noteq> NaN"
  shows "NextDelay cvt p (int n + 1) sample =
    (if n = 0 then base else if base * 2 ^ (n - 1) < mx div 2 then base * 2 ^ n else mx)"
proof -
  note pol = NewRetryPolicy_Fin [OF assms(1)]
  obtain x where x: "clamp_sample sample = Fin x" "0 \<le> x" "x \<le> 1"
    using assms(3) by (rule clamp_sample_range)
  obtain t where "fsub (fmul (Fin x) (Fin 2)) (Fin 1) = Fin t"
    using x(2,3) by (rule signed_sample_range)
  moreover have "f64 0 = Fin 0" "f64 1 = Fin 1"
    using f64_small [of 0 0 0] f64_small [of 1 1 1] by auto
  ultimately have f: "jitter_factor (clamp_sample sample) (Fin 0) = Fin 1"
    by (simp add: x(1) jitter_factor_def)
  let ?d = "backoff mx base n"
  have d: "0 < ?d" "?d \<le> mx" using backoff_bounds [of base mx n] pol assms(2) by auto
  then have "\<bar>rat_of_int ?d\<bar> < 2 ^ 53" using assms(2)
    by (simp flip: of_int_abs add: of_int_less_numeral_power_cancel_iff)
  then have "f64 (of_int ?d) = Fin (of_int ?d)"
    using f64_small [of ?d "of_int ?d" ?d] d assms(2) by simp
  then have "int64_of_f64 cvt (fmul (f64_of_int ?d) (Fin 1)) = ?d"
    using d assms(2) by (simp add: f64_of_int_def trunc_rat_def)
  then have "NextDelay cvt p (int n + 1) sample = ?d"
    using NextDelay_unfold [of p cvt "int n + 1" sample] pol assms(2) f d by simp
  then show ?thesis using backoff_closed_form [of base mx n] pol assms(2) by simp
qed

theorem NextDelay_without_jitter_witness:
  "NextDelay (\<lambda>_. 0) \<lparr>rp_base = second, rp_max = 300 * second, rp_jitter = Fin 0\<rparr> (int 3 + 1) (Fin (1 / 2))
    = 8 * second"
  using NextDelay_without_jitter [where base = second and mx = "300 * second" and n = 3
      and sample = "Fin (1 / 2)" and cvt = "\<lambda>_. 0"]
  by (simp add: NewRetryPolicy_def)

text \<open>The validation of the jitter does not exclude \<^verbatim>\<open>NaN\<close>: \<^verbatim>\<open>NewRetryPolicy\<close> accepts it with any
  valid pair of delays, and every delay computed from that policy is then the value that the
  platform gives to the conversion of \<^verbatim>\<open>NaN\<close> (capped), for every attempt and sample.
\<close>

theorem NewRetryPolicy_accepts_NaN:
  assumes "0 < base" and "base \<le> mx" and "mx \<le> max_int64"
  shows "\<exists>p. NewRetryPolicy base mx NaN = Inr p \<and>
    (\<forall>cvt att sample. NextDelay cvt p att sample = min mx (cvt NaN))"
proof -
  let ?p = "\<lparr>rp_base = base, rp_max = mx, rp_jitter = NaN\<rparr>"
  have n: "fmul x NaN = NaN" "fadd (Fin 1) NaN = NaN" for x by (cases x; simp)+
  have "NextDelay cvt ?p att sample = min mx (cvt NaN)" for cvt att sample
    using NextDelay_unfold [of ?p cvt att sample] assms by (simp add: jitter_factor_def n)
  moreover have "NewRetryPolicy base mx NaN = Inr ?p"
    using assms by (simp add: NewRetryPolicy_def)
  ultimately show ?thesis by blast
qed

theorem NewRetryPolicy_accepts_NaN_witness:
  "\<exists>p. NewRetryPolicy second (300 * second) NaN = Inr p \<and>
    (\<forall>cvt att sample. NextDelay cvt p att sample = min (300 * second) (cvt NaN))"
  by (rule NewRetryPolicy_accepts_NaN) simp_all

text \<open>A jitter of exactly 1, which \<^verbatim>\<open>NewRetryPolicy\<close> accepts, allows a delay of zero: with the sample
  0 the factor is 0, so the next attempt is not after the completion of the last one.\<close>

theorem full_jitter_allows_zero_delay:
  assumes "0 < base" and "base \<le> mx" and "mx < 2 ^ 53"
  shows "\<exists>p. NewRetryPolicy base mx (Fin 1) = Inr p \<and> NextDelay cvt p att (Fin 0) = 0"
proof -
  let ?p = "\<lparr>rp_base = base, rp_max = mx, rp_jitter = Fin 1\<rparr>"
  let ?d = "backoff mx base (nat (max 1 att - 1))"
  have small: "f64 0 = Fin 0" "f64 1 = Fin 1" "f64 (- 1) = Fin (- 1)"
    using f64_small [of 0 0 0] f64_small [of 1 1 1] f64_small [of "- 1" "- 1" "- 1"] by auto
  have f: "jitter_factor (clamp_sample (Fin 0)) (Fin 1) = Fin 0"
    by (simp add: jitter_factor_def clamp_sample_def fsub_def small)
  have d: "0 < ?d" "?d \<le> mx" using backoff_bounds [of base mx "nat (max 1 att - 1)"] assms by auto
  then have "\<bar>rat_of_int ?d\<bar> < 2 ^ 53" using assms(3)
    by (simp flip: of_int_abs add: of_int_less_numeral_power_cancel_iff)
  then have "f64 (of_int ?d) = Fin (of_int ?d)"
    using f64_small [of ?d "of_int ?d" ?d] d assms(3) by simp
  then have "int64_of_f64 cvt (fmul (f64_of_int ?d) (Fin 0)) = 0"
    by (simp add: f64_of_int_def trunc_rat_def small)
  then have "NextDelay cvt ?p att (Fin 0) = 0"
    using NextDelay_unfold [of ?p cvt att "Fin 0"] assms f by simp
  moreover have "NewRetryPolicy base mx (Fin 1) = Inr ?p" using assms by (simp add: NewRetryPolicy_def)
  ultimately show ?thesis by blast
qed

theorem full_jitter_allows_zero_delay_witness:
  "\<exists>p. NewRetryPolicy second (300 * second) (Fin 1) = Inr p \<and> NextDelay (\<lambda>_. 0) p 1 (Fin 0) = 0"
  by (rule full_jitter_allows_zero_delay) simp_all

end
