(* ===== verification/Go_Strings.thy ===== *)
theory Go_Strings
  imports Prelude "HOL-Library.Sublist"
begin

text \<open>
  The part of Go's \<^verbatim>\<open>strings\<close> and \<^verbatim>\<open>unicode/utf8\<close> packages that the repository uses, on byte
  lists: decoding of one UTF-8 sequence with Go's rule that an invalid byte is one
  \<^verbatim>\<open>RuneError\<close> of width 1, \<^verbatim>\<open>utf8.ValidString\<close>, \<^verbatim>\<open>utf8.RuneCountInString\<close>,
  \<^verbatim>\<open>strings.ToValidUTF8\<close>, \<^verbatim>\<open>strings.TrimSpace\<close> and \<^verbatim>\<open>strings.TrimPrefix\<close>. The lemmas show that
  \<^verbatim>\<open>ToValidUTF8\<close> delivers valid UTF-8 and what trimming can remove.
\<close>

section \<open>Decoding\<close>

definition code :: "char \<Rightarrow> nat" where
  "code c = of_char c"

definition rune_error :: nat where
  "rune_error = 65533"

definition cont_byte :: "char \<Rightarrow> bool" where
  "cont_byte c \<longleftrightarrow> 128 \<le> code c \<and> code c \<le> 191"

text \<open>
  A leading byte from 128 on: the length of the sequence and the range of the second byte;
  \<^term>\<open>None\<close> for a byte that starts no sequence.
\<close>

definition lead :: "nat \<Rightarrow> (nat \<times> nat \<times> nat) option" where
  "lead x =
     (if 194 \<le> x \<and> x \<le> 223 then Some (2, 128, 191)
      else if x = 224 then Some (3, 160, 191)
      else if x = 237 then Some (3, 128, 159)
      else if 225 \<le> x \<and> x \<le> 239 then Some (3, 128, 191)
      else if x = 240 then Some (4, 144, 191)
      else if 241 \<le> x \<and> x \<le> 243 then Some (4, 128, 191)
      else if x = 244 then Some (4, 128, 143)
      else None)"

text \<open>\<^verbatim>\<open>utf8.DecodeRune\<close>: the rune and its width.\<close>

fun decode_rune :: "string \<Rightarrow> nat \<times> nat" where
  "decode_rune [] = (rune_error, 0)"
| "decode_rune (c # cs) =
     (if code c < 128 then (code c, 1)
      else case lead (code c) of
        None \<Rightarrow> (rune_error, 1)
      | Some (n, lo, hi) \<Rightarrow>
          (case take (n - 1) cs of
             [] \<Rightarrow> (rune_error, 1)
           | d # ds \<Rightarrow>
               if Suc (length ds) < n - 1 \<or> code d < lo \<or> hi < code d \<or> \<not> list_all cont_byte ds
               then (rune_error, 1)
               else (foldl (\<lambda>a b. a * 64 + code b mod 64) (code c mod 2 ^ (7 - n)) (d # ds), n)))"

definition bad_rune :: "nat \<times> nat \<Rightarrow> bool" where
  "bad_rune rn \<longleftrightarrow> rn = (rune_error, 1)"

fun runes :: "string \<Rightarrow> (nat \<times> nat) list" where
  "runes [] = []"
| "runes (c # cs) = decode_rune (c # cs) # runes (drop (snd (decode_rune (c # cs)) - 1) cs)"

definition utf8_valid :: "string \<Rightarrow> bool" where
  "utf8_valid s \<longleftrightarrow> list_all (\<lambda>rn. \<not> bad_rune rn) (runes s)"

definition rune_count :: "string \<Rightarrow> nat" where
  "rune_count s = length (runes s)"

text \<open>\<^verbatim>\<open>strings.ToValidUTF8\<close>: every run of invalid bytes becomes one replacement.\<close>

fun to_valid_from :: "bool \<Rightarrow> string \<Rightarrow> string \<Rightarrow> string" where
  "to_valid_from invalid rep [] = []"
| "to_valid_from invalid rep (c # cs) =
     (if bad_rune (decode_rune (c # cs))
      then (if invalid then [] else rep) @ to_valid_from True rep cs
      else take (snd (decode_rune (c # cs))) (c # cs) @
        to_valid_from False rep (drop (snd (decode_rune (c # cs)) - 1) cs))"

definition to_valid_utf8 :: "string \<Rightarrow> string \<Rightarrow> string" where
  "to_valid_utf8 s rep = to_valid_from False rep s"

section \<open>Trimming\<close>

text \<open>The UTF-8 encodings of the runes for which \<^verbatim>\<open>unicode.IsSpace\<close> holds.\<close>

definition space_encodings :: "string list" where
  "space_encodings =
     map (map char_of)
      ([[9], [10], [11], [12], [13], [32], [194, 133], [194, 160], [225, 154, 128]] @
       map (\<lambda>b. [226, 128, b]) [128, 129, 130, 131, 132, 133, 134, 135, 136, 137, 138, 168, 169, 175] @
       [[226, 129, 159], [227, 128, 128 :: nat]])"

function strip :: "string list \<Rightarrow> string \<Rightarrow> string" where
  "strip ps s = (case find (\<lambda>p. p \<noteq> [] \<and> prefix p s) ps of
      None \<Rightarrow> s | Some p \<Rightarrow> strip ps (drop (length p) s))"
  by pat_completeness auto
termination
  by (relation "measure (\<lambda>(ps, s). length s)")
    (auto simp: find_Some_iff prefix_def)

declare strip.simps [simp del]

definition trim_left :: "string \<Rightarrow> string" where
  "trim_left s = strip space_encodings s"

definition trim_right :: "string \<Rightarrow> string" where
  "trim_right s = rev (strip (map rev space_encodings) (rev s))"

definition trim_space :: "string \<Rightarrow> string" where
  "trim_space s = trim_right (trim_left s)"

definition trim_prefix :: "string \<Rightarrow> string \<Rightarrow> string" where
  "trim_prefix s p = (if prefix p s then drop (length p) s else s)"

section \<open>Lemmas on UTF-8\<close>

lemma lead_size: "lead x = Some (n, lo, hi) \<Longrightarrow> n = 2 \<or> n = 3 \<or> n = 4"
  by (auto simp: lead_def split: if_splits)

lemma decode_rune_size_pos: "0 < snd (decode_rune (c # cs))"
  by (auto split: option.splits list.splits dest: lead_size)

text \<open>A sequence that decodes well decodes the same in front of any other bytes.\<close>

lemma decode_rune_take:
  assumes "\<not> bad_rune (decode_rune (c # cs))"
  defines "n \<equiv> snd (decode_rune (c # cs))"
  shows "n \<le> Suc (length cs)" and "decode_rune (take n (c # cs) @ t) = decode_rune (c # cs)"
proof -
  have "n \<le> Suc (length cs) \<and> decode_rune (take n (c # cs) @ t) = decode_rune (c # cs)"
  proof (cases "code c < 128")
    case True
    then show ?thesis by (simp add: n_def)
  next
    case False
    with assms(1) obtain m lo hi where l: "lead (code c) = Some (m, lo, hi)"
      by (auto simp: bad_rune_def split: option.splits)
    with False assms(1) obtain d ds where t: "take (m - 1) cs = d # ds"
      by (auto simp: bad_rune_def split: list.splits)
    with False assms(1) l have ok: "\<not> (Suc (length ds) < m - 1 \<or> code d < lo \<or> hi < code d \<or> \<not> list_all cont_byte ds)"
      by (auto simp: bad_rune_def split: if_splits)
    have n: "n = m" using False l t ok by (simp add: n_def)
    have len: "length (take (m - 1) cs) = m - 1"
      using ok t by (metis length_Cons length_take min_def not_less_iff_gr_or_eq linorder_not_less)
    from lead_size [OF l] obtain k where m: "m = Suc k" by (cases m) auto
    with len have le: "m - 1 \<le> length cs" by simp
    have tt: "take (m - 1) (take (m - 1) cs @ t) = take (m - 1) cs" using len by simp
    have "decode_rune (c # (take (m - 1) cs @ t)) = decode_rune (c # cs)"
      using False l unfolding decode_rune.simps(2) by (simp only: tt option.case prod.case if_False)
    moreover have "take n (c # cs) @ t = c # (take (m - 1) cs @ t)" using m n by simp
    ultimately show ?thesis using le m n by simp
  qed
  then show "n \<le> Suc (length cs)" and "decode_rune (take n (c # cs) @ t) = decode_rune (c # cs)"
    by simp_all
qed

declare decode_rune.simps(2) [simp del]

lemma runes_take:
  assumes "\<not> bad_rune (decode_rune (c # cs))"
  shows "runes (take (snd (decode_rune (c # cs))) (c # cs) @ t) = decode_rune (c # cs) # runes t"
proof -
  let ?n = "snd (decode_rune (c # cs))"
  note dec = decode_rune_take [OF assms]
  obtain k where k: "?n = Suc k" using decode_rune_size_pos [of c cs] by (cases ?n) auto
  have e: "take ?n (c # cs) @ t = c # (take k cs @ t)" using k by simp
  have "decode_rune (c # (take k cs @ t)) = decode_rune (c # cs)"
    using dec(2) [of t] unfolding e .
  then have "runes (c # (take k cs @ t)) =
      decode_rune (c # cs) # runes (drop k (take k cs @ t))"
    by (simp only: runes.simps(2) k diff_Suc_1)
  moreover have "k \<le> length cs" using dec(1) k by simp
  ultimately show ?thesis unfolding e by (simp del: runes.simps)
qed

lemma utf8_valid_Nil [simp]: "utf8_valid []"
  by (simp add: utf8_valid_def)

lemma utf8_valid_take:
  assumes "\<not> bad_rune (decode_rune (c # cs))"
  shows "utf8_valid (take (snd (decode_rune (c # cs))) (c # cs) @ t) \<longleftrightarrow> utf8_valid t"
  unfolding utf8_valid_def runes_take [OF assms] using assms by simp

lemma take_drop_decode:
  "take (snd (decode_rune (c # cs))) (c # cs) @ drop (snd (decode_rune (c # cs)) - Suc 0) cs = c # cs"
  using decode_rune_size_pos [of c cs] by (cases "snd (decode_rune (c # cs))") auto

lemma utf8_valid_Cons:
  "utf8_valid (c # cs) \<longleftrightarrow> \<not> bad_rune (decode_rune (c # cs)) \<and>
     utf8_valid (drop (snd (decode_rune (c # cs)) - 1) cs)"
  by (simp add: utf8_valid_def)

lemma utf8_valid_append: "utf8_valid a \<Longrightarrow> utf8_valid (a @ b) \<longleftrightarrow> utf8_valid b"
proof (induction a rule: runes.induct)
  case 1
  then show ?case by simp
next
  case (2 c cs)
  let ?n = "snd (decode_rune (c # cs))"
  from "2.prems" have ok: "\<not> bad_rune (decode_rune (c # cs))"
    and rest: "utf8_valid (drop (?n - 1) cs)" by (simp_all add: utf8_valid_Cons)
  have "(c # cs) @ b = take ?n (c # cs) @ (drop (?n - 1) cs @ b)"
    using take_drop_decode [of c cs] by (metis append_assoc One_nat_def)
  then have "utf8_valid ((c # cs) @ b) \<longleftrightarrow> utf8_valid (drop (?n - 1) cs @ b)"
    by (simp only: utf8_valid_take [OF ok])
  with "2.IH" rest show ?case by simp
qed

lemma utf8_valid_to_valid_from:
  "utf8_valid rep \<Longrightarrow> utf8_valid (to_valid_from invalid rep s)"
proof (induction invalid rep s rule: to_valid_from.induct)
  case (2 invalid rep c cs)
  show ?case
  proof (cases "bad_rune (decode_rune (c # cs))")
    case True
    with 2 show ?thesis by (simp add: utf8_valid_append)
  next
    case False
    with 2 show ?thesis by (simp add: utf8_valid_take del: take_Suc_Cons)
  qed
qed simp

lemma utf8_valid_to_valid_utf8: "utf8_valid rep \<Longrightarrow> utf8_valid (to_valid_utf8 s rep)"
  by (simp add: to_valid_utf8_def utf8_valid_to_valid_from)

lemma to_valid_from_id: "utf8_valid s \<Longrightarrow> to_valid_from invalid rep s = s"
proof (induction invalid rep s rule: to_valid_from.induct)
  case (2 invalid rep c cs)
  then have "\<not> bad_rune (decode_rune (c # cs))"
    and "utf8_valid (drop (snd (decode_rune (c # cs)) - 1) cs)" by (simp_all add: utf8_valid_Cons)
  with 2 show ?case by (simp add: take_drop_decode del: take_Suc_Cons)
qed simp

lemma to_valid_utf8_id: "utf8_valid s \<Longrightarrow> to_valid_utf8 s rep = s"
  by (simp add: to_valid_utf8_def to_valid_from_id)

lemma to_valid_from_ascii:
  "code c < 128 \<Longrightarrow> to_valid_from invalid rep (c # s) = c # to_valid_from False rep s"
  by (simp add: decode_rune.simps bad_rune_def rune_error_def)

lemma length_to_valid_from:
  "1 \<le> length rep \<Longrightarrow> length (to_valid_from invalid rep s) \<le> length rep * length s"
proof (induction invalid rep s rule: to_valid_from.induct)
  case (2 invalid rep c cs)
  let ?n = "snd (decode_rune (c # cs))"
  show ?case
  proof (cases "bad_rune (decode_rune (c # cs))")
    case True
    with 2 show ?thesis by simp
  next
    case False
    have n: "1 \<le> ?n" "?n \<le> Suc (length cs)" using decode_rune_size_pos [of c cs] decode_rune_take(1) [OF False] by auto
    have "length (to_valid_from False rep (drop (?n - 1) cs)) \<le> length rep * (length cs - (?n - 1))"
      using "2.IH"(2) [OF False "2.prems"] by simp
    moreover have "?n \<le> length rep * ?n" using "2.prems" by simp
    moreover have "?n + (length cs - (?n - 1)) = Suc (length cs)" using n by simp
    then have "length rep * ?n + length rep * (length cs - (?n - 1)) = length rep * Suc (length cs)"
      by (metis add_mult_distrib2)
    ultimately have "?n + length (to_valid_from False rep (drop (?n - 1) cs)) \<le> length rep * Suc (length cs)"
      by linarith
    with False n show ?thesis by (simp del: take_Suc_Cons)
  qed
qed simp

text \<open>ASCII text is valid.\<close>

lemma utf8_valid_ascii: "list_all (\<lambda>c. code c < 128) s \<Longrightarrow> utf8_valid s"
  by (induction s) (auto simp: utf8_valid_def bad_rune_def rune_error_def decode_rune.simps)

section \<open>Lemmas on trimming\<close>

lemma strip_keeps:
  assumes "c \<in> set s" and "\<forall>p \<in> set ps. c \<notin> set p"
  shows "c \<in> set (strip ps s)"
  using assms
proof (induction ps s rule: strip.induct)
  case (1 ps s)
  show ?case
  proof (cases "find (\<lambda>p. p \<noteq> [] \<and> prefix p s) ps")
    case None
    with 1 show ?thesis by (simp add: strip.simps [of ps s])
  next
    case (Some p)
    then have p: "p \<in> set ps" "prefix p s" by (auto simp: find_Some_iff)
    then have "s = p @ drop (length p) s" by (auto simp: prefix_def)
    with 1(2,3) p have "c \<in> set (drop (length p) s)" by (metis Un_iff set_append)
    with 1(1) [OF Some] 1(3) Some show ?thesis by (simp add: strip.simps [of ps s])
  qed
qed

lemma strip_Nil: "strip ps [] = []"
proof -
  have "find (\<lambda>p. p \<noteq> [] \<and> prefix p []) ps = None" by (auto simp: find_None_iff)
  then show ?thesis by (subst strip.simps) simp
qed

text \<open>A byte that is part of no space encoding survives trimming.\<close>

lemma trim_space_keeps:
  assumes "c \<in> set s" and "\<forall>p \<in> set space_encodings. c \<notin> set p"
  shows "c \<in> set (trim_space s)"
  unfolding trim_space_def trim_right_def trim_left_def
  using assms by (auto intro!: strip_keeps)

lemma trim_space_Nil [simp]: "trim_space [] = []"
  by (simp add: trim_space_def trim_right_def trim_left_def strip_Nil)

text \<open>A text that starts and ends with a graphic ASCII character has nothing to trim.\<close>

definition graphic :: "char \<Rightarrow> bool" where
  "graphic c \<longleftrightarrow> 33 \<le> code c \<and> code c \<le> 126"

lemma strip_none:
  assumes "\<And>p. p \<in> set ps \<Longrightarrow> p \<noteq> [] \<and> hd p \<noteq> c"
  shows "strip ps (c # cs) = c # cs"
proof -
  have "find (\<lambda>p. p \<noteq> [] \<and> prefix p (c # cs)) ps = None"
    unfolding find_None_iff using assms by (metis list.sel(1) prefix_Cons)
  then show ?thesis by (simp add: strip.simps)
qed

lemma space_encodings_ends:
  "p \<in> set space_encodings \<Longrightarrow> p \<noteq> [] \<and> \<not> graphic (hd p) \<and> \<not> graphic (last p)"
  by (auto simp: space_encodings_def graphic_def code_def)

lemma trim_space_graphic:
  assumes "s \<noteq> []" and "graphic (hd s)" and "graphic (last s)"
  shows "trim_space s = s"
proof -
  obtain c cs where s: "s = c # cs" using assms(1) by (cases s) auto
  have "trim_left s = s"
    unfolding trim_left_def s by (rule strip_none) (use assms s in \<open>auto dest: space_encodings_ends\<close>)
  moreover obtain d ds where r: "rev s = d # ds" using assms(1) by (cases "rev s") auto
  have "d = last s" using r by (metis hd_rev list.sel(1))
  then have "strip (map rev space_encodings) (rev s) = rev s"
    unfolding r by (intro strip_none) (use assms in \<open>auto simp: hd_rev dest: space_encodings_ends\<close>)
  ultimately show ?thesis by (simp add: trim_space_def trim_right_def)
qed

section \<open>Numbers and bytes as text\<close>

definition digit :: "nat \<Rightarrow> char" where
  "digit n = char_of (48 + n)"

fun nat_text :: "nat \<Rightarrow> string" where
  "nat_text n = (if n < 10 then [digit n] else nat_text (n div 10) @ [digit (n mod 10)])"

declare nat_text.simps [simp del]

text \<open>\<^verbatim>\<open>strconv.FormatInt(i, 10)\<close>.\<close>

definition int_text :: "int \<Rightarrow> string" where
  "int_text i = (if i < 0 then CHR ''-'' # nat_text (nat (- i)) else nat_text (nat i))"

text \<open>\<^verbatim>\<open>hex.EncodeToString\<close>.\<close>

definition hex_digit :: "nat \<Rightarrow> char" where
  "hex_digit n = (if n < 10 then char_of (48 + n) else char_of (87 + n))"

definition hex :: "bytes \<Rightarrow> string" where
  "hex bs = concat (map (\<lambda>b. [hex_digit (code b div 16), hex_digit (code b mod 16)]) bs)"

lemma code_less [simp]: "code c < 256"
  by (cases c) (simp add: code_def)

lemma code_digit: "n < 10 \<Longrightarrow> code (digit n) = 48 + n"
  by (simp add: code_def digit_def)

lemma nat_text_digits: "c \<in> set (nat_text n) \<Longrightarrow> 48 \<le> code c \<and> code c \<le> 57"
proof (induction n rule: nat_text.induct)
  case (1 n)
  then show ?case
    by (cases "n < 10") (auto simp: nat_text.simps [of n] code_digit)
qed

text \<open>Reading the digits back.\<close>

definition digits_value :: "string \<Rightarrow> nat" where
  "digits_value s = foldl (\<lambda>a c. a * 10 + (code c - 48)) 0 s"

lemma digits_value_nat_text: "digits_value (nat_text n) = n"
proof (induction n rule: nat_text.induct)
  case (1 n)
  then show ?case
    by (cases "n < 10") (auto simp: nat_text.simps [of n] digits_value_def code_digit)
qed

lemma nat_text_inject: "nat_text m = nat_text n \<longleftrightarrow> m = n"
  by (metis digits_value_nat_text)

lemma nat_text_Cons_digit: "nat_text n = c # s \<Longrightarrow> 48 \<le> code c"
  using nat_text_digits [of c n] by simp

lemma int_text_inject: "int_text i = int_text j \<longleftrightarrow> i = j"
proof -
  have "CHR ''-'' # s \<noteq> nat_text n" for s n
    using nat_text_Cons_digit [of n "CHR ''-''" s] by (auto simp: code_def)
  then show ?thesis by (auto simp: int_text_def nat_text_inject) (metis)+
qed

lemma int_text_no_dot: "CHR ''.'' \<notin> set (int_text i)"
  using nat_text_digits [of "CHR ''.''"] by (auto simp: int_text_def code_def)

lemma code_inject: "code a = code b \<longleftrightarrow> a = b"
  by (simp add: code_def)

lemma hex_digit_inject:
  assumes "m < 16" and "n < 16"
  shows "hex_digit m = hex_digit n \<longleftrightarrow> m = n"
proof -
  have c: "code (hex_digit k) = (if k < 10 then 48 + k else 87 + k)" if "k < 16" for k
    using that by (simp add: code_def hex_digit_def)
  have "m = n" if "hex_digit m = hex_digit n"
  proof -
    have "(if m < 10 then 48 + m else 87 + m) = (if n < 10 then 48 + n else 87 + n)"
      using c [OF assms(1)] c [OF assms(2)] that by metis
    then show ?thesis by (simp split: if_splits)
  qed
  then show ?thesis by blast
qed

lemma hex_byte_inject:
  "hex_digit (code a div 16) = hex_digit (code b div 16) \<and>
   hex_digit (code a mod 16) = hex_digit (code b mod 16) \<longleftrightarrow> a = b"
proof -
  have "code c div 16 < 16" for c using code_less [of c] by (simp add: less_mult_imp_div_less)
  then have "hex_digit (code a div 16) = hex_digit (code b div 16) \<and>
      hex_digit (code a mod 16) = hex_digit (code b mod 16) \<longleftrightarrow>
      code a div 16 = code b div 16 \<and> code a mod 16 = code b mod 16"
    by (simp add: hex_digit_inject)
  also have "\<dots> \<longleftrightarrow> a = b" using code_inject div_mult_mod_eq by metis
  finally show ?thesis .
qed

lemma hex_inject: "hex a = hex b \<longleftrightarrow> a = b"
proof (induction a arbitrary: b)
  case Nil
  then show ?case by (cases b) (auto simp: hex_def)
next
  case (Cons x xs)
  show ?case
  proof (cases b)
    case (Cons y ys)
    then show ?thesis using Cons.IH [of ys] hex_byte_inject [of x y] by (auto simp: hex_def)
  qed (simp add: hex_def)
qed

end
