(* ===== verification/Schema.thy ===== *)
theory Schema
  imports Delivery Go_Strings
begin

text \<open>
  The database under the store: the four tables of \<^verbatim>\<open>migrations/001_init.up.sql\<close> with their
  constraints, the transactions of the driver, and the statements' building blocks. A
  statement that would break a constraint is rejected, as PostgreSQL rejects it; the lemmas
  show that every accepted statement keeps all the constraints (\<open>schema_ok\<close>).

  What belongs to PostgreSQL and to its driver is a parameter: the record \<open>pg\<close> says how a
  text is read as a \<^verbatim>\<open>uuid\<close>, which byte strings a \<^verbatim>\<open>text\<close> column accepts, how a time is rounded
  by \<^verbatim>\<open>timestamptz\<close> and how a document is normalised by \<^verbatim>\<open>jsonb\<close>; \<open>io\<close> says which calls fail.
\<close>

section \<open>Rows\<close>

record endpoint_row =
  er_id :: uuid
  er_name :: string
  er_url :: string
  er_secret_ciphertext :: bytes
  er_timeout_ms :: int
  er_max_attempts :: int
  er_consecutive_failures :: int
  er_circuit_open_until :: "time option"
  er_disabled_at :: "time option"
  er_created_at :: time
  er_updated_at :: time

record event_row =
  vr_id :: uuid
  vr_endpoint_id :: uuid
  vr_event_type :: string
  vr_payload :: bytes
  vr_idempotency_key :: string
  vr_created_at :: time

record delivery_row =
  dr_id :: uuid
  dr_event_id :: uuid
  dr_endpoint_id :: uuid
  dr_status :: status
  dr_attempt_count :: int
  dr_max_attempts :: int
  dr_next_attempt_at :: time
  dr_locked_by :: "string option"
  dr_lease_token :: "uuid option"
  dr_locked_at :: "time option"
  dr_locked_until :: "time option"
  dr_last_status_code :: "int option"
  dr_last_error :: string
  dr_last_completed_at :: "time option"
  dr_created_at :: time
  dr_updated_at :: time

record attempt_row =
  ar_id :: uuid
  ar_delivery_id :: uuid
  ar_attempt_number :: int
  ar_status_code :: "int option"
  ar_response_body :: string
  ar_error_message :: string
  ar_duration_ms :: int
  ar_started_at :: time
  ar_completed_at :: time

record db =
  endpoints :: "endpoint_row list"
  events :: "event_row list"
  deliveries :: "delivery_row list"
  attempts :: "attempt_row list"

definition empty_db :: db where
  "empty_db = \<lparr>endpoints = [], events = [], deliveries = [], attempts = []\<rparr>"

section \<open>PostgreSQL and the driver as parameters\<close>

record pg =
  pg_uuid :: "string \<Rightarrow> uuid option"
  pg_text :: "string \<Rightarrow> bool"
  pg_time :: "time \<Rightarrow> time"
  pg_jsonb :: "bytes \<Rightarrow> bytes option"

text \<open>
  A driver call, named by the context that the source wraps around its error, works or
  breaks with some error text; a \<^verbatim>\<open>COMMIT\<close> can also take effect on the server although its
  answer is lost.
\<close>

datatype call = Works | Breaks string | BreaksApplied string

type_synonym io = "string \<Rightarrow> call"

definition db_rejects :: go_error where
  "db_rejects = ErrNew ''rejected by the database''"

fun bind_ok :: "(go_error, 'a) result \<Rightarrow> ('a \<Rightarrow> (go_error, 'b) result) \<Rightarrow> (go_error, 'b) result" where
  "bind_ok (Inl e) f = Inl e"
| "bind_ok (Inr x) f = f x"

text \<open>One statement: \<^term>\<open>None\<close> is a rejected statement.\<close>

definition stmt :: "io \<Rightarrow> string \<Rightarrow> 'a option \<Rightarrow> (go_error, 'a) result" where
  "stmt io label r =
     (case io label of
        Works \<Rightarrow> (case r of None \<Rightarrow> Inl (WrapPrefix label db_rejects) | Some x \<Rightarrow> Inr x)
      | Breaks m \<Rightarrow> Inl (WrapPrefix label (ErrNew m))
      | BreaksApplied m \<Rightarrow> Inl (WrapPrefix label (ErrNew m)))"

text \<open>\<^verbatim>\<open>Scan\<close> of a row that has arrived: no driver call, but a null can be unreadable.\<close>

definition scanned :: "string \<Rightarrow> 'a option \<Rightarrow> (go_error, 'a) result" where
  "scanned label r =
     (case r of None \<Rightarrow> Inl (WrapPrefix label (ErrNew ''cannot scan NULL'')) | Some x \<Rightarrow> Inr x)"

text \<open>
  \<^verbatim>\<open>BeginTx\<close>, the body, \<^verbatim>\<open>Commit\<close>, with the deferred \<^verbatim>\<open>Rollback\<close>: an error of the body or of
  \<^verbatim>\<open>BeginTx\<close> leaves the database as it was.
\<close>

definition run_tx ::
  "io \<Rightarrow> string \<Rightarrow> ('a \<Rightarrow> string) \<Rightarrow> (db \<Rightarrow> (go_error, 'a \<times> db) result) \<Rightarrow> db
    \<Rightarrow> (go_error, 'a) result \<times> db" where
  "run_tx io beg com body db =
     (case stmt io beg (Some ()) of
        Inl e \<Rightarrow> (Inl e, db)
      | Inr _ \<Rightarrow>
         (case body db of
            Inl e \<Rightarrow> (Inl e, db)
          | Inr (a, db') \<Rightarrow>
             (case io (com a) of
                Works \<Rightarrow> (Inr a, db')
              | Breaks m \<Rightarrow> (Inl (WrapPrefix (com a) (ErrNew m)), db)
              | BreaksApplied m \<Rightarrow> (Inl (WrapPrefix (com a) (ErrNew m)), db'))))"

text \<open>A single statement outside a transaction commits by itself.\<close>

definition run_auto ::
  "io \<Rightarrow> string \<Rightarrow> ('a \<times> db) option \<Rightarrow> db \<Rightarrow> (go_error, 'a) result \<times> db" where
  "run_auto io label r db =
     (case r of
        None \<Rightarrow> (Inl (WrapPrefix label (case io label of Works \<Rightarrow> db_rejects
            | Breaks m \<Rightarrow> ErrNew m | BreaksApplied m \<Rightarrow> ErrNew m)), db)
      | Some (a, db') \<Rightarrow>
          (case io label of
             Works \<Rightarrow> (Inr a, db')
           | Breaks m \<Rightarrow> (Inl (WrapPrefix label (ErrNew m)), db)
           | BreaksApplied m \<Rightarrow> (Inl (WrapPrefix label (ErrNew m)), db')))"

section \<open>Constraints\<close>

definition check_endpoint :: "endpoint_row \<Rightarrow> bool" where
  "check_endpoint e \<longleftrightarrow>
     100 \<le> er_timeout_ms e \<and> er_timeout_ms e \<le> 30000 \<and>
     1 \<le> er_max_attempts e \<and> er_max_attempts e \<le> 100 \<and>
     0 \<le> er_consecutive_failures e \<and> er_consecutive_failures e \<le> max_int32"

definition check_delivery :: "delivery_row \<Rightarrow> bool" where
  "check_delivery d \<longleftrightarrow>
     dr_status d \<in> {StatusPending, StatusProcessing, StatusRetrying, StatusSucceeded, StatusDead} \<and>
     0 \<le> dr_attempt_count d \<and> 1 \<le> dr_max_attempts d \<and> dr_max_attempts d \<le> max_int32 \<and>
     (case dr_last_status_code d of None \<Rightarrow> True | Some c \<Rightarrow> 100 \<le> c \<and> c \<le> 599) \<and>
     (dr_locked_by d = None) = (dr_lease_token d = None) \<and>
     (dr_locked_by d = None) = (dr_locked_at d = None) \<and>
     (dr_locked_by d = None) = (dr_locked_until d = None) \<and>
     (dr_status d = StatusProcessing) = (dr_locked_by d \<noteq> None) \<and>
     (case (dr_locked_until d, dr_locked_at d) of
        (Some u, Some a) \<Rightarrow> a < u | (Some _, None) \<Rightarrow> False | (None, _) \<Rightarrow> True) \<and>
     dr_attempt_count d \<le> dr_max_attempts d"

definition check_attempt :: "attempt_row \<Rightarrow> bool" where
  "check_attempt a \<longleftrightarrow>
     0 < ar_attempt_number a \<and> ar_attempt_number a \<le> max_int32 \<and>
     (case ar_status_code a of None \<Rightarrow> True | Some c \<Rightarrow> 100 \<le> c \<and> c \<le> 599) \<and>
     0 \<le> ar_duration_ms a \<and> ar_duration_ms a \<le> max_int32 \<and>
     ar_started_at a \<le> ar_completed_at a \<and>
     (ar_status_code a \<noteq> None \<or> ar_error_message a \<noteq> [])"

definition event_key :: "event_row \<Rightarrow> uuid \<times> string" where
  "event_key v = (vr_endpoint_id v, vr_idempotency_key v)"

definition attempt_key :: "attempt_row \<Rightarrow> uuid \<times> int" where
  "attempt_key a = (ar_delivery_id a, ar_attempt_number a)"

text \<open>All the constraints of the schema at once: checks, keys and references.\<close>

definition schema_ok :: "db \<Rightarrow> bool" where
  "schema_ok db \<longleftrightarrow>
     distinct (map er_id (endpoints db)) \<and>
     distinct (map vr_id (events db)) \<and> distinct (map event_key (events db)) \<and>
     distinct (map dr_id (deliveries db)) \<and> distinct (map dr_event_id (deliveries db)) \<and>
     distinct (map ar_id (attempts db)) \<and> distinct (map attempt_key (attempts db)) \<and>
     list_all check_endpoint (endpoints db) \<and>
     list_all check_delivery (deliveries db) \<and>
     list_all check_attempt (attempts db) \<and>
     list_all (\<lambda>v. vr_endpoint_id v \<in> er_id ` set (endpoints db)) (events db) \<and>
     list_all (\<lambda>d. dr_event_id d \<in> vr_id ` set (events db) \<and>
        dr_endpoint_id d \<in> er_id ` set (endpoints db)) (deliveries db) \<and>
     list_all (\<lambda>a. ar_delivery_id a \<in> dr_id ` set (deliveries db)) (attempts db)"

section \<open>Statements\<close>

definition insert_endpoint :: "endpoint_row \<Rightarrow> db \<Rightarrow> db option" where
  "insert_endpoint e db =
     (if check_endpoint e \<and> er_id e \<notin> er_id ` set (endpoints db)
      then Some (db\<lparr>endpoints := endpoints db @ [e]\<rparr>) else None)"

definition insert_event :: "event_row \<Rightarrow> db \<Rightarrow> db option" where
  "insert_event v db =
     (if vr_id v \<notin> vr_id ` set (events db) \<and> event_key v \<notin> event_key ` set (events db) \<and>
         vr_endpoint_id v \<in> er_id ` set (endpoints db)
      then Some (db\<lparr>events := events db @ [v]\<rparr>) else None)"

definition insert_delivery :: "delivery_row \<Rightarrow> db \<Rightarrow> db option" where
  "insert_delivery d db =
     (if check_delivery d \<and> dr_id d \<notin> dr_id ` set (deliveries db) \<and>
         dr_event_id d \<notin> dr_event_id ` set (deliveries db) \<and>
         dr_event_id d \<in> vr_id ` set (events db) \<and>
         dr_endpoint_id d \<in> er_id ` set (endpoints db)
      then Some (db\<lparr>deliveries := deliveries db @ [d]\<rparr>) else None)"

definition insert_attempt :: "attempt_row \<Rightarrow> db \<Rightarrow> db option" where
  "insert_attempt a db =
     (if check_attempt a \<and> ar_id a \<notin> ar_id ` set (attempts db) \<and>
         attempt_key a \<notin> attempt_key ` set (attempts db) \<and>
         ar_delivery_id a \<in> dr_id ` set (deliveries db)
      then Some (db\<lparr>attempts := attempts db @ [a]\<rparr>) else None)"

text \<open>\<^verbatim>\<open>UPDATE ... WHERE id = k\<close> with the constraints checked on the new row.\<close>

definition update_endpoint :: "uuid \<Rightarrow> (endpoint_row \<Rightarrow> endpoint_row) \<Rightarrow> db \<Rightarrow> db option" where
  "update_endpoint k f db =
     (case tfind er_id k (endpoints db) of
        None \<Rightarrow> Some db
      | Some e \<Rightarrow> if check_endpoint (f e)
          then Some (db\<lparr>endpoints := tupdate er_id k f (endpoints db)\<rparr>) else None)"

definition update_delivery :: "uuid \<Rightarrow> (delivery_row \<Rightarrow> delivery_row) \<Rightarrow> db \<Rightarrow> db option" where
  "update_delivery k f db =
     (case tfind dr_id k (deliveries db) of
        None \<Rightarrow> Some db
      | Some d \<Rightarrow> if check_delivery (f d)
          then Some (db\<lparr>deliveries := tupdate dr_id k f (deliveries db)\<rparr>) else None)"

text \<open>An update that leaves the key columns alone.\<close>

definition keeps_keys :: "(delivery_row \<Rightarrow> delivery_row) \<Rightarrow> bool" where
  "keeps_keys f \<longleftrightarrow> (\<forall>d. dr_id (f d) = dr_id d \<and> dr_event_id (f d) = dr_event_id d \<and>
     dr_endpoint_id (f d) = dr_endpoint_id d)"

definition keeps_endpoint_id :: "(endpoint_row \<Rightarrow> endpoint_row) \<Rightarrow> bool" where
  "keeps_endpoint_id f \<longleftrightarrow> (\<forall>e. er_id (f e) = er_id e)"

section \<open>Statements and transactions: lemmas\<close>

lemma bind_ok_Inr_iff: "bind_ok r f = Inr y \<longleftrightarrow> (\<exists>x. r = Inr x \<and> f x = Inr y)"
  by (cases r) auto

lemma bind_okE:
  assumes "bind_ok r f = Inr y"
  obtains x where "r = Inr x" and "f x = Inr y"
  using assms by (auto simp: bind_ok_Inr_iff)

lemma stmt_Inr_iff: "stmt io label r = Inr x \<longleftrightarrow> io label = Works \<and> r = Some x"
  by (auto simp: stmt_def split: call.splits option.splits)

lemma scanned_Inr_iff: "scanned label r = Inr x \<longleftrightarrow> r = Some x"
  by (auto simp: scanned_def split: option.splits)

text \<open>A transaction leaves the old database or the one its body computed.\<close>

lemma run_tx_cases:
  assumes "run_tx io beg com body db = (r, db')"
  obtains (old) "db' = db"
  | (new) a where "body db = Inr (a, db')"
  using assms by (auto simp: run_tx_def split: sum.splits call.splits)

lemma run_tx_InrE:
  assumes "run_tx io beg com body db = (Inr a, db')"
  shows "body db = Inr (a, db')" and "io beg = Works" and "io (com a) = Works"
  using assms by (auto simp: run_tx_def stmt_Inr_iff split: sum.splits call.splits)

lemma run_tx_ok:
  assumes "io beg = Works" and "body db = Inr (a, db')" and "io (com a) = Works"
  shows "run_tx io beg com body db = (Inr a, db')"
  using assms by (simp add: run_tx_def stmt_def)

lemma run_tx_body_error:
  assumes "io beg = Works" and "body db = Inl e"
  shows "run_tx io beg com body db = (Inl e, db)"
  using assms by (simp add: run_tx_def stmt_def)

lemma run_auto_cases:
  assumes "run_auto io label q db = (r, db')"
  obtains (old) "db' = db"
  | (new) a where "q = Some (a, db')"
  using assms by (auto simp: run_auto_def split: option.splits call.splits)

section \<open>Constraints are kept\<close>

lemma schema_ok_empty: "schema_ok empty_db"
  by (simp add: schema_ok_def empty_db_def)

lemma schema_ok_insert_endpoint:
  "schema_ok db \<Longrightarrow> insert_endpoint e db = Some db' \<Longrightarrow> schema_ok db'"
  by (auto simp: schema_ok_def insert_endpoint_def list_all_iff split: if_splits)

lemma schema_ok_insert_event:
  "schema_ok db \<Longrightarrow> insert_event v db = Some db' \<Longrightarrow> schema_ok db'"
  by (auto simp: schema_ok_def insert_event_def list_all_iff split: if_splits)

lemma schema_ok_insert_delivery:
  "schema_ok db \<Longrightarrow> insert_delivery d db = Some db' \<Longrightarrow> schema_ok db'"
  by (auto simp: schema_ok_def insert_delivery_def list_all_iff split: if_splits)

lemma schema_ok_insert_attempt:
  "schema_ok db \<Longrightarrow> insert_attempt a db = Some db' \<Longrightarrow> schema_ok db'"
  by (auto simp: schema_ok_def insert_attempt_def list_all_iff split: if_splits)

lemma tupdate_image_key:
  assumes "\<And>r. g (f r) = g r"
  shows "g ` set (tupdate key k f rows) = g ` set rows"
  using map_tupdate_frame [where g = g and f = f, OF assms] by (metis list.set_map)

lemma list_all_tupdate:
  assumes "list_all P rows" and "\<And>r. r \<in> set rows \<Longrightarrow> key r = k \<Longrightarrow> P (f r)"
  shows "list_all P (tupdate key k f rows)"
  using assms by (auto simp: list_all_iff elim!: in_tupdateE)

lemma schema_ok_update_endpoint:
  assumes ok: "schema_ok db" and f: "keeps_endpoint_id f" and u: "update_endpoint k f db = Some db'"
  shows "schema_ok db'"
proof (cases "tfind er_id k (endpoints db)")
  case None
  with u ok show ?thesis by (simp add: update_endpoint_def)
next
  case (Some e)
  let ?es = "tupdate er_id k f (endpoints db)"
  have id: "\<And>r. er_id (f r) = er_id r" using f by (simp add: keeps_endpoint_id_def)
  from Some u have db': "db' = db\<lparr>endpoints := ?es\<rparr>" and chk: "check_endpoint (f e)"
    by (auto simp: update_endpoint_def split: if_splits)
  have uniq: "r = e" if "r \<in> set (endpoints db)" "er_id r = k" for r
    using Some that ok by (auto simp: schema_ok_def dest: tfind_unique)
  have "list_all check_endpoint ?es"
    using ok chk uniq by (intro list_all_tupdate) (auto simp: schema_ok_def)
  then show ?thesis
    using ok by (simp add: db' schema_ok_def map_tupdate_frame [where g = er_id and f = f, OF id]
        tupdate_image_key [where g = er_id and f = f, OF id])
qed

lemma schema_ok_update_delivery:
  assumes ok: "schema_ok db" and f: "keeps_keys f" and u: "update_delivery k f db = Some db'"
  shows "schema_ok db'"
proof (cases "tfind dr_id k (deliveries db)")
  case None
  with u ok show ?thesis by (simp add: update_delivery_def)
next
  case (Some d)
  let ?ds = "tupdate dr_id k f (deliveries db)"
  have id: "\<And>r. dr_id (f r) = dr_id r" and ev: "\<And>r. dr_event_id (f r) = dr_event_id r"
    and ep: "\<And>r. dr_endpoint_id (f r) = dr_endpoint_id r" using f by (simp_all add: keeps_keys_def)
  from Some u have db': "db' = db\<lparr>deliveries := ?ds\<rparr>" and chk: "check_delivery (f d)"
    by (auto simp: update_delivery_def split: if_splits)
  have uniq: "r = d" if "r \<in> set (deliveries db)" "dr_id r = k" for r
    using Some that ok by (auto simp: schema_ok_def dest: tfind_unique)
  have "list_all check_delivery ?ds"
    using ok chk uniq by (intro list_all_tupdate) (auto simp: schema_ok_def)
  moreover have "list_all (\<lambda>d. dr_event_id d \<in> vr_id ` set (events db) \<and>
      dr_endpoint_id d \<in> er_id ` set (endpoints db)) ?ds"
    using ok by (intro list_all_tupdate) (auto simp: schema_ok_def list_all_iff ev ep)
  ultimately show ?thesis
    using ok by (simp add: db' schema_ok_def map_tupdate_frame [where g = dr_id and f = f, OF id]
        map_tupdate_frame [where g = dr_event_id and f = f, OF ev]
        tupdate_image_key [where g = dr_id and f = f, OF id])
qed

end
