(* ===== verification/Queue.thy ===== *)
theory Queue
  imports Schema
begin

text \<open>
  The durable delivery queue, \<^verbatim>\<open>internal/store/queue.go\<close>: claiming a delivery under a lease
  (\<open>ClaimDelivery\<close>, with the recovery of expired leases), finishing an attempt
  (\<open>FinishAttempt\<close>, with its validation, the attempt log and the endpoint's circuit), and the
  row scans. Every operation takes the transaction's \<^verbatim>\<open>now()\<close>, the supply of
  \<^verbatim>\<open>uuid.NewString()\<close> values and, for the statements with \<^verbatim>\<open>SKIP LOCKED\<close>, the set of rows
  that other open transactions hold locked.
\<close>

section \<open>Data\<close>

record job =
  jb_Delivery :: delivery
  jb_Event :: event
  jb_Endpoint :: endpoint

datatype CircuitOutcome = CircuitNone | CircuitFailure | CircuitSuccess | CircuitOther string

record AttemptResult =
  rs_DeliveryID :: string
  rs_WorkerID :: string
  rs_LeaseToken :: string
  rs_AttemptNumber :: int
  rs_Decision :: decision
  rs_StatusCode :: "int option"
  rs_ResponseBody :: string
  rs_ErrorMessage :: string
  rs_Duration :: duration
  rs_StartedAt :: time
  rs_CompletedAt :: time
  rs_NextAttemptAt :: time
  rs_CircuitOutcome :: CircuitOutcome
  rs_CircuitThreshold :: int
  rs_CircuitCooldown :: duration

record recoveredLease =
  rl_deliveryID :: string
  rl_attempt :: int
  rl_startedAt :: time
  rl_completedAt :: time

type_synonym locked = "uuid \<Rightarrow> bool"
type_synonym new_uuids = "nat \<Rightarrow> string"

section \<open>Scanning rows\<close>

definition scan_event :: "event_row \<Rightarrow> event" where
  "scan_event v =
     \<lparr>ev_ID = vr_id v, ev_EndpointID = vr_endpoint_id v, ev_Type = vr_event_type v,
      ev_Payload = vr_payload v, ev_IdempotencyKey = vr_idempotency_key v,
      ev_CreatedAt = vr_created_at v\<rparr>"

definition scanEndpoint :: "endpoint_row \<Rightarrow> endpoint" where
  "scanEndpoint e =
     \<lparr>ep_ID = er_id e, ep_Name = er_name e, ep_URL = er_url e,
      ep_SecretCiphertext = er_secret_ciphertext e,
      ep_Timeout = wrap64 (er_timeout_ms e * millisecond),
      ep_MaxAttempts = er_max_attempts e, ep_ConsecutiveFailures = er_consecutive_failures e,
      ep_DisabledAt = er_disabled_at e, ep_CircuitOpenUntil = er_circuit_open_until e,
      ep_CreatedAt = er_created_at e, ep_UpdatedAt = er_updated_at e\<rparr>"

text \<open>\<^verbatim>\<open>scanDelivery\<close>: a null \<^verbatim>\<open>locked_by\<close> or \<^verbatim>\<open>lease_token\<close> leaves the empty string.\<close>

definition scanDelivery :: "delivery_row \<Rightarrow> delivery" where
  "scanDelivery d =
     \<lparr>dl_ID = dr_id d, dl_EventID = dr_event_id d, dl_EndpointID = dr_endpoint_id d,
      dl_Status = dr_status d, dl_AttemptCount = dr_attempt_count d,
      dl_MaxAttempts = dr_max_attempts d, dl_NextAttemptAt = dr_next_attempt_at d,
      dl_LockedBy = (case dr_locked_by d of None \<Rightarrow> [] | Some s \<Rightarrow> s),
      dl_LeaseToken = (case dr_lease_token d of None \<Rightarrow> [] | Some s \<Rightarrow> s),
      dl_LockedAt = dr_locked_at d, dl_LockedUntil = dr_locked_until d,
      dl_LastStatusCode = dr_last_status_code d, dl_LastError = dr_last_error d,
      dl_LastCompletedAt = dr_last_completed_at d, dl_CreatedAt = dr_created_at d,
      dl_UpdatedAt = dr_updated_at d\<rparr>"

text \<open>\<^verbatim>\<open>scanJob\<close> reads \<^verbatim>\<open>locked_by\<close> and \<^verbatim>\<open>lease_token\<close> into plain strings, so a null is an error.\<close>

definition scanJob :: "delivery_row \<Rightarrow> event_row \<Rightarrow> endpoint_row \<Rightarrow> (go_error, job) result" where
  "scanJob d v e =
     (if dr_locked_by d = None \<or> dr_lease_token d = None
      then Inl (ErrNew ''cannot scan NULL into *string'')
      else Inr \<lparr>jb_Delivery = scanDelivery d, jb_Event = scan_event v, jb_Endpoint = scanEndpoint e\<rparr>)"

section \<open>Recovering expired leases\<close>

definition durationMilliseconds :: "duration \<Rightarrow> int" where
  "durationMilliseconds d =
     (let ms = milliseconds d in if max_int32 < ms then max_int32 else wrap32 ms)"

definition lease_expired :: "time \<Rightarrow> locked \<Rightarrow> delivery_row \<Rightarrow> bool" where
  "lease_expired now skip d \<longleftrightarrow>
     dr_status d = StatusProcessing \<and>
     (case dr_locked_until d of None \<Rightarrow> False | Some u \<Rightarrow> u \<le> now) \<and> \<not> skip (dr_id d)"

definition expired_rows :: "time \<Rightarrow> locked \<Rightarrow> db \<Rightarrow> delivery_row list" where
  "expired_rows now skip db =
     select_limit (lease_expired now skip) (\<lambda>d. the (dr_locked_until d)) 32 (deliveries db)"

definition recover_row :: "time \<Rightarrow> delivery_row \<Rightarrow> delivery_row" where
  "recover_row now d =
     d\<lparr>dr_status := (if dr_attempt_count d < dr_max_attempts d then StatusRetrying else StatusDead),
       dr_next_attempt_at := (if dr_attempt_count d < dr_max_attempts d then now else dr_next_attempt_at d),
       dr_locked_by := None, dr_lease_token := None, dr_locked_at := None, dr_locked_until := None,
       dr_last_error := ''delivery lease expired'',
       dr_last_completed_at := Some now, dr_updated_at := now\<rparr>"

fun update_deliveries :: "uuid list \<Rightarrow> (delivery_row \<Rightarrow> delivery_row) \<Rightarrow> db \<Rightarrow> db option" where
  "update_deliveries [] f db = Some db"
| "update_deliveries (k # ks) f db =
     (case update_delivery k f db of None \<Rightarrow> None | Some db' \<Rightarrow> update_deliveries ks f db')"

text \<open>The rows that \<^verbatim>\<open>RETURNING\<close> hands back, scanned; a null \<^verbatim>\<open>locked_at\<close> cannot be scanned.\<close>

fun scan_recovered :: "time \<Rightarrow> delivery_row list \<Rightarrow> recoveredLease list option" where
  "scan_recovered now [] = Some []"
| "scan_recovered now (d # ds) =
     (case (dr_locked_at d, scan_recovered now ds) of
        (Some t, Some items) \<Rightarrow>
          Some (\<lparr>rl_deliveryID = dr_id d, rl_attempt = dr_attempt_count d,
            rl_startedAt = t, rl_completedAt = now\<rparr> # items)
      | _ \<Rightarrow> None)"

definition expired_attempt :: "pg \<Rightarrow> uuid \<Rightarrow> uuid \<Rightarrow> recoveredLease \<Rightarrow> attempt_row" where
  "expired_attempt pg i k item =
     \<lparr>ar_id = i, ar_delivery_id = k, ar_attempt_number = rl_attempt item, ar_status_code = None,
      ar_response_body = [], ar_error_message = ''delivery lease expired'',
      ar_duration_ms = durationMilliseconds (time_sub (rl_completedAt item) (rl_startedAt item)),
      ar_started_at = pg_time pg (rl_startedAt item),
      ar_completed_at = pg_time pg (rl_completedAt item)\<rparr>"

text \<open>\<^verbatim>\<open>INSERT ... ON CONFLICT (delivery_id, attempt_number) DO NOTHING\<close>.\<close>

definition insert_expired :: "pg \<Rightarrow> string \<Rightarrow> recoveredLease \<Rightarrow> db \<Rightarrow> db option" where
  "insert_expired pg newid item db =
     (case (pg_uuid pg newid, pg_uuid pg (rl_deliveryID item)) of
        (Some i, Some k) \<Rightarrow>
          (let a = expired_attempt pg i k item in
           if \<not> pg_text pg (ar_error_message a) then None
           else if attempt_key a \<in> attempt_key ` set (attempts db) then Some db
           else insert_attempt a db)
      | _ \<Rightarrow> None)"

fun record_expired ::
  "pg \<Rightarrow> io \<Rightarrow> new_uuids \<Rightarrow> nat \<Rightarrow> recoveredLease list \<Rightarrow> db \<Rightarrow> (go_error, nat \<times> db) result" where
  "record_expired pg io gen i [] db = Inr (i, db)"
| "record_expired pg io gen i (item # items) db =
     bind_ok (stmt io ''record expired lease'' (insert_expired pg (gen i) item db))
       (record_expired pg io gen (Suc i) items)"

definition recoverExpiredLeases ::
  "pg \<Rightarrow> io \<Rightarrow> new_uuids \<Rightarrow> time \<Rightarrow> locked \<Rightarrow> db \<Rightarrow> (go_error, nat \<times> db) result" where
  "recoverExpiredLeases pg io gen now skip db =
     (let rows = expired_rows now skip db in
      bind_ok (stmt io ''recover expired leases'' (Some ())) (\<lambda>_.
      bind_ok (scanned ''scan expired lease'' (scan_recovered now rows)) (\<lambda>recovered.
      bind_ok (stmt io ''iterate expired leases'' (update_deliveries (map dr_id rows) (recover_row now) db))
        (\<lambda>db1. record_expired pg io gen 0 recovered db1))))"

section \<open>Claiming\<close>

definition endpoint_open :: "time \<Rightarrow> db \<Rightarrow> uuid \<Rightarrow> bool" where
  "endpoint_open now db k =
     (case tfind er_id k (endpoints db) of
        None \<Rightarrow> False
      | Some e \<Rightarrow> er_disabled_at e = None \<and>
          (case er_circuit_open_until e of None \<Rightarrow> True | Some u \<Rightarrow> u \<le> now))"

definition claimable :: "time \<Rightarrow> locked \<Rightarrow> db \<Rightarrow> delivery_row \<Rightarrow> bool" where
  "claimable now skip db d \<longleftrightarrow>
     (dr_status d = StatusPending \<or> dr_status d = StatusRetrying) \<and>
     dr_next_attempt_at d \<le> now \<and> dr_attempt_count d < dr_max_attempts d \<and>
     endpoint_open now db (dr_endpoint_id d) \<and> \<not> skip (dr_id d)"

definition claim_candidate :: "time \<Rightarrow> locked \<Rightarrow> db \<Rightarrow> delivery_row option" where
  "claim_candidate now skip db =
     (case select_limit (claimable now skip db) (\<lambda>d. (dr_next_attempt_at d, dr_created_at d)) 1
        (deliveries db) of
        [] \<Rightarrow> None
      | d # _ \<Rightarrow> Some d)"

definition claim_row :: "string \<Rightarrow> uuid \<Rightarrow> int \<Rightarrow> time \<Rightarrow> delivery_row \<Rightarrow> delivery_row" where
  "claim_row worker token lease_ms now d =
     d\<lparr>dr_status := StatusProcessing, dr_attempt_count := dr_attempt_count d + 1,
       dr_locked_by := Some worker, dr_lease_token := Some token, dr_locked_at := Some now,
       dr_locked_until := Some (now + lease_ms * millisecond), dr_updated_at := now\<rparr>"

text \<open>
  The claim query: the rows of the final \<^verbatim>\<open>JOIN\<close> are those of the claimed delivery, its event
  and its endpoint.
\<close>

definition claim_query ::
  "pg \<Rightarrow> string \<Rightarrow> string \<Rightarrow> int \<Rightarrow> time \<Rightarrow> locked \<Rightarrow> db
    \<Rightarrow> ((delivery_row \<times> event_row \<times> endpoint_row) option \<times> db) option" where
  "claim_query pg worker newid lease_ms now skip db =
     (case pg_uuid pg newid of
        None \<Rightarrow> None
      | Some token \<Rightarrow>
         if \<not> pg_text pg worker then None
         else case claim_candidate now skip db of
           None \<Rightarrow> Some (None, db)
         | Some c \<Rightarrow>
            (case update_delivery (dr_id c) (claim_row worker token lease_ms now) db of
               None \<Rightarrow> None
             | Some db' \<Rightarrow>
                 Some (case (tfind vr_id (dr_event_id c) (events db),
                             tfind er_id (dr_endpoint_id c) (endpoints db)) of
                         (Some v, Some e) \<Rightarrow> Some (claim_row worker token lease_ms now c, v, e)
                       | _ \<Rightarrow> None, db')))"

definition claim_body ::
  "pg \<Rightarrow> io \<Rightarrow> new_uuids \<Rightarrow> time \<Rightarrow> locked \<Rightarrow> locked \<Rightarrow> string \<Rightarrow> duration \<Rightarrow> db
    \<Rightarrow> (go_error, job option \<times> db) result" where
  "claim_body pg io gen now skipR skipC worker lease db =
     bind_ok (recoverExpiredLeases pg io gen now skipR db) (\<lambda>(n, db1).
     bind_ok (stmt io ''claim delivery'' (claim_query pg worker (gen n) (milliseconds lease) now skipC db1))
       (\<lambda>(row, db2). case row of
          None \<Rightarrow> Inr (None, db2)
        | Some (d, v, e) \<Rightarrow>
           (case scanJob d v e of
              Inl err \<Rightarrow> Inl (WrapPrefix ''claim delivery'' err)
            | Inr j \<Rightarrow> Inr (Some j, db2))))"

definition ClaimDelivery ::
  "pg \<Rightarrow> io \<Rightarrow> new_uuids \<Rightarrow> time \<Rightarrow> locked \<Rightarrow> locked \<Rightarrow> string \<Rightarrow> duration \<Rightarrow> db
    \<Rightarrow> (go_error, job option) result \<times> db" where
  "ClaimDelivery pg io gen now skipR skipC workerID lease db =
     (let worker = trim_space workerID in
      if worker = [] then (Inl (ErrNew ''worker id is required''), db)
      else if lease < millisecond
        then (Inl (ErrNew ''lease duration must be at least one millisecond''), db)
      else run_tx io ''begin claim transaction''
        (\<lambda>j. if j = None then ''commit lease recovery'' else ''commit delivery claim'')
        (claim_body pg io gen now skipR skipC worker lease) db)"

section \<open>Finishing an attempt\<close>

definition validateAttemptResult :: "AttemptResult \<Rightarrow> go_error option" where
  "validateAttemptResult r =
     (if trim_space (rs_DeliveryID r) = [] then Some (ErrNew ''delivery id is required'')
      else if trim_space (rs_WorkerID r) = [] then Some (ErrNew ''worker id is required'')
      else if trim_space (rs_LeaseToken r) = [] then Some (ErrNew ''lease token is required'')
      else if rs_AttemptNumber r < 1 \<or> max_int32 < rs_AttemptNumber r
        then Some (ErrNew ''attempt number is outside the supported range'')
      else if rs_Decision r \<noteq> DecisionSucceed \<and> rs_Decision r \<noteq> DecisionRetry \<and> rs_Decision r \<noteq> DecisionDiscard
        then Some (ErrNew ''invalid delivery decision'')
      else if (case rs_StatusCode r of None \<Rightarrow> False | Some c \<Rightarrow> c < 100 \<or> 599 < c)
        then Some (ErrNew ''status code must be between 100 and 599'')
      else if rs_StatusCode r = None \<and> trim_space (rs_ErrorMessage r) = []
        then Some (ErrNew ''error message is required without status code'')
      else if rs_StatusCode r = None \<and> rs_Decision r = DecisionSucceed
        then Some (ErrNew ''successful result requires a status code'')
      else if (case rs_StatusCode r of None \<Rightarrow> False | Some c \<Rightarrow> Evaluate c None \<noteq> rs_Decision r)
        then Some (ErrNew ''decision does not match status code'')
      else if rs_Duration r < 0 then Some (ErrNew ''duration must not be negative'')
      else if rs_StartedAt r = 0 \<or> rs_CompletedAt r = 0 \<or> rs_CompletedAt r < rs_StartedAt r
        then Some (ErrNew ''invalid attempt timestamps'')
      else if rs_Decision r = DecisionRetry \<and> \<not> rs_CompletedAt r < rs_NextAttemptAt r
        then Some (ErrNew ''next attempt must be after completion'')
      else if rs_CircuitOutcome r \<noteq> CircuitNone \<and> rs_CircuitOutcome r \<noteq> CircuitFailure \<and>
          rs_CircuitOutcome r \<noteq> CircuitSuccess
        then Some (ErrNew ''invalid circuit outcome'')
      else if rs_CircuitOutcome r = CircuitFailure \<and>
          (rs_CircuitThreshold r < 1 \<or> rs_CircuitCooldown r < millisecond)
        then Some (ErrNew ''invalid circuit breaker configuration'')
      else None)"

definition finish_row :: "pg \<Rightarrow> time \<Rightarrow> AttemptResult \<Rightarrow> delivery_row \<Rightarrow> delivery_row" where
  "finish_row pg now r d =
     d\<lparr>dr_status :=
         (if rs_Decision r = DecisionSucceed then StatusSucceeded
          else if rs_Decision r = DecisionRetry \<and> dr_attempt_count d < dr_max_attempts d
            then StatusRetrying
          else StatusDead),
       dr_next_attempt_at :=
         (if rs_Decision r = DecisionRetry \<and> dr_attempt_count d < dr_max_attempts d
          then pg_time pg (rs_NextAttemptAt r) else dr_next_attempt_at d),
       dr_locked_by := None, dr_lease_token := None, dr_locked_at := None, dr_locked_until := None,
       dr_last_status_code := rs_StatusCode r, dr_last_error := rs_ErrorMessage r,
       dr_last_completed_at := Some (pg_time pg (rs_CompletedAt r)), dr_updated_at := now\<rparr>"

text \<open>The \<^verbatim>\<open>WHERE\<close> clause: the row is processing under exactly this lease and attempt.\<close>

definition holds_lease :: "uuid \<Rightarrow> string \<Rightarrow> uuid \<Rightarrow> int \<Rightarrow> delivery_row \<Rightarrow> bool" where
  "holds_lease k worker token n d \<longleftrightarrow>
     dr_id d = k \<and> dr_status d = StatusProcessing \<and> dr_locked_by d = Some worker \<and>
     dr_lease_token d = Some token \<and> dr_attempt_count d = n"

definition finish_update ::
  "pg \<Rightarrow> time \<Rightarrow> AttemptResult \<Rightarrow> db \<Rightarrow> ((status \<times> uuid) option \<times> db) option" where
  "finish_update pg now r db =
     (case (pg_uuid pg (rs_DeliveryID r), pg_uuid pg (rs_LeaseToken r)) of
        (Some k, Some token) \<Rightarrow>
          if \<not> pg_text pg (rs_WorkerID r) \<or> \<not> pg_text pg (rs_ErrorMessage r) then None
          else (case find (holds_lease k (rs_WorkerID r) token (rs_AttemptNumber r)) (deliveries db) of
                  None \<Rightarrow> Some (None, db)
                | Some d \<Rightarrow>
                   (case update_delivery k (finish_row pg now r) db of
                      None \<Rightarrow> None
                    | Some db' \<Rightarrow>
                        Some (Some (dr_status (finish_row pg now r d), dr_endpoint_id d), db')))
      | _ \<Rightarrow> None)"

definition result_attempt :: "pg \<Rightarrow> uuid \<Rightarrow> uuid \<Rightarrow> AttemptResult \<Rightarrow> attempt_row" where
  "result_attempt pg i k r =
     \<lparr>ar_id = i, ar_delivery_id = k, ar_attempt_number = rs_AttemptNumber r,
      ar_status_code = rs_StatusCode r, ar_response_body = rs_ResponseBody r,
      ar_error_message = rs_ErrorMessage r, ar_duration_ms = durationMilliseconds (rs_Duration r),
      ar_started_at = pg_time pg (rs_StartedAt r), ar_completed_at = pg_time pg (rs_CompletedAt r)\<rparr>"

definition insert_result :: "pg \<Rightarrow> string \<Rightarrow> AttemptResult \<Rightarrow> db \<Rightarrow> db option" where
  "insert_result pg newid r db =
     (case (pg_uuid pg newid, pg_uuid pg (rs_DeliveryID r)) of
        (Some i, Some k) \<Rightarrow>
          if pg_text pg (rs_ResponseBody r) \<and> pg_text pg (rs_ErrorMessage r)
          then insert_attempt (result_attempt pg i k r) db else None
      | _ \<Rightarrow> None)"

definition circuit_failure_row :: "int \<Rightarrow> int \<Rightarrow> time \<Rightarrow> endpoint_row \<Rightarrow> endpoint_row" where
  "circuit_failure_row threshold cooldown_ms now e =
     e\<lparr>er_consecutive_failures := er_consecutive_failures e + 1,
       er_circuit_open_until :=
         (if threshold \<le> er_consecutive_failures e + 1
          then Some (max (case er_circuit_open_until e of None \<Rightarrow> now | Some u \<Rightarrow> u)
                         (now + cooldown_ms * millisecond))
          else er_circuit_open_until e),
       er_updated_at := now\<rparr>"

definition circuit_success_row :: "time \<Rightarrow> endpoint_row \<Rightarrow> endpoint_row" where
  "circuit_success_row now e =
     e\<lparr>er_consecutive_failures := 0, er_circuit_open_until := None, er_updated_at := now\<rparr>"

definition circuit_failure :: "pg \<Rightarrow> time \<Rightarrow> AttemptResult \<Rightarrow> string \<Rightarrow> db \<Rightarrow> db option" where
  "circuit_failure pg now r endpointID db =
     (case pg_uuid pg endpointID of
        None \<Rightarrow> None
      | Some k \<Rightarrow>
          if max_int32 < rs_CircuitThreshold r then None
          else update_endpoint k
            (circuit_failure_row (rs_CircuitThreshold r) (milliseconds (rs_CircuitCooldown r)) now) db)"

definition circuit_success :: "pg \<Rightarrow> time \<Rightarrow> string \<Rightarrow> db \<Rightarrow> db option" where
  "circuit_success pg now endpointID db =
     (case pg_uuid pg endpointID of
        None \<Rightarrow> None
      | Some k \<Rightarrow> update_endpoint k (circuit_success_row now) db)"

definition finish_body ::
  "pg \<Rightarrow> io \<Rightarrow> new_uuids \<Rightarrow> time \<Rightarrow> AttemptResult \<Rightarrow> db \<Rightarrow> (go_error, status \<times> db) result" where
  "finish_body pg io gen now r db =
     bind_ok (stmt io ''finish delivery'' (finish_update pg now r db)) (\<lambda>(row, db1).
     case row of
       None \<Rightarrow> Inl (ErrVar ErrLeaseLost)
     | Some (st, endpointID) \<Rightarrow>
         bind_ok (stmt io ''record delivery attempt'' (insert_result pg (gen 0) r db1)) (\<lambda>db2.
         bind_ok (case rs_CircuitOutcome r of
             CircuitFailure \<Rightarrow> stmt io ''update endpoint circuit'' (circuit_failure pg now r endpointID db2)
           | CircuitSuccess \<Rightarrow> stmt io ''update endpoint circuit'' (circuit_success pg now endpointID db2)
           | _ \<Rightarrow> Inr db2) (\<lambda>db3.
         Inr (st, db3))))"

definition FinishAttempt ::
  "pg \<Rightarrow> io \<Rightarrow> new_uuids \<Rightarrow> time \<Rightarrow> AttemptResult \<Rightarrow> db \<Rightarrow> (go_error, status) result \<times> db" where
  "FinishAttempt pg io gen now r db =
     (case validateAttemptResult r of
        Some e \<Rightarrow> (Inl e, db)
      | None \<Rightarrow> run_tx io ''begin attempt transaction'' (\<lambda>_. ''commit delivery attempt'')
          (finish_body pg io gen now r) db)"

end
