(* ===== verification/Store.thy ===== *)
theory Store
  imports Queue "HOL-Library.List_Lexorder" "HOL-Library.Char_ord"
begin

text \<open>
  The rest of the store: \<^verbatim>\<open>internal/store/events.go\<close> (idempotent ingestion),
  \<^verbatim>\<open>internal/store/deliveries.go\<close> (inspection and replay), \<^verbatim>\<open>internal/store/endpoints.go\<close> and
  \<^verbatim>\<open>internal/store/stats.go\<close>, over the tables of \<open>Schema\<close>.
\<close>

section \<open>events.go\<close>

record EnqueueParams =
  pm_EventID :: string
  pm_DeliveryID :: string
  pm_EndpointID :: string
  pm_Type :: string
  pm_Payload :: bytes
  pm_IdempotencyKey :: string

record Enqueued =
  nq_Event :: event
  nq_Delivery :: delivery
  nq_Duplicate :: bool

text \<open>
  The upsert of the event: on a conflict of \<^verbatim>\<open>(endpoint_id, idempotency_key)\<close> the existing row is
  returned unchanged. The flag is \<^verbatim>\<open>event_type = $3 AND payload = $4::jsonb\<close>.
\<close>

definition upsert_event ::
  "pg \<Rightarrow> time \<Rightarrow> EnqueueParams \<Rightarrow> db \<Rightarrow> ((event_row \<times> bool) \<times> db) option" where
  "upsert_event pg now p db =
     (case (pg_uuid pg (pm_EventID p), pg_uuid pg (pm_EndpointID p), pg_jsonb pg (pm_Payload p)) of
        (Some i, Some k, Some doc) \<Rightarrow>
          if \<not> pg_text pg (pm_Type p) \<or> \<not> pg_text pg (pm_IdempotencyKey p) then None
          else (case tfind event_key (k, pm_IdempotencyKey p) (events db) of
                  Some v \<Rightarrow> Some ((v, vr_event_type v = pm_Type p \<and> vr_payload v = doc), db)
                | None \<Rightarrow>
                    (let v = \<lparr>vr_id = i, vr_endpoint_id = k, vr_event_type = pm_Type p,
                        vr_payload = doc, vr_idempotency_key = pm_IdempotencyKey p,
                        vr_created_at = now\<rparr>
                     in map_option (\<lambda>db'. ((v, True), db')) (insert_event v db)))
      | _ \<Rightarrow> None)"

definition new_delivery :: "uuid \<Rightarrow> uuid \<Rightarrow> uuid \<Rightarrow> int \<Rightarrow> time \<Rightarrow> delivery_row" where
  "new_delivery i evid k maxAttempts now =
     \<lparr>dr_id = i, dr_event_id = evid, dr_endpoint_id = k, dr_status = StatusPending,
      dr_attempt_count = 0, dr_max_attempts = maxAttempts, dr_next_attempt_at = now,
      dr_locked_by = None, dr_lease_token = None, dr_locked_at = None, dr_locked_until = None,
      dr_last_status_code = None, dr_last_error = [], dr_last_completed_at = None,
      dr_created_at = now, dr_updated_at = now\<rparr>"

definition upsert_delivery ::
  "pg \<Rightarrow> time \<Rightarrow> string \<Rightarrow> string \<Rightarrow> string \<Rightarrow> int \<Rightarrow> db \<Rightarrow> (delivery_row \<times> db) option" where
  "upsert_delivery pg now deliveryID eventID endpointID maxAttempts db =
     (case (pg_uuid pg deliveryID, pg_uuid pg eventID, pg_uuid pg endpointID) of
        (Some i, Some evid, Some k) \<Rightarrow>
          (case tfind dr_event_id evid (deliveries db) of
             Some d \<Rightarrow> Some (d, db)
           | None \<Rightarrow>
               (let d = new_delivery i evid k maxAttempts now
                in map_option (\<lambda>db'. (d, db')) (insert_delivery d db)))
      | _ \<Rightarrow> None)"

definition enqueue_body ::
  "pg \<Rightarrow> io \<Rightarrow> time \<Rightarrow> EnqueueParams \<Rightarrow> db \<Rightarrow> (go_error, Enqueued \<times> db) result" where
  "enqueue_body pg io now p db =
     bind_ok (stmt io ''lock endpoint''
         (map_option (\<lambda>k. tfind er_id k (endpoints db)) (pg_uuid pg (pm_EndpointID p)))) (\<lambda>row.
     case row of
       None \<Rightarrow> Inl (ErrVar EndpointErrNotFound)
     | Some e \<Rightarrow>
        if er_disabled_at e \<noteq> None then Inl (ErrVar EventErrEndpointDisabled)
        else
          bind_ok (stmt io ''upsert event'' (upsert_event pg now p db)) (\<lambda>((v, payloadMatches), db1).
          if \<not> payloadMatches then Inl (ErrVar EventErrIdempotencyConflict)
          else
            bind_ok (stmt io ''upsert delivery''
                (upsert_delivery pg now (pm_DeliveryID p) (vr_id v) (pm_EndpointID p) (er_max_attempts e) db1))
              (\<lambda>(d, db2).
                Inr (\<lparr>nq_Event = scan_event v, nq_Delivery = scanDelivery d,
                  nq_Duplicate = (vr_id v \<noteq> pm_EventID p)\<rparr>, db2))))"

definition EnqueueEvent ::
  "pg \<Rightarrow> io \<Rightarrow> time \<Rightarrow> EnqueueParams \<Rightarrow> db \<Rightarrow> (go_error, Enqueued) result \<times> db" where
  "EnqueueEvent pg io now p =
     run_tx io ''begin enqueue transaction'' (\<lambda>_. ''commit event enqueue'') (enqueue_body pg io now p)"

section \<open>deliveries.go\<close>

record Details =
  dt_Delivery :: delivery
  dt_Event :: event
  dt_Attempts :: "attempt list"

definition scan_attempt :: "attempt_row \<Rightarrow> attempt" where
  "scan_attempt a =
     \<lparr>at_ID = ar_id a, at_DeliveryID = ar_delivery_id a, at_Number = ar_attempt_number a,
      at_StatusCode = ar_status_code a, at_ResponseBody = ar_response_body a,
      at_ErrorMessage = ar_error_message a,
      at_Duration = wrap64 (ar_duration_ms a * millisecond),
      at_StartedAt = ar_started_at a, at_CompletedAt = ar_completed_at a\<rparr>"

definition attempts_of :: "uuid \<Rightarrow> db \<Rightarrow> attempt_row list" where
  "attempts_of k db =
     sort_key ar_attempt_number (filter (\<lambda>a. ar_delivery_id a = k) (attempts db))"

definition get_body :: "pg \<Rightarrow> io \<Rightarrow> string \<Rightarrow> db \<Rightarrow> (go_error, Details \<times> db) result" where
  "get_body pg io i db =
     bind_ok (stmt io ''query delivery'' (map_option (\<lambda>k. (k, tfind dr_id k (deliveries db))) (pg_uuid pg i)))
       (\<lambda>(k, row).
     case row of
       None \<Rightarrow> Inl (ErrVar DeliveryErrNotFound)
     | Some d \<Rightarrow>
        (case tfind vr_id (dr_event_id d) (events db) of
           None \<Rightarrow> Inl (ErrVar DeliveryErrNotFound)
         | Some v \<Rightarrow>
             bind_ok (stmt io ''query delivery attempts'' (Some (attempts_of k db))) (\<lambda>rows.
             bind_ok (stmt io ''iterate delivery attempts'' (Some ())) (\<lambda>_.
             Inr (\<lparr>dt_Delivery = scanDelivery d, dt_Event = scan_event v,
               dt_Attempts = map scan_attempt rows\<rparr>, db)))))"

definition GetDelivery :: "pg \<Rightarrow> io \<Rightarrow> string \<Rightarrow> db \<Rightarrow> (go_error, Details) result \<times> db" where
  "GetDelivery pg io i =
     run_tx io ''begin delivery read'' (\<lambda>_. ''commit delivery read'') (get_body pg io i)"

definition replay_row :: "int \<Rightarrow> time \<Rightarrow> delivery_row \<Rightarrow> delivery_row" where
  "replay_row limit now d =
     d\<lparr>dr_status := StatusPending, dr_max_attempts := limit,
       dr_next_attempt_at := now, dr_updated_at := now\<rparr>"

definition replay_body ::
  "pg \<Rightarrow> io \<Rightarrow> time \<Rightarrow> string \<Rightarrow> db \<Rightarrow> (go_error, delivery \<times> db) result" where
  "replay_body pg io now i db =
     bind_ok (stmt io ''lock delivery for replay''
         (map_option (\<lambda>k. (k, tfind dr_id k (deliveries db))) (pg_uuid pg i))) (\<lambda>(k, row).
     case row of
       None \<Rightarrow> Inl (ErrVar DeliveryErrNotFound)
     | Some d \<Rightarrow>
        (case tfind er_id (dr_endpoint_id d) (endpoints db) of
           None \<Rightarrow> Inl (ErrVar DeliveryErrNotFound)
         | Some e \<Rightarrow>
            if er_disabled_at e \<noteq> None then Inl (ErrVar DeliveryErrEndpointDisabled)
            else if dr_status d \<noteq> StatusDead \<or> max_int32 - er_max_attempts e < dr_max_attempts d
              then Inl (ErrVar DeliveryErrNotReplayable)
            else
              (let limit = dr_max_attempts d + er_max_attempts e in
               bind_ok (stmt io ''replay delivery'' (update_delivery k (replay_row limit now) db)) (\<lambda>db'.
               Inr (scanDelivery (replay_row limit now d), db')))))"

definition ReplayDelivery ::
  "pg \<Rightarrow> io \<Rightarrow> time \<Rightarrow> string \<Rightarrow> db \<Rightarrow> (go_error, delivery) result \<times> db" where
  "ReplayDelivery pg io now i =
     run_tx io ''begin delivery replay'' (\<lambda>_. ''commit delivery replay'') (replay_body pg io now i)"

section \<open>endpoints.go\<close>

definition new_endpoint :: "uuid \<Rightarrow> endpoint \<Rightarrow> time \<Rightarrow> endpoint_row" where
  "new_endpoint i value now =
     \<lparr>er_id = i, er_name = ep_Name value, er_url = ep_URL value,
      er_secret_ciphertext = ep_SecretCiphertext value,
      er_timeout_ms = milliseconds (ep_Timeout value), er_max_attempts = ep_MaxAttempts value,
      er_consecutive_failures = 0, er_circuit_open_until = None, er_disabled_at = None,
      er_created_at = now, er_updated_at = now\<rparr>"

definition create_query :: "pg \<Rightarrow> time \<Rightarrow> endpoint \<Rightarrow> db \<Rightarrow> (endpoint \<times> db) option" where
  "create_query pg now value db =
     (case pg_uuid pg (ep_ID value) of
        None \<Rightarrow> None
      | Some i \<Rightarrow>
          if \<not> pg_text pg (ep_Name value) \<or> \<not> pg_text pg (ep_URL value) then None
          else (let e = new_endpoint i value now
                in map_option (\<lambda>db'. (scanEndpoint e, db')) (insert_endpoint e db)))"

definition CreateEndpoint ::
  "pg \<Rightarrow> io \<Rightarrow> time \<Rightarrow> endpoint \<Rightarrow> db \<Rightarrow> (go_error, endpoint) result \<times> db" where
  "CreateEndpoint pg io now value db =
     run_auto io ''insert endpoint'' (create_query pg now value db) db"

text \<open>\<^verbatim>\<open>ORDER BY created_at DESC, id DESC LIMIT $1\<close>; a negative limit is rejected.\<close>

definition list_query :: "int \<Rightarrow> db \<Rightarrow> endpoint_row list option" where
  "list_query limit db =
     (if limit < 0 then None
      else Some (take (nat limit) (rev (sort_key (\<lambda>e. (er_created_at e, er_id e)) (endpoints db)))))"

definition ListEndpoints :: "io \<Rightarrow> int \<Rightarrow> db \<Rightarrow> (go_error, endpoint list) result" where
  "ListEndpoints io limit db =
     bind_ok (stmt io ''query endpoints'' (list_query limit db)) (\<lambda>rows.
     bind_ok (stmt io ''iterate endpoints'' (Some ())) (\<lambda>_. Inr (map scanEndpoint rows)))"

definition GetEndpoint :: "pg \<Rightarrow> io \<Rightarrow> string \<Rightarrow> db \<Rightarrow> (go_error, endpoint) result" where
  "GetEndpoint pg io i db =
     bind_ok (stmt io ''query endpoint'' (map_option (\<lambda>k. tfind er_id k (endpoints db)) (pg_uuid pg i)))
       (\<lambda>row. case row of
          None \<Rightarrow> Inl (ErrVar EndpointErrNotFound)
        | Some e \<Rightarrow> Inr (scanEndpoint e))"

definition disable_row :: "time \<Rightarrow> endpoint_row \<Rightarrow> endpoint_row" where
  "disable_row now e =
     e\<lparr>er_disabled_at := (case er_disabled_at e of None \<Rightarrow> Some now | Some t \<Rightarrow> Some t),
       er_updated_at := (if er_disabled_at e = None then now else er_updated_at e)\<rparr>"

definition disable_query :: "pg \<Rightarrow> time \<Rightarrow> string \<Rightarrow> db \<Rightarrow> (endpoint option \<times> db) option" where
  "disable_query pg now i db =
     (case pg_uuid pg i of
        None \<Rightarrow> None
      | Some k \<Rightarrow>
          map_option
            (\<lambda>db'. (map_option (\<lambda>e. scanEndpoint (disable_row now e)) (tfind er_id k (endpoints db)), db'))
            (update_endpoint k (disable_row now) db))"

definition DisableEndpoint ::
  "pg \<Rightarrow> io \<Rightarrow> time \<Rightarrow> string \<Rightarrow> db \<Rightarrow> (go_error, endpoint) result \<times> db" where
  "DisableEndpoint pg io now i db =
     (case run_auto io ''disable endpoint'' (disable_query pg now i db) db of
        (Inl e, db') \<Rightarrow> (Inl e, db')
      | (Inr None, db') \<Rightarrow> (Inl (ErrVar EndpointErrNotFound), db')
      | (Inr (Some e), db') \<Rightarrow> (Inr e, db'))"

section \<open>stats.go\<close>

record OperationalStats =
  os_Pending :: int
  os_Processing :: int
  os_Retrying :: int
  os_Succeeded :: int
  os_Dead :: int
  os_OpenCircuits :: int

definition count_rows :: "('r \<Rightarrow> bool) \<Rightarrow> 'r list \<Rightarrow> int" where
  "count_rows p rows = int (length (filter p rows))"

definition GetOperationalStats :: "io \<Rightarrow> time \<Rightarrow> db \<Rightarrow> (go_error, OperationalStats) result" where
  "GetOperationalStats io now db =
     stmt io ''query operational stats'' (Some
       \<lparr>os_Pending = count_rows (\<lambda>d. dr_status d = StatusPending) (deliveries db),
        os_Processing = count_rows (\<lambda>d. dr_status d = StatusProcessing) (deliveries db),
        os_Retrying = count_rows (\<lambda>d. dr_status d = StatusRetrying) (deliveries db),
        os_Succeeded = count_rows (\<lambda>d. dr_status d = StatusSucceeded) (deliveries db),
        os_Dead = count_rows (\<lambda>d. dr_status d = StatusDead) (deliveries db),
        os_OpenCircuits = count_rows
          (\<lambda>e. case er_circuit_open_until e of None \<Rightarrow> False | Some u \<Rightarrow> now < u) (endpoints db)\<rparr>)"

end
