(* ===== verification/Store_Invariant.thy ===== *)
theory Store_Invariant
  imports Store
begin

text \<open>
  The invariant of the store and its preservation by every operation. Beyond the constraints
  that the schema enforces (\<open>schema_ok\<close>), the code keeps three things true that no
  constraint states: a delivery waiting to be claimed has attempts left and one
  being processed has begun one (\<open>claim_ok\<close>), the
  attempt log of a delivery has exactly the numbers \<open>1..attempt_count\<close>, without the current
  one while the delivery is processing (\<open>log_ok\<close>), and events and deliveries pair up
  (\<open>pair_ok\<close>). Identifiers are stored in canonical form (\<open>ids_ok\<close>).
\<close>

section \<open>Definitions\<close>

text \<open>The text of a \<^verbatim>\<open>uuid\<close> column, read back, is the same value.\<close>

definition canonical_uuid :: "pg \<Rightarrow> bool" where
  "canonical_uuid pg \<longleftrightarrow> (\<forall>s u. pg_uuid pg s = Some u \<longrightarrow> pg_uuid pg u = Some u)"

definition attempt_numbers :: "db \<Rightarrow> uuid \<Rightarrow> int set" where
  "attempt_numbers db k = ar_attempt_number ` {a \<in> set (attempts db). ar_delivery_id a = k}"

text \<open>The numbers the log of a delivery should have; \<open>M\<close> are deliveries whose last attempt
  is over but not yet recorded (inside a transaction).\<close>

definition expected_log :: "uuid set \<Rightarrow> delivery_row \<Rightarrow> int set" where
  "expected_log M d =
     {1 .. (if dr_status d = StatusProcessing \<or> dr_id d \<in> M
            then dr_attempt_count d - 1 else dr_attempt_count d)}"

definition log_ok :: "uuid set \<Rightarrow> db \<Rightarrow> bool" where
  "log_ok M db \<longleftrightarrow> (\<forall>d \<in> set (deliveries db). attempt_numbers db (dr_id d) = expected_log M d)"

definition waiting :: "delivery_row \<Rightarrow> bool" where
  "waiting d \<longleftrightarrow> dr_status d = StatusPending \<or> dr_status d = StatusRetrying"

definition claim_ok :: "db \<Rightarrow> bool" where
  "claim_ok db \<longleftrightarrow> (\<forall>d \<in> set (deliveries db).
     (waiting d \<longrightarrow> dr_attempt_count d < dr_max_attempts d) \<and>
     (dr_status d = StatusProcessing \<longrightarrow> 1 \<le> dr_attempt_count d))"

definition pair_ok :: "db \<Rightarrow> bool" where
  "pair_ok db \<longleftrightarrow>
     (\<forall>d \<in> set (deliveries db). \<exists>v \<in> set (events db).
        vr_id v = dr_event_id d \<and> vr_endpoint_id v = dr_endpoint_id d)"

definition events_have_delivery :: "db \<Rightarrow> bool" where
  "events_have_delivery db \<longleftrightarrow> (\<forall>v \<in> set (events db). vr_id v \<in> dr_event_id ` set (deliveries db))"

definition ids_ok :: "pg \<Rightarrow> db \<Rightarrow> bool" where
  "ids_ok pg db \<longleftrightarrow>
     (\<forall>e \<in> set (endpoints db). pg_uuid pg (er_id e) = Some (er_id e)) \<and>
     (\<forall>v \<in> set (events db). pg_uuid pg (vr_id v) = Some (vr_id v)) \<and>
     (\<forall>d \<in> set (deliveries db). pg_uuid pg (dr_id d) = Some (dr_id d) \<and>
        (\<forall>t. dr_lease_token d = Some t \<longrightarrow> pg_uuid pg t = Some t))"

definition rows_ok :: "pg \<Rightarrow> uuid set \<Rightarrow> db \<Rightarrow> bool" where
  "rows_ok pg M db \<longleftrightarrow> schema_ok db \<and> claim_ok db \<and> log_ok M db \<and> pair_ok db \<and> ids_ok pg db"

definition store_inv :: "pg \<Rightarrow> db \<Rightarrow> bool" where
  "store_inv pg db \<longleftrightarrow> rows_ok pg {} db \<and> events_have_delivery db"

lemmas inv_defs = rows_ok_def claim_ok_def log_ok_def pair_ok_def ids_ok_def expected_log_def waiting_def

section \<open>One delivery updated\<close>

lemma tupdate_no_key: "k \<notin> key ` set rows \<Longrightarrow> tupdate key k f rows = rows"
  by (induction rows) (auto simp: tupdate_def)

lemma update_delivery_eq:
  "update_delivery k f db = Some db' \<Longrightarrow> db' = db\<lparr>deliveries := tupdate dr_id k f (deliveries db)\<rparr>"
  by (auto simp: update_delivery_def tfind_None_iff tupdate_no_key split: option.splits if_splits)

lemma update_endpoint_eq:
  "update_endpoint k f db = Some db' \<Longrightarrow> db' = db\<lparr>endpoints := tupdate er_id k f (endpoints db)\<rparr>"
  by (auto simp: update_endpoint_def tfind_None_iff tupdate_no_key split: option.splits if_splits)

lemma attempt_numbers_frame [simp]:
  "attempt_numbers (db\<lparr>deliveries := ds\<rparr>) = attempt_numbers db"
  "attempt_numbers (db\<lparr>endpoints := es\<rparr>) = attempt_numbers db"
  "attempt_numbers (db\<lparr>events := vs\<rparr>) = attempt_numbers db"
  by (simp_all add: attempt_numbers_def fun_eq_iff)

text \<open>
  The invariant after an update of the row with key \<open>k\<close>: it is enough to look at that row.
\<close>

lemma rows_ok_update_delivery:
  assumes inv: "rows_ok pg M db" and u: "update_delivery k f db = Some db'" and f: "keeps_keys f"
    and d: "tfind dr_id k (deliveries db) = Some d"
    and log: "expected_log M' (f d) = expected_log M d"
    and others: "\<And>j. j \<noteq> k \<Longrightarrow> j \<in> M' \<longleftrightarrow> j \<in> M"
    and clm: "waiting (f d) \<Longrightarrow> dr_attempt_count (f d) < dr_max_attempts (f d)"
    and run: "dr_status (f d) = StatusProcessing \<Longrightarrow> 1 \<le> dr_attempt_count (f d)"
    and tok: "\<And>t. dr_lease_token (f d) = Some t \<Longrightarrow> pg_uuid pg t = Some t"
  shows "rows_ok pg M' db'"
proof -
  have db': "db' = db\<lparr>deliveries := tupdate dr_id k f (deliveries db)\<rparr>"
    using u by (rule update_delivery_eq)
  have ok: "schema_ok db'" using inv f u by (auto simp: rows_ok_def intro: schema_ok_update_delivery)
  have keys: "dr_id (f x) = dr_id x" "dr_event_id (f x) = dr_event_id x"
    "dr_endpoint_id (f x) = dr_endpoint_id x" for x using f by (simp_all add: keeps_keys_def)
  have uniq: "x = d" if "x \<in> set (deliveries db)" "dr_id x = k" for x
    using tfind_unique [OF _ d that] inv by (simp add: rows_ok_def schema_ok_def)
  have dk: "d \<in> set (deliveries db)" "dr_id d = k" using tfind_SomeD [OF d] by auto
  have rows: "x = f d \<or> x \<in> set (deliveries db) \<and> dr_id x \<noteq> k" if "x \<in> set (deliveries db')" for x
    using that uniq by (auto simp: db' elim!: in_tupdateE)
  have old: "attempt_numbers db (dr_id x) = expected_log M x" if "x \<in> set (deliveries db)" for x
    using inv that by (simp add: rows_ok_def log_ok_def)
  have "log_ok M' db'"
    unfolding log_ok_def
  proof
    fix x assume "x \<in> set (deliveries db')"
    then consider "x = f d" | "x \<in> set (deliveries db)" "dr_id x \<noteq> k" using rows by blast
    then show "attempt_numbers db' (dr_id x) = expected_log M' x"
    proof cases
      case 1
      then show ?thesis using old [OF dk(1)] log by (simp add: db' keys)
    next
      case 2
      then show ?thesis using old [OF 2(1)] others [OF 2(2)] by (simp add: db' expected_log_def)
    qed
  qed
  moreover have "claim_ok db'" using rows inv clm run unfolding claim_ok_def rows_ok_def by fastforce
  moreover have "pair_ok db'"
    using inv by (auto simp: db' pair_ok_def rows_ok_def keys elim!: in_tupdateE)
  moreover have "ids_ok pg db'"
  proof -
    have "pg_uuid pg (dr_id x) = Some (dr_id x) \<and> (\<forall>t. dr_lease_token x = Some t \<longrightarrow> pg_uuid pg t = Some t)"
      if "x \<in> set (deliveries db')" for x
      using rows [OF that] inv tok dk by (auto simp: rows_ok_def ids_ok_def keys)
    then show ?thesis using inv by (simp add: db' ids_ok_def rows_ok_def)
  qed
  ultimately show ?thesis using ok by (simp add: rows_ok_def)
qed

text \<open>The same for an update that finds no row.\<close>

lemma update_delivery_no_row:
  "tfind dr_id k (deliveries db) = None \<Longrightarrow> update_delivery k f db = Some db"
  by (simp add: update_delivery_def)

lemma tupdate_same_events:
  "update_delivery k f db = Some db' \<Longrightarrow> keeps_keys f \<Longrightarrow>
    events db' = events db \<and> dr_event_id ` set (deliveries db') = dr_event_id ` set (deliveries db)"
  by (drule update_delivery_eq) (auto simp: keeps_keys_def tupdate_image_key)

lemma events_have_delivery_update:
  "events_have_delivery db \<Longrightarrow> update_delivery k f db = Some db' \<Longrightarrow> keeps_keys f \<Longrightarrow>
    events_have_delivery db'"
  by (simp add: events_have_delivery_def tupdate_same_events)

section \<open>One endpoint updated\<close>

lemma rows_ok_update_endpoint:
  assumes inv: "rows_ok pg M db" and u: "update_endpoint k f db = Some db'" and f: "keeps_endpoint_id f"
  shows "rows_ok pg M db'"
proof -
  have db': "db' = db\<lparr>endpoints := tupdate er_id k f (endpoints db)\<rparr>"
    using u by (rule update_endpoint_eq)
  have "schema_ok db'" using inv f u by (auto simp: rows_ok_def intro: schema_ok_update_endpoint)
  moreover have "\<forall>e \<in> set (endpoints db'). pg_uuid pg (er_id e) = Some (er_id e)"
    using inv f by (auto simp: db' rows_ok_def ids_ok_def keeps_endpoint_id_def elim!: in_tupdateE)
  ultimately show ?thesis
    using inv by (simp add: db' rows_ok_def claim_ok_def log_ok_def pair_ok_def ids_ok_def)
qed

lemma events_have_delivery_update_endpoint:
  "events_have_delivery db \<Longrightarrow> update_endpoint k f db = Some db' \<Longrightarrow> events_have_delivery db'"
  by (drule update_endpoint_eq) (simp add: events_have_delivery_def)

section \<open>An attempt recorded\<close>

lemma attempt_numbers_insert:
  assumes "insert_attempt a db = Some db'"
  shows "attempt_numbers db' k =
    (if ar_delivery_id a = k then insert (ar_attempt_number a) (attempt_numbers db k) else attempt_numbers db k)"
proof -
  have "attempts db' = attempts db @ [a]" using assms by (auto simp: insert_attempt_def split: if_splits)
  then show ?thesis by (auto simp: attempt_numbers_def)
qed

text \<open>Recording the missing attempt of a delivery that is no longer processing.\<close>

lemma rows_ok_insert_attempt:
  assumes inv: "rows_ok pg M db" and i: "insert_attempt a db = Some db'"
    and d: "d \<in> set (deliveries db)" "dr_id d = ar_delivery_id a"
      "dr_status d \<noteq> StatusProcessing" "dr_attempt_count d = ar_attempt_number a"
    and m: "ar_delivery_id a \<in> M"
  shows "rows_ok pg (M - {ar_delivery_id a}) db'"
proof -
  have db': "deliveries db' = deliveries db" "events db' = events db" "endpoints db' = endpoints db"
    and chk: "check_attempt a" using i by (auto simp: insert_attempt_def split: if_splits)
  have dist: "distinct (map dr_id (deliveries db))" using inv by (simp add: rows_ok_def schema_ok_def)
  have uniq: "x = d" if "x \<in> set (deliveries db)" "dr_id x = ar_delivery_id a" for x
    using key_inj [OF dist that(1) d(1)] that(2) d(2) by simp
  have n: "0 < dr_attempt_count d" using chk d by (simp add: check_attempt_def)
  have "attempt_numbers db' (dr_id x) = expected_log (M - {ar_delivery_id a}) x"
    if x: "x \<in> set (deliveries db)" for x
  proof (cases "dr_id x = ar_delivery_id a")
    case True
    with uniq x have "x = d" by blast
    moreover have "attempt_numbers db (dr_id d) = {1 .. dr_attempt_count d - 1}"
      using inv d m by (auto simp: rows_ok_def log_ok_def expected_log_def)
    moreover have "insert (dr_attempt_count d) {1 .. dr_attempt_count d - 1} = {1 .. dr_attempt_count d}"
      using n by auto
    ultimately show ?thesis
      using d by (simp add: attempt_numbers_insert [OF i] expected_log_def)
  next
    case False
    then show ?thesis
      using inv x by (simp add: attempt_numbers_insert [OF i] expected_log_def rows_ok_def log_ok_def)
  qed
  moreover have "schema_ok db'" using inv i by (auto simp: rows_ok_def intro: schema_ok_insert_attempt)
  ultimately show ?thesis
    using inv by (simp add: db' rows_ok_def claim_ok_def log_ok_def pair_ok_def ids_ok_def)
qed

lemma insert_attempt_frame:
  "insert_attempt a db = Some db' \<Longrightarrow>
    deliveries db' = deliveries db \<and> events db' = events db \<and> endpoints db' = endpoints db \<and>
    attempts db' = attempts db @ [a]"
  by (auto simp: insert_attempt_def split: if_splits)

section \<open>Recovery of expired leases\<close>

lemma keeps_keys_rows [simp]:
  "keeps_keys (recover_row now)" "keeps_keys (claim_row w t l now)" "keeps_keys (finish_row pg now r)"
  "keeps_keys (replay_row m now)"
  by (simp_all add: keeps_keys_def recover_row_def claim_row_def finish_row_def replay_row_def)

lemma recover_row_sel [simp]:
  "dr_id (recover_row now d) = dr_id d" "dr_attempt_count (recover_row now d) = dr_attempt_count d"
  "dr_max_attempts (recover_row now d) = dr_max_attempts d" "dr_lease_token (recover_row now d) = None"
  "dr_status (recover_row now d) =
     (if dr_attempt_count d < dr_max_attempts d then StatusRetrying else StatusDead)"
  by (simp_all add: recover_row_def)

lemma tfind_update_delivery:
  assumes "update_delivery k f db = Some db'" and "keeps_keys f"
  shows "tfind dr_id j (deliveries db') =
    (if j = k then map_option f (tfind dr_id j (deliveries db)) else tfind dr_id j (deliveries db))"
proof -
  have "dr_id (f r) = dr_id r" for r using assms(2) by (simp add: keeps_keys_def)
  then show ?thesis using update_delivery_eq [OF assms(1)] by (simp add: tfind_tupdate)
qed

lemma update_delivery_frame:
  "update_delivery k f db = Some db' \<Longrightarrow>
    events db' = events db \<and> endpoints db' = endpoints db \<and> attempts db' = attempts db"
  by (drule update_delivery_eq) simp

definition processing_row :: "db \<Rightarrow> uuid \<Rightarrow> bool" where
  "processing_row db k \<longleftrightarrow>
     (\<exists>d. tfind dr_id k (deliveries db) = Some d \<and> dr_status d = StatusProcessing)"

lemma update_deliveries_tfind:
  assumes "update_deliveries ks (recover_row now) db = Some db'" and "distinct ks"
  shows "tfind dr_id j (deliveries db') =
    (if j \<in> set ks then map_option (recover_row now) (tfind dr_id j (deliveries db))
     else tfind dr_id j (deliveries db))"
  using assms
proof (induction ks arbitrary: db)
  case (Cons k ks)
  then obtain db1 where u: "update_delivery k (recover_row now) db = Some db1"
    and r: "update_deliveries ks (recover_row now) db1 = Some db'" by (auto split: option.splits)
  from Cons.IH [OF r] Cons.prems(2) show ?case
    by (auto simp: tfind_update_delivery [OF u])
qed simp

lemma rows_ok_update_deliveries:
  assumes "rows_ok pg M db" and "update_deliveries ks (recover_row now) db = Some db'"
    and "distinct ks" and "\<And>k. k \<in> set ks \<Longrightarrow> processing_row db k"
  shows "rows_ok pg (M \<union> set ks) db' \<and>
    events db' = events db \<and> endpoints db' = endpoints db \<and> attempts db' = attempts db \<and>
    dr_event_id ` set (deliveries db') = dr_event_id ` set (deliveries db)"
  using assms
proof (induction ks arbitrary: db M)
  case (Cons k ks)
  then obtain db1 where u: "update_delivery k (recover_row now) db = Some db1"
    and r: "update_deliveries ks (recover_row now) db1 = Some db'" by (auto split: option.splits)
  obtain d where d: "tfind dr_id k (deliveries db) = Some d" "dr_status d = StatusProcessing"
    using Cons.prems(4) [of k] by (auto simp: processing_row_def)
  have "rows_ok pg (insert k M) db1"
    by (rule rows_ok_update_delivery [OF Cons.prems(1) u _ d(1)])
      (use d tfind_SomeD [OF d(1)] in \<open>auto simp: expected_log_def waiting_def split: if_splits\<close>)
  moreover have "processing_row db1 j" if "j \<in> set ks" for j
    using that Cons.prems(3) Cons.prems(4) [of j] by (auto simp: processing_row_def tfind_update_delivery [OF u])
  ultimately have "rows_ok pg (insert k M \<union> set ks) db' \<and>
      events db' = events db1 \<and> endpoints db' = endpoints db1 \<and> attempts db' = attempts db1 \<and>
      dr_event_id ` set (deliveries db') = dr_event_id ` set (deliveries db1)"
    using Cons.prems(3) r by (intro Cons.IH) auto
  then show ?case using update_delivery_frame [OF u] tupdate_same_events [OF u] by simp
qed simp

text \<open>An item of the recovered list and the row it was read from.\<close>

definition item_of :: "time \<Rightarrow> delivery_row \<Rightarrow> recoveredLease \<Rightarrow> bool" where
  "item_of now d item \<longleftrightarrow>
     rl_deliveryID item = dr_id d \<and> rl_attempt item = dr_attempt_count d \<and>
     dr_locked_at d = Some (rl_startedAt item) \<and> rl_completedAt item = now"

lemma scan_recovered_items: "scan_recovered now ds = Some items \<Longrightarrow> list_all2 (item_of now) ds items"
  by (induction ds arbitrary: items) (auto simp: item_of_def split: option.splits)

lemma list_all2_item_ids: "list_all2 (item_of now) ds items \<Longrightarrow> map rl_deliveryID items = map dr_id ds"
  by (induction rule: list_all2_induct) (auto simp: item_of_def)

text \<open>A delivery whose last attempt is over but not in the log.\<close>

definition unrecorded :: "db \<Rightarrow> recoveredLease \<Rightarrow> bool" where
  "unrecorded db item \<longleftrightarrow>
     (\<exists>d. tfind dr_id (rl_deliveryID item) (deliveries db) = Some d \<and>
        dr_status d \<noteq> StatusProcessing \<and> dr_attempt_count d = rl_attempt item)"

lemma insert_expired_inserts:
  assumes inv: "rows_ok pg M db" and un: "unrecorded db item" and m: "rl_deliveryID item \<in> M"
    and ins: "insert_expired pg newid item db = Some db'"
  obtains i where "pg_uuid pg newid = Some i"
    and "insert_attempt (expired_attempt pg i (rl_deliveryID item) item) db = Some db'"
proof -
  obtain d where d: "tfind dr_id (rl_deliveryID item) (deliveries db) = Some d"
    "dr_status d \<noteq> StatusProcessing" "dr_attempt_count d = rl_attempt item"
    using un by (auto simp: unrecorded_def)
  note dk = tfind_SomeD [OF d(1)]
  obtain i k where ik: "pg_uuid pg newid = Some i" "pg_uuid pg (rl_deliveryID item) = Some k"
    using ins by (auto simp: insert_expired_def split: option.splits)
  have k: "k = rl_deliveryID item" using ik(2) inv dk by (auto simp: rows_ok_def ids_ok_def)
  have "attempt_numbers db (rl_deliveryID item) = {1 .. rl_attempt item - 1}"
    using inv dk d m by (auto simp: rows_ok_def log_ok_def expected_log_def)
  then have "rl_attempt item \<notin> attempt_numbers db (rl_deliveryID item)" by auto
  then have "attempt_key (expired_attempt pg i k item) \<notin> attempt_key ` set (attempts db)"
    by (auto simp: attempt_key_def attempt_numbers_def expected_log_def expired_attempt_def k)
  with ins ik have "insert_attempt (expired_attempt pg i k item) db = Some db'"
    by (auto simp: insert_expired_def Let_def split: if_splits)
  with ik(1) k show ?thesis by (blast intro: that)
qed

lemma rows_ok_record_expired:
  assumes "rows_ok pg (rl_deliveryID ` set items) db" and "distinct (map rl_deliveryID items)"
    and "\<And>item. item \<in> set items \<Longrightarrow> unrecorded db item"
    and "record_expired pg io gen n items db = Inr (m, db')"
  shows "rows_ok pg {} db' \<and> deliveries db' = deliveries db \<and> events db' = events db \<and>
    endpoints db' = endpoints db \<and> set (attempts db) \<subseteq> set (attempts db')"
  using assms
proof (induction items arbitrary: n db)
  case (Cons item items)
  then obtain db1 where i: "insert_expired pg (gen n) item db = Some db1"
    and r: "record_expired pg io gen (Suc n) items db1 = Inr (m, db')"
    by (auto simp: bind_ok_Inr_iff stmt_Inr_iff)
  have un: "unrecorded db item" using Cons.prems(3) by simp
  obtain u where ia: "insert_attempt (expired_attempt pg u (rl_deliveryID item) item) db = Some db1"
    using insert_expired_inserts [OF Cons.prems(1) un _ i] by auto
  obtain d where d: "tfind dr_id (rl_deliveryID item) (deliveries db) = Some d"
    "dr_status d \<noteq> StatusProcessing" "dr_attempt_count d = rl_attempt item"
    using un by (auto simp: unrecorded_def)
  note fr = insert_attempt_frame [OF ia]
  have "rows_ok pg (rl_deliveryID ` set (item # items) - {rl_deliveryID item}) db1"
    using rows_ok_insert_attempt [OF Cons.prems(1) ia, of d] d tfind_SomeD [OF d(1)]
    by (simp add: expired_attempt_def)
  moreover have "rl_deliveryID ` set (item # items) - {rl_deliveryID item} = rl_deliveryID ` set items"
    using Cons.prems(2) by auto
  ultimately have "rows_ok pg (rl_deliveryID ` set items) db1" by simp
  then have "rows_ok pg {} db' \<and> deliveries db' = deliveries db1 \<and> events db' = events db1 \<and>
      endpoints db' = endpoints db1 \<and> set (attempts db1) \<subseteq> set (attempts db')"
    using Cons.prems(2,3) r fr by (intro Cons.IH) (auto simp: unrecorded_def)
  then show ?case using fr by auto
qed simp

lemma expired_rowsD:
  "d \<in> set (expired_rows now skip db) \<Longrightarrow> d \<in> set (deliveries db) \<and> lease_expired now skip d"
  unfolding expired_rows_def by (rule select_limitD)

lemma rows_ok_dist: "rows_ok pg M db \<Longrightarrow> distinct (map dr_id (deliveries db))"
  by (simp add: rows_ok_def schema_ok_def)

lemma recoverExpiredLeases_ok:
  assumes inv: "rows_ok pg {} db" and r: "recoverExpiredLeases pg io gen now skip db = Inr (n, db')"
  shows "rows_ok pg {} db'" and "events db' = events db" and "endpoints db' = endpoints db"
    and "dr_event_id ` set (deliveries db') = dr_event_id ` set (deliveries db)"
    and "set (attempts db) \<subseteq> set (attempts db')"
    and "tfind dr_id j (deliveries db') =
      (if j \<in> dr_id ` set (expired_rows now skip db)
       then map_option (recover_row now) (tfind dr_id j (deliveries db))
       else tfind dr_id j (deliveries db))"
proof -
  let ?rows = "expired_rows now skip db"
  obtain items db1 where items: "scan_recovered now ?rows = Some items"
    and up: "update_deliveries (map dr_id ?rows) (recover_row now) db = Some db1"
    and rec: "record_expired pg io gen 0 items db1 = Inr (n, db')"
    using r by (auto simp: recoverExpiredLeases_def Let_def bind_ok_Inr_iff stmt_Inr_iff scanned_Inr_iff)
  note la = scan_recovered_items [OF items]
  have ids: "map rl_deliveryID items = map dr_id ?rows" by (rule list_all2_item_ids [OF la])
  have dist: "distinct (map dr_id ?rows)"
    unfolding expired_rows_def by (rule distinct_map_select_limit [OF rows_ok_dist [OF inv]])
  have proc: "processing_row db k" if "k \<in> set (map dr_id ?rows)" for k
    using that tfind_key [OF rows_ok_dist [OF inv]]
    by (auto simp: processing_row_def lease_expired_def dest!: expired_rowsD)
  have up1: "rows_ok pg ({} \<union> set (map dr_id ?rows)) db1 \<and> events db1 = events db \<and>
      endpoints db1 = endpoints db \<and> attempts db1 = attempts db \<and>
      dr_event_id ` set (deliveries db1) = dr_event_id ` set (deliveries db)"
    by (rule rows_ok_update_deliveries [OF inv up dist proc])
  have tf: "tfind dr_id j (deliveries db1) =
      (if j \<in> set (map dr_id ?rows) then map_option (recover_row now) (tfind dr_id j (deliveries db))
       else tfind dr_id j (deliveries db))" for j
    by (rule update_deliveries_tfind [OF up dist])
  have un: "unrecorded db1 item" if "item \<in> set items" for item
  proof -
    obtain d where d: "d \<in> set ?rows" "item_of now d item"
      using list_all2_in_set2 [OF la \<open>item \<in> set items\<close>] by blast
    have "tfind dr_id (dr_id d) (deliveries db) = Some d"
      using expired_rowsD [OF d(1)] tfind_key [OF rows_ok_dist [OF inv]] by blast
    with d show ?thesis by (auto simp: unrecorded_def item_of_def tf)
  qed
  have "rl_deliveryID ` set items = {} \<union> set (map dr_id ?rows)" using ids by (metis Un_empty_left list.set_map)
  with up1 have "rows_ok pg (rl_deliveryID ` set items) db1" by simp
  from rows_ok_record_expired [OF this _ un rec] ids dist
  have fin: "rows_ok pg {} db' \<and> deliveries db' = deliveries db1 \<and> events db' = events db1 \<and>
      endpoints db' = endpoints db1 \<and> set (attempts db1) \<subseteq> set (attempts db')" by simp
  then show "rows_ok pg {} db'" and "events db' = events db" and "endpoints db' = endpoints db"
    and "dr_event_id ` set (deliveries db') = dr_event_id ` set (deliveries db)"
    and "set (attempts db) \<subseteq> set (attempts db')"
    using up1 by auto
  show "tfind dr_id j (deliveries db') =
      (if j \<in> dr_id ` set ?rows then map_option (recover_row now) (tfind dr_id j (deliveries db))
       else tfind dr_id j (deliveries db))"
    using fin tf [of j] by simp
qed

section \<open>Claim\<close>

lemma claim_candidate_SomeD:
  assumes "claim_candidate now skip db = Some c"
  shows "c \<in> set (deliveries db)" and "claimable now skip db c"
    and "\<And>d. d \<in> set (deliveries db) \<Longrightarrow> claimable now skip db d \<Longrightarrow>
      (dr_next_attempt_at c, dr_created_at c) \<le> (dr_next_attempt_at d, dr_created_at d)"
proof -
  obtain t where s: "select_limit (claimable now skip db) (\<lambda>d. (dr_next_attempt_at d, dr_created_at d)) 1
      (deliveries db) = c # t"
    using assms by (auto simp: claim_candidate_def split: list.splits)
  then have "c \<in> set (deliveries db) \<and> claimable now skip db c"
    by (intro select_limitD [where k = "\<lambda>d. (dr_next_attempt_at d, dr_created_at d)" and n = 1]) simp
  then show "c \<in> set (deliveries db)" and "claimable now skip db c" by auto
  show "(dr_next_attempt_at c, dr_created_at c) \<le> (dr_next_attempt_at d, dr_created_at d)"
    if "d \<in> set (deliveries db)" "claimable now skip db d" for d
    using select_limit_head_min [OF s that] .
qed

lemma claim_candidate_None_iff:
  "claim_candidate now skip db = None \<longleftrightarrow> (\<forall>d \<in> set (deliveries db). \<not> claimable now skip db d)"
  using select_limit_Nil_iff [of 1 "claimable now skip db" "\<lambda>d. (dr_next_attempt_at d, dr_created_at d)"
      "deliveries db"]
  by (auto simp: claim_candidate_def split: list.splits)

lemma claim_queryE:
  assumes "rows_ok pg M db" and "claim_query pg w newid l now skip db = Some (row, db')"
  obtains (none) "claim_candidate now skip db = None" "row = None" "db' = db"
  | (some) c tok v e where "claim_candidate now skip db = Some c" "pg_uuid pg newid = Some tok"
      "tfind dr_id (dr_id c) (deliveries db) = Some c"
      "update_delivery (dr_id c) (claim_row w tok l now) db = Some db'"
      "tfind vr_id (dr_event_id c) (events db) = Some v"
      "tfind er_id (dr_endpoint_id c) (endpoints db) = Some e"
      "row = Some (claim_row w tok l now c, v, e)"
proof (cases "claim_candidate now skip db")
  case None
  with assms(2) show ?thesis
    by (intro none) (auto simp: claim_query_def split: option.splits if_splits)
next
  case (Some c)
  note cd = claim_candidate_SomeD [OF Some]
  obtain tok where t: "pg_uuid pg newid = Some tok"
    and u: "update_delivery (dr_id c) (claim_row w tok l now) db = Some db'"
    using assms(2) Some by (auto simp: claim_query_def split: option.splits if_splits)
  have "tfind vr_id (dr_event_id c) (events db) \<noteq> None" "tfind er_id (dr_endpoint_id c) (endpoints db) \<noteq> None"
    using assms(1) cd(1) by (auto simp: rows_ok_def schema_ok_def list_all_iff tfind_None_iff)
  then obtain v e where ve: "tfind vr_id (dr_event_id c) (events db) = Some v"
    "tfind er_id (dr_endpoint_id c) (endpoints db) = Some e" by blast
  have "row = Some (claim_row w tok l now c, v, e)"
    using assms(2) Some t u ve by (simp add: claim_query_def split: if_splits)
  with Some t u ve show ?thesis
    using tfind_key [OF rows_ok_dist [OF assms(1)] cd(1)] by (intro some)
qed

lemma claim_row_sel [simp]:
  "dr_id (claim_row w t l now d) = dr_id d" "dr_status (claim_row w t l now d) = StatusProcessing"
  "dr_attempt_count (claim_row w t l now d) = dr_attempt_count d + 1"
  "dr_max_attempts (claim_row w t l now d) = dr_max_attempts d"
  "dr_locked_by (claim_row w t l now d) = Some w" "dr_lease_token (claim_row w t l now d) = Some t"
  "dr_endpoint_id (claim_row w t l now d) = dr_endpoint_id d"
  "dr_event_id (claim_row w t l now d) = dr_event_id d"
  by (simp_all add: claim_row_def)

lemma rows_ok_claim:
  assumes can: "canonical_uuid pg" and inv: "rows_ok pg {} db"
    and q: "claim_query pg w newid l now skip db = Some (row, db')"
  shows "rows_ok pg {} db'" and "events db' = events db"
    and "dr_event_id ` set (deliveries db') = dr_event_id ` set (deliveries db)"
    and "attempts db' = attempts db" and "endpoints db' = endpoints db"
proof -
  have "rows_ok pg {} db' \<and> events db' = events db \<and> attempts db' = attempts db \<and> endpoints db' = endpoints db \<and>
    dr_event_id ` set (deliveries db') = dr_event_id ` set (deliveries db)"
    using inv q
  proof (cases rule: claim_queryE)
    case none
    with inv show ?thesis by simp
  next
    case (some c tok v e)
    have clm: "claimable now skip db c" by (rule claim_candidate_SomeD [OF some(1)])
    have "0 \<le> dr_attempt_count c"
      using inv claim_candidate_SomeD(1) [OF some(1)]
      by (auto simp: rows_ok_def schema_ok_def list_all_iff check_delivery_def)
    have "rows_ok pg {} db'"
      by (rule rows_ok_update_delivery [OF inv some(4) _ some(3)])
        (use \<open>0 \<le> dr_attempt_count c\<close> clm some(2) can in \<open>auto simp: expected_log_def waiting_def claimable_def canonical_uuid_def\<close>)
    then show ?thesis using update_delivery_frame [OF some(4)] tupdate_same_events [OF some(4)] by simp
  qed
  then show "rows_ok pg {} db'" "events db' = events db" "attempts db' = attempts db"
    "endpoints db' = endpoints db"
    "dr_event_id ` set (deliveries db') = dr_event_id ` set (deliveries db)" by auto
qed

lemma claim_bodyE:
  assumes "claim_body pg io gen now skipR skipC w lease db = Inr (j, db')"
  obtains n db1 row where "recoverExpiredLeases pg io gen now skipR db = Inr (n, db1)"
    and "claim_query pg w (gen n) (milliseconds lease) now skipC db1 = Some (row, db')"
    and "case row of None \<Rightarrow> j = None
      | Some (d, v, e) \<Rightarrow> (\<exists>x. scanJob d v e = Inr x \<and> j = Some x)"
proof -
  obtain n db1 where r: "recoverExpiredLeases pg io gen now skipR db = Inr (n, db1)"
    and c: "bind_ok (stmt io ''claim delivery'' (claim_query pg w (gen n) (milliseconds lease) now skipC db1))
       (\<lambda>(row, db2). case row of
          None \<Rightarrow> Inr (None, db2)
        | Some (d, v, e) \<Rightarrow>
           (case scanJob d v e of
              Inl err \<Rightarrow> Inl (WrapPrefix ''claim delivery'' err)
            | Inr j \<Rightarrow> Inr (Some j, db2))) = Inr (j, db')"
    using assms by (auto simp: claim_body_def elim!: bind_okE)
  then obtain row db2 where q: "claim_query pg w (gen n) (milliseconds lease) now skipC db1 = Some (row, db2)"
    and s: "(case row of
          None \<Rightarrow> Inr (None, db2)
        | Some (d, v, e) \<Rightarrow>
           (case scanJob d v e of
              Inl err \<Rightarrow> Inl (WrapPrefix ''claim delivery'' err)
            | Inr j \<Rightarrow> Inr (Some j, db2))) = Inr (j, db')"
    by (auto simp: stmt_Inr_iff elim!: bind_okE)
  have "db2 = db'" and "case row of None \<Rightarrow> j = None
      | Some (d, v, e) \<Rightarrow> (\<exists>x. scanJob d v e = Inr x \<and> j = Some x)"
    using s by (auto split: option.splits sum.splits)
  with r q show ?thesis by (intro that) auto
qed

lemma store_inv_same_events:
  assumes "rows_ok pg {} db'" and "events db' = events db"
    and "dr_event_id ` set (deliveries db') = dr_event_id ` set (deliveries db)" and "store_inv pg db"
  shows "store_inv pg db'"
  using assms by (simp add: store_inv_def events_have_delivery_def)

lemma store_inv_claim_body:
  assumes "canonical_uuid pg" and "store_inv pg db"
    and "claim_body pg io gen now skipR skipC w lease db = Inr (j, db')"
  shows "store_inv pg db'"
proof -
  from assms(3) obtain n db1 row where r: "recoverExpiredLeases pg io gen now skipR db = Inr (n, db1)"
    and q: "claim_query pg w (gen n) (milliseconds lease) now skipC db1 = Some (row, db')"
    by (rule claim_bodyE)
  have inv: "rows_ok pg {} db" using assms(2) by (simp add: store_inv_def)
  note rec = recoverExpiredLeases_ok [OF inv r]
  note clm = rows_ok_claim [OF assms(1) rec(1) q]
  show ?thesis by (rule store_inv_same_events [OF clm(1) _ _ assms(2)]) (use rec clm in auto)
qed

section \<open>Finish\<close>

lemma finish_row_sel [simp]:
  "dr_id (finish_row pg now r d) = dr_id d" "dr_attempt_count (finish_row pg now r d) = dr_attempt_count d"
  "dr_max_attempts (finish_row pg now r d) = dr_max_attempts d" "dr_lease_token (finish_row pg now r d) = None"
  "dr_status (finish_row pg now r d) =
     (if rs_Decision r = DecisionSucceed then StatusSucceeded
      else if rs_Decision r = DecisionRetry \<and> dr_attempt_count d < dr_max_attempts d then StatusRetrying
      else StatusDead)"
  by (simp_all add: finish_row_def)

lemma circuit_rows_keep_id [simp]:
  "keeps_endpoint_id (circuit_failure_row t c now)" "keeps_endpoint_id (circuit_success_row now)"
  "keeps_endpoint_id (disable_row now)"
  by (simp_all add: keeps_endpoint_id_def circuit_failure_row_def circuit_success_row_def disable_row_def)

text \<open>The circuit statement of \<^verbatim>\<open>FinishAttempt\<close>: no statement at all, or one endpoint update.\<close>

definition circuit_step :: "pg \<Rightarrow> time \<Rightarrow> AttemptResult \<Rightarrow> uuid \<Rightarrow> db \<Rightarrow> db \<Rightarrow> bool" where
  "circuit_step pg now r k db db' \<longleftrightarrow>
     (case rs_CircuitOutcome r of
        CircuitFailure \<Rightarrow> circuit_failure pg now r k db = Some db'
      | CircuitSuccess \<Rightarrow> circuit_success pg now k db = Some db'
      | _ \<Rightarrow> db' = db)"

lemma circuit_step_update:
  assumes "circuit_step pg now r k db db'"
  shows "db' = db \<or> (\<exists>f j. keeps_endpoint_id f \<and> pg_uuid pg k = Some j \<and> update_endpoint j f db = Some db')"
proof (cases "rs_CircuitOutcome r")
  case CircuitFailure
  with assms have "\<exists>j. pg_uuid pg k = Some j \<and> update_endpoint j
      (circuit_failure_row (rs_CircuitThreshold r) (milliseconds (rs_CircuitCooldown r)) now) db = Some db'"
    by (auto simp: circuit_step_def circuit_failure_def split: option.splits if_splits)
  then show ?thesis using circuit_rows_keep_id(1) by blast
next
  case CircuitSuccess
  with assms have "\<exists>j. pg_uuid pg k = Some j \<and> update_endpoint j (circuit_success_row now) db = Some db'"
    by (auto simp: circuit_step_def circuit_success_def split: option.splits)
  then show ?thesis using circuit_rows_keep_id(2) by blast
qed (use assms in \<open>auto simp: circuit_step_def\<close>)

lemma finish_updateE:
  assumes "finish_update pg now r db = Some (Some (st, epid), db')"
  obtains k tok d where "pg_uuid pg (rs_DeliveryID r) = Some k" "pg_uuid pg (rs_LeaseToken r) = Some tok"
    "find (holds_lease k (rs_WorkerID r) tok (rs_AttemptNumber r)) (deliveries db) = Some d"
    "update_delivery k (finish_row pg now r) db = Some db'"
    "st = dr_status (finish_row pg now r d)" "epid = dr_endpoint_id d"
  using assms
  by (auto simp: finish_update_def simp del: finish_row_sel split: option.splits if_splits)

lemma finish_bodyE:
  assumes "finish_body pg io gen now r db = Inr (st, db')"
  obtains k tok d db1 db2 where "pg_uuid pg (rs_DeliveryID r) = Some k" "pg_uuid pg (rs_LeaseToken r) = Some tok"
    "find (holds_lease k (rs_WorkerID r) tok (rs_AttemptNumber r)) (deliveries db) = Some d"
    "update_delivery k (finish_row pg now r) db = Some db1"
    "insert_result pg (gen 0) r db1 = Some db2"
    "circuit_step pg now r (dr_endpoint_id d) db2 db'"
    "st = dr_status (finish_row pg now r d)"
proof -
  obtain row db1 where u: "finish_update pg now r db = Some (row, db1)"
    and rest: "(case row of
       None \<Rightarrow> Inl (ErrVar ErrLeaseLost)
     | Some (st, endpointID) \<Rightarrow>
         bind_ok (stmt io ''record delivery attempt'' (insert_result pg (gen 0) r db1)) (\<lambda>db2.
         bind_ok (case rs_CircuitOutcome r of
             CircuitFailure \<Rightarrow> stmt io ''update endpoint circuit'' (circuit_failure pg now r endpointID db2)
           | CircuitSuccess \<Rightarrow> stmt io ''update endpoint circuit'' (circuit_success pg now endpointID db2)
           | _ \<Rightarrow> Inr db2) (\<lambda>db3.
         Inr (st, db3)))) = Inr (st, db')"
    using assms by (auto simp: finish_body_def stmt_Inr_iff elim!: bind_okE)
  then obtain epid where row: "row = Some (st, epid)"
    by (auto simp: bind_ok_Inr_iff split: option.splits)
  with rest obtain db2 where i: "insert_result pg (gen 0) r db1 = Some db2"
    and c: "(case rs_CircuitOutcome r of
             CircuitFailure \<Rightarrow> stmt io ''update endpoint circuit'' (circuit_failure pg now r epid db2)
           | CircuitSuccess \<Rightarrow> stmt io ''update endpoint circuit'' (circuit_success pg now epid db2)
           | _ \<Rightarrow> Inr db2) = Inr db'"
    by (auto simp: stmt_Inr_iff elim!: bind_okE)
  have c': "circuit_step pg now r epid db2 db'"
    using c by (simp add: circuit_step_def stmt_Inr_iff split: CircuitOutcome.splits)
  from u row obtain k tok d where "pg_uuid pg (rs_DeliveryID r) = Some k" "pg_uuid pg (rs_LeaseToken r) = Some tok"
    "find (holds_lease k (rs_WorkerID r) tok (rs_AttemptNumber r)) (deliveries db) = Some d"
    "update_delivery k (finish_row pg now r) db = Some db1"
    "st = dr_status (finish_row pg now r d)" "epid = dr_endpoint_id d"
    by (blast elim: finish_updateE)
  with i c' show ?thesis by (intro that) auto
qed

lemma find_holds_lease:
  assumes "find (holds_lease k w tok n) (deliveries db) = Some d"
  shows "d \<in> set (deliveries db)" and "holds_lease k w tok n d"
  using assms by (auto simp: find_Some_iff)

lemma insert_resultE:
  assumes "insert_result pg newid r db = Some db'" and "pg_uuid pg (rs_DeliveryID r) = Some k"
  obtains i where "pg_uuid pg newid = Some i" and "insert_attempt (result_attempt pg i k r) db = Some db'"
  using assms by (auto simp: insert_result_def split: option.splits if_splits)

lemma store_inv_finish_body:
  assumes inv: "store_inv pg db" and f: "finish_body pg io gen now r db = Inr (st, db')"
  shows "store_inv pg db'"
proof -
  from f obtain k tok d db1 db2 where k: "pg_uuid pg (rs_DeliveryID r) = Some k"
    and hold: "find (holds_lease k (rs_WorkerID r) tok (rs_AttemptNumber r)) (deliveries db) = Some d"
    and u: "update_delivery k (finish_row pg now r) db = Some db1"
    and i: "insert_result pg (gen 0) r db1 = Some db2"
    and c: "circuit_step pg now r (dr_endpoint_id d) db2 db'"
    by (rule finish_bodyE)
  have ok: "rows_ok pg {} db" using inv by (simp add: store_inv_def)
  note h = find_holds_lease [OF hold]
  have dk: "tfind dr_id k (deliveries db) = Some d"
    using h tfind_key [OF rows_ok_dist [OF ok] h(1)] by (simp add: holds_lease_def)
  have ok1: "rows_ok pg {k} db1"
    by (rule rows_ok_update_delivery [OF ok u _ dk])
      (use h in \<open>auto simp: expected_log_def waiting_def holds_lease_def split: if_splits\<close>)
  obtain a where ia: "insert_attempt (result_attempt pg a k r) db1 = Some db2"
    using insert_resultE [OF i k] by blast
  have "tfind dr_id k (deliveries db1) = Some (finish_row pg now r d)"
    using dk by (simp add: tfind_update_delivery [OF u])
  from tfind_SomeD [OF this] have "rows_ok pg ({k} - {k}) db2"
    using rows_ok_insert_attempt [OF ok1 ia, of "finish_row pg now r d"] h
    by (simp add: result_attempt_def holds_lease_def)
  then have ok2: "rows_ok pg {} db2" by simp
  have ev2: "events_have_delivery db2"
    using events_have_delivery_update [OF _ u] inv insert_attempt_frame [OF ia]
    by (simp add: store_inv_def events_have_delivery_def)
  from circuit_step_update [OF c] show ?thesis
    using ok2 ev2 rows_ok_update_endpoint events_have_delivery_update_endpoint
    unfolding store_inv_def by blast
qed

section \<open>Enqueue\<close>

lemma upsert_event_SomeD:
  assumes "upsert_event pg now p db = Some r"
  obtains i k doc where "pg_uuid pg (pm_EventID p) = Some i" and "pg_uuid pg (pm_EndpointID p) = Some k"
    and "pg_jsonb pg (pm_Payload p) = Some doc"
    and "pg_text pg (pm_Type p)" and "pg_text pg (pm_IdempotencyKey p)"
  using assms unfolding upsert_event_def
  by (cases "pg_uuid pg (pm_EventID p)"; cases "pg_uuid pg (pm_EndpointID p)";
      cases "pg_jsonb pg (pm_Payload p)"; simp split: if_splits)

lemma upsert_eventE:
  assumes "upsert_event pg now p db = Some ((v, matches), db')"
  obtains (old) k doc where "pg_uuid pg (pm_EndpointID p) = Some k" "pg_jsonb pg (pm_Payload p) = Some doc"
      "tfind event_key (k, pm_IdempotencyKey p) (events db) = Some v" "db' = db"
      "matches = (vr_event_type v = pm_Type p \<and> vr_payload v = doc)"
  | (new) i k doc where "pg_uuid pg (pm_EventID p) = Some i" "pg_uuid pg (pm_EndpointID p) = Some k"
      "pg_jsonb pg (pm_Payload p) = Some doc"
      "tfind event_key (k, pm_IdempotencyKey p) (events db) = None"
      "v = \<lparr>vr_id = i, vr_endpoint_id = k, vr_event_type = pm_Type p, vr_payload = doc,
        vr_idempotency_key = pm_IdempotencyKey p, vr_created_at = now\<rparr>"
      "insert_event v db = Some db'" "matches"
proof -
  from assms obtain i k doc where r: "pg_uuid pg (pm_EventID p) = Some i"
    "pg_uuid pg (pm_EndpointID p) = Some k" "pg_jsonb pg (pm_Payload p) = Some doc"
    "pg_text pg (pm_Type p)" "pg_text pg (pm_IdempotencyKey p)"
    by (rule upsert_event_SomeD)
  show thesis
  proof (cases "tfind event_key (k, pm_IdempotencyKey p) (events db)")
    case None
    with assms r show ?thesis by (intro new [OF r(1) r(2) r(3)]) (auto simp: upsert_event_def Let_def)
  next
    case (Some w)
    with assms r show ?thesis by (intro old [OF r(2) r(3)]) (auto simp: upsert_event_def)
  qed
qed

lemma upsert_deliveryE:
  assumes "upsert_delivery pg now did evid epid m db = Some (d, db')"
  obtains (old) e where "pg_uuid pg evid = Some e" "tfind dr_event_id e (deliveries db) = Some d" "db' = db"
  | (new) i e k where "pg_uuid pg did = Some i" "pg_uuid pg evid = Some e" "pg_uuid pg epid = Some k"
      "tfind dr_event_id e (deliveries db) = None" "d = new_delivery i e k m now"
      "insert_delivery d db = Some db'"
  using assms by (auto simp: upsert_delivery_def Let_def split: option.splits)

lemma enqueue_bodyE:
  assumes "enqueue_body pg io now p db = Inr (q, db')"
  obtains k e v d db1 where "pg_uuid pg (pm_EndpointID p) = Some k"
    "tfind er_id k (endpoints db) = Some e" "er_disabled_at e = None"
    "upsert_event pg now p db = Some ((v, True), db1)"
    "upsert_delivery pg now (pm_DeliveryID p) (vr_id v) (pm_EndpointID p) (er_max_attempts e) db1 = Some (d, db')"
    "q = \<lparr>nq_Event = scan_event v, nq_Delivery = scanDelivery d, nq_Duplicate = (vr_id v \<noteq> pm_EventID p)\<rparr>"
proof -
  from assms obtain row where row: "stmt io ''lock endpoint''
      (map_option (\<lambda>k. tfind er_id k (endpoints db)) (pg_uuid pg (pm_EndpointID p))) = Inr row"
    and rest: "(case row of None \<Rightarrow> Inl (ErrVar EndpointErrNotFound)
      | Some e \<Rightarrow> if er_disabled_at e \<noteq> None then Inl (ErrVar EventErrEndpointDisabled)
        else bind_ok (stmt io ''upsert event'' (upsert_event pg now p db)) (\<lambda>((v, payloadMatches), db1).
          if \<not> payloadMatches then Inl (ErrVar EventErrIdempotencyConflict)
          else bind_ok (stmt io ''upsert delivery''
            (upsert_delivery pg now (pm_DeliveryID p) (vr_id v) (pm_EndpointID p) (er_max_attempts e) db1))
            (\<lambda>(d, db2). Inr (\<lparr>nq_Event = scan_event v, nq_Delivery = scanDelivery d,
              nq_Duplicate = (vr_id v \<noteq> pm_EventID p)\<rparr>, db2)))) = Inr (q, db')"
    unfolding enqueue_body_def by (rule bind_okE)
  from row obtain k where k: "pg_uuid pg (pm_EndpointID p) = Some k"
    and e: "row = tfind er_id k (endpoints db)" by (auto simp: stmt_Inr_iff)
  from rest obtain e where "row = Some e" and "er_disabled_at e = None"
    and rest: "bind_ok (stmt io ''upsert event'' (upsert_event pg now p db)) (\<lambda>((v, payloadMatches), db1).
          if \<not> payloadMatches then Inl (ErrVar EventErrIdempotencyConflict)
          else bind_ok (stmt io ''upsert delivery''
            (upsert_delivery pg now (pm_DeliveryID p) (vr_id v) (pm_EndpointID p) (er_max_attempts e) db1))
            (\<lambda>(d, db2). Inr (\<lparr>nq_Event = scan_event v, nq_Delivery = scanDelivery d,
              nq_Duplicate = (vr_id v \<noteq> pm_EventID p)\<rparr>, db2))) = Inr (q, db')"
    by (auto split: option.splits if_splits)
  with e have "tfind er_id k (endpoints db) = Some e" by simp
  from that [OF k this \<open>er_disabled_at e = None\<close>] rest show thesis
    by (auto simp: stmt_Inr_iff split: if_splits elim!: bind_okE)
qed

lemma insert_event_frame:
  "insert_event v db = Some db' \<Longrightarrow>
    events db' = events db @ [v] \<and> deliveries db' = deliveries db \<and> endpoints db' = endpoints db \<and>
    attempts db' = attempts db"
  by (auto simp: insert_event_def split: if_splits)

lemma insert_delivery_frame:
  "insert_delivery d db = Some db' \<Longrightarrow>
    deliveries db' = deliveries db @ [d] \<and> events db' = events db \<and> endpoints db' = endpoints db \<and>
    attempts db' = attempts db"
  by (auto simp: insert_delivery_def split: if_splits)

lemma rows_ok_insert_event:
  assumes "rows_ok pg M db" and "insert_event v db = Some db'" and "pg_uuid pg (vr_id v) = Some (vr_id v)"
  shows "rows_ok pg M db'"
proof -
  note fr = insert_event_frame [OF assms(2)]
  have "attempt_numbers db' = attempt_numbers db" using fr by (simp add: attempt_numbers_def fun_eq_iff)
  moreover have "schema_ok db'" using assms by (auto simp: rows_ok_def intro: schema_ok_insert_event)
  ultimately show ?thesis using assms fr
    by (auto simp: rows_ok_def claim_ok_def log_ok_def pair_ok_def ids_ok_def)
qed

lemma rows_ok_insert_delivery:
  assumes inv: "rows_ok pg M db" and ins: "insert_delivery (new_delivery i e k m now) db = Some db'"
    and v: "v \<in> set (events db)" "vr_id v = e" "vr_endpoint_id v = k" and i: "pg_uuid pg i = Some i"
    and M: "i \<notin> M"
  shows "rows_ok pg M db'"
proof -
  let ?d = "new_delivery i e k m now"
  note fr = insert_delivery_frame [OF ins]
  have new: "i \<notin> dr_id ` set (deliveries db)" and chk: "check_delivery ?d"
    using ins by (auto simp: insert_delivery_def new_delivery_def split: if_splits)
  have "\<forall>a \<in> set (attempts db). ar_delivery_id a \<noteq> i"
    using inv new by (auto simp: rows_ok_def schema_ok_def list_all_iff)
  then have "attempt_numbers db i = {}" by (auto simp: attempt_numbers_def)
  moreover have "attempt_numbers db' = attempt_numbers db" using fr by (simp add: attempt_numbers_def fun_eq_iff)
  moreover have "schema_ok db'" using inv ins by (auto simp: rows_ok_def intro: schema_ok_insert_delivery)
  moreover have "0 < m" using chk by (simp add: check_delivery_def new_delivery_def)
  ultimately show ?thesis using inv fr v i M
    by (auto simp: rows_ok_def claim_ok_def log_ok_def pair_ok_def ids_ok_def expected_log_def new_delivery_def)
qed

lemma store_inv_enqueue_body:
  assumes can: "canonical_uuid pg" and inv: "store_inv pg db" and b: "enqueue_body pg io now p db = Inr (q, db')"
  shows "store_inv pg db'"
proof -
  from b obtain k e v d db1 where k: "pg_uuid pg (pm_EndpointID p) = Some k"
    and "tfind er_id k (endpoints db) = Some e" and "er_disabled_at e = None"
    and ue: "upsert_event pg now p db = Some ((v, True), db1)"
    and ud: "upsert_delivery pg now (pm_DeliveryID p) (vr_id v) (pm_EndpointID p) (er_max_attempts e) db1 = Some (d, db')"
    by (rule enqueue_bodyE)
  have ok: "rows_ok pg {} db" and ev: "events_have_delivery db" using inv by (simp_all add: store_inv_def)
  have "rows_ok pg {} db1 \<and> v \<in> set (events db1) \<and> vr_endpoint_id v = k \<and>
      (\<forall>w \<in> set (events db1). w = v \<or> vr_id w \<in> dr_event_id ` set (deliveries db1))"
    using ue
  proof (cases rule: upsert_eventE)
    case (old k' doc)
    with ok ev k tfind_SomeD [OF old(3)] show ?thesis
      by (auto simp: events_have_delivery_def event_key_def)
  next
    case (new i k' doc)
    have "rows_ok pg {} db1" using can new
      by (intro rows_ok_insert_event [OF ok new(6)]) (auto simp: canonical_uuid_def)
    with insert_event_frame [OF new(6)] new k ev show ?thesis
      by (auto simp: events_have_delivery_def)
  qed
  then have ok1: "rows_ok pg {} db1" and v: "v \<in> set (events db1)" "vr_endpoint_id v = k"
    and ev1: "\<forall>w \<in> set (events db1). w = v \<or> vr_id w \<in> dr_event_id ` set (deliveries db1)" by auto
  have vid: "pg_uuid pg (vr_id v) = Some (vr_id v)" using ok1 v by (auto simp: rows_ok_def ids_ok_def)
  from ud show ?thesis
  proof (cases rule: upsert_deliveryE)
    case (old e')
    with vid have "vr_id v \<in> dr_event_id ` set (deliveries db1)" by (auto dest!: tfind_SomeD intro: rev_image_eqI)
    with ok1 ev1 old show ?thesis by (auto simp: store_inv_def events_have_delivery_def)
  next
    case (new i e' k')
    have "e' = vr_id v" "k' = k" using new k vid by auto
    moreover have "pg_uuid pg i = Some i" using can new by (auto simp: canonical_uuid_def)
    ultimately have "rows_ok pg {} db'"
      using rows_ok_insert_delivery [OF ok1 new(6) [unfolded new(5)] v(1)] v by simp
    moreover have "events_have_delivery db'"
      using ev1 insert_delivery_frame [OF new(6)] new(5) \<open>e' = vr_id v\<close>
      by (auto simp: events_have_delivery_def new_delivery_def)
    ultimately show ?thesis by (simp add: store_inv_def)
  qed
qed

section \<open>Replay and endpoints\<close>

lemma replay_bodyE:
  assumes "replay_body pg io now i db = Inr (x, db')"
  obtains k d e where "pg_uuid pg i = Some k" "tfind dr_id k (deliveries db) = Some d"
    "tfind er_id (dr_endpoint_id d) (endpoints db) = Some e" "er_disabled_at e = None"
    "dr_status d = StatusDead" "dr_max_attempts d \<le> max_int32 - er_max_attempts e"
    "update_delivery k (replay_row (dr_max_attempts d + er_max_attempts e) now) db = Some db'"
    "x = scanDelivery (replay_row (dr_max_attempts d + er_max_attempts e) now d)"
proof -
  from assms obtain k row where k: "pg_uuid pg i = Some k" and row: "row = tfind dr_id k (deliveries db)"
    and rest: "(case row of None \<Rightarrow> Inl (ErrVar DeliveryErrNotFound)
     | Some d \<Rightarrow>
        (case tfind er_id (dr_endpoint_id d) (endpoints db) of
           None \<Rightarrow> Inl (ErrVar DeliveryErrNotFound)
         | Some e \<Rightarrow>
            if er_disabled_at e \<noteq> None then Inl (ErrVar DeliveryErrEndpointDisabled)
            else if dr_status d \<noteq> StatusDead \<or> max_int32 - er_max_attempts e < dr_max_attempts d
              then Inl (ErrVar DeliveryErrNotReplayable)
            else
              (let limit = dr_max_attempts d + er_max_attempts e in
               bind_ok (stmt io ''replay delivery'' (update_delivery k (replay_row limit now) db)) (\<lambda>db'.
               Inr (scanDelivery (replay_row limit now d), db'))))) = Inr (x, db')"
    unfolding replay_body_def by (auto simp: stmt_Inr_iff elim!: bind_okE)
  then obtain d where d: "tfind dr_id k (deliveries db) = Some d" by (auto split: option.splits)
  with rest row obtain e where e: "tfind er_id (dr_endpoint_id d) (endpoints db) = Some e"
    by (auto split: option.splits)
  from k d e rest row show thesis
    by (intro that [of k d e]) (auto simp: Let_def stmt_Inr_iff split: if_splits elim!: bind_okE)
qed

lemma replay_row_sel [simp]:
  "dr_id (replay_row m now d) = dr_id d" "dr_attempt_count (replay_row m now d) = dr_attempt_count d"
  "dr_max_attempts (replay_row m now d) = m" "dr_lease_token (replay_row m now d) = dr_lease_token d"
  "dr_status (replay_row m now d) = StatusPending"
  by (simp_all add: replay_row_def)

lemma store_inv_replay_body:
  assumes inv: "store_inv pg db" and b: "replay_body pg io now i db = Inr (x, db')"
  shows "store_inv pg db'"
proof -
  from b obtain k d e where "pg_uuid pg i = Some k" and d: "tfind dr_id k (deliveries db) = Some d"
    and e: "tfind er_id (dr_endpoint_id d) (endpoints db) = Some e" and "er_disabled_at e = None"
    and dead: "dr_status d = StatusDead" and "dr_max_attempts d \<le> max_int32 - er_max_attempts e"
    and u: "update_delivery k (replay_row (dr_max_attempts d + er_max_attempts e) now) db = Some db'"
    by (rule replay_bodyE)
  have ok: "rows_ok pg {} db" using inv by (simp add: store_inv_def)
  have cd: "check_delivery d" and ce: "check_endpoint e"
    using ok tfind_SomeD [OF d] tfind_SomeD [OF e] by (auto simp: rows_ok_def schema_ok_def list_all_iff)
  have tok: "dr_lease_token d = None" using cd dead by (auto simp: check_delivery_def)
  have "rows_ok pg {} db'"
    by (rule rows_ok_update_delivery [OF ok u _ d])
      (use dead tok cd ce in \<open>auto simp: expected_log_def check_delivery_def check_endpoint_def\<close>)
  moreover have "events_have_delivery db'"
    using inv u by (auto simp: store_inv_def intro: events_have_delivery_update)
  ultimately show ?thesis by (simp add: store_inv_def)
qed

lemma store_inv_create:
  assumes can: "canonical_uuid pg" and inv: "store_inv pg db" and c: "create_query pg now value db = Some (x, db')"
  shows "store_inv pg db'"
proof -
  from c obtain i where i: "pg_uuid pg (ep_ID value) = Some i"
    and ins: "insert_endpoint (new_endpoint i value now) db = Some db'"
    by (auto simp: create_query_def Let_def split: option.splits if_splits)
  have db': "db' = db\<lparr>endpoints := endpoints db @ [new_endpoint i value now]\<rparr>"
    using ins by (auto simp: insert_endpoint_def split: if_splits)
  have "schema_ok db'" using inv ins by (auto simp: store_inv_def rows_ok_def intro: schema_ok_insert_endpoint)
  moreover have "pg_uuid pg i = Some i" using can i by (auto simp: canonical_uuid_def)
  ultimately show ?thesis using inv
    by (auto simp: db' store_inv_def rows_ok_def claim_ok_def log_ok_def pair_ok_def ids_ok_def
        events_have_delivery_def new_endpoint_def)
qed

lemma store_inv_disable:
  assumes inv: "store_inv pg db" and c: "disable_query pg now i db = Some (x, db')"
  shows "store_inv pg db'"
proof -
  from c obtain k where "update_endpoint k (disable_row now) db = Some db'"
    by (auto simp: disable_query_def split: option.splits)
  then show ?thesis using inv
    by (auto simp: store_inv_def intro: rows_ok_update_endpoint events_have_delivery_update_endpoint)
qed

end
