(* ===== verification/Systems.thy ===== *)
theory Systems
  imports Prelude
begin

text \<open>
  Transition systems and the three contracts the store is shown to meet: an invariant, a
  relation that every run respects, and a simulation of an abstract machine. The contracts are
  locales; \<open>Store_System\<close> interprets each on the store's step relation.
\<close>

inductive reachable :: "('s \<Rightarrow> bool) \<Rightarrow> ('s \<Rightarrow> 's \<Rightarrow> bool) \<Rightarrow> 's \<Rightarrow> bool"
  for init step where
  start: "init s \<Longrightarrow> reachable init step s"
| further: "reachable init step s \<Longrightarrow> step s t \<Longrightarrow> reachable init step t"

lemma reachable_rtranclp:
  assumes "step\<^sup>*\<^sup>* s t" and "reachable init step s"
  shows "reachable init step t"
  using assms by (induction rule: rtranclp_induct) (auto intro: reachable.further)

locale invariant_system =
  fixes init :: "'s \<Rightarrow> bool" and step :: "'s \<Rightarrow> 's \<Rightarrow> bool" and inv :: "'s \<Rightarrow> bool"
  assumes init_inv: "init s \<Longrightarrow> inv s"
    and step_inv: "inv s \<Longrightarrow> step s t \<Longrightarrow> inv t"
begin

lemma reachable_inv: "reachable init step s \<Longrightarrow> inv s"
  by (induction rule: reachable.induct) (auto intro: init_inv step_inv)

lemma steps_inv: "step\<^sup>*\<^sup>* s t \<Longrightarrow> inv s \<Longrightarrow> inv t"
  by (induction rule: rtranclp_induct) (auto intro: step_inv)

end

text \<open>A relation between earlier and later states, such as \<open>the log only grows\<close>.\<close>

locale history_system = invariant_system +
  fixes later :: "'s \<Rightarrow> 's \<Rightarrow> bool"
  assumes later_refl: "later s s"
    and later_trans: "later s t \<Longrightarrow> later t u \<Longrightarrow> later s u"
    and step_later: "inv s \<Longrightarrow> step s t \<Longrightarrow> later s t"
begin

lemma steps_later: "step\<^sup>*\<^sup>* s t \<Longrightarrow> inv s \<Longrightarrow> later s t"
  by (induction rule: rtranclp_induct)
    (auto intro: later_refl later_trans step_later steps_inv)

end

text \<open>
  A forward simulation: one concrete step is some number of abstract steps, possibly none.
\<close>

locale simulation = invariant_system +
  fixes abs :: "'s \<Rightarrow> 'a" and astep :: "'a \<Rightarrow> 'a \<Rightarrow> bool"
  assumes step_sim: "inv s \<Longrightarrow> step s t \<Longrightarrow> astep\<^sup>*\<^sup>* (abs s) (abs t)"
begin

lemma steps_sim: "step\<^sup>*\<^sup>* s t \<Longrightarrow> inv s \<Longrightarrow> astep\<^sup>*\<^sup>* (abs s) (abs t)"
  by (induction rule: rtranclp_induct) (auto intro: rtranclp_trans step_sim steps_inv)

end

end
