(* ===== verification/Lifecycle.thy ===== *)
theory Lifecycle
  imports Delivery
begin

text \<open>
  The abstract specification of one delivery: what the queue promises about it, without rows,
  leases, transactions or other deliveries. A delivery is born pending, an attempt begins and
  ends, a dead delivery can be replayed with a larger budget. \<open>Store_System\<close> shows that the
  store implements this machine.
\<close>

record life =
  lf_status :: status
  lf_count :: int
  lf_limit :: int
  lf_log :: "int set"

inductive life_step :: "life option \<Rightarrow> life option \<Rightarrow> bool" where
  born: "1 \<le> m \<Longrightarrow>
    life_step None (Some \<lparr>lf_status = StatusPending, lf_count = 0, lf_limit = m, lf_log = {}\<rparr>)"
| begins: "lf_status l = StatusPending \<or> lf_status l = StatusRetrying \<Longrightarrow> lf_count l < lf_limit l \<Longrightarrow>
    life_step (Some l) (Some (l\<lparr>lf_status := StatusProcessing, lf_count := lf_count l + 1\<rparr>))"
| succeeds: "lf_status l = StatusProcessing \<Longrightarrow>
    life_step (Some l) (Some (l\<lparr>lf_status := StatusSucceeded, lf_log := insert (lf_count l) (lf_log l)\<rparr>))"
| fails: "lf_status l = StatusProcessing \<Longrightarrow>
    s = StatusDead \<or> s = StatusRetrying \<and> lf_count l < lf_limit l \<Longrightarrow>
    life_step (Some l) (Some (l\<lparr>lf_status := s, lf_log := insert (lf_count l) (lf_log l)\<rparr>))"
| replayed: "lf_status l = StatusDead \<Longrightarrow> 1 \<le> k \<Longrightarrow>
    life_step (Some l) (Some (l\<lparr>lf_status := StatusPending, lf_limit := lf_limit l + k\<rparr>))"

inductive_cases life_step_SomeE: "life_step (Some l) x"
inductive_cases life_step_NoneE: "life_step x None"

section \<open>What the machine guarantees\<close>

lemma life_step_CanTransition:
  "life_step (Some l) (Some m) \<Longrightarrow> CanTransition (lf_status l) (lf_status m)"
  by (auto elim!: life_step_SomeE)

text \<open>Later states of the same delivery: counters and the log only grow, success is final.\<close>

definition life_later :: "life option \<Rightarrow> life option \<Rightarrow> bool" where
  "life_later x y \<longleftrightarrow>
     (case x of
        None \<Rightarrow> True
      | Some l \<Rightarrow>
         (case y of
            None \<Rightarrow> False
          | Some m \<Rightarrow> lf_count l \<le> lf_count m \<and> lf_limit l \<le> lf_limit m \<and> lf_log l \<subseteq> lf_log m \<and>
              (lf_status l = StatusSucceeded \<longrightarrow> m = l)))"

lemma life_later_refl: "life_later x x"
  by (simp add: life_later_def split: option.splits)

lemma life_later_trans: "life_later x y \<Longrightarrow> life_later y z \<Longrightarrow> life_later x z"
  by (fastforce simp: life_later_def split: option.splits)

lemma life_step_later: "life_step x y \<Longrightarrow> life_later x y"
  by (induction rule: life_step.induct) (auto simp: life_later_def)

lemma life_steps_later: "life_step\<^sup>*\<^sup>* x y \<Longrightarrow> life_later x y"
  by (induction rule: rtranclp_induct)
    (auto intro: life_later_refl life_later_trans life_step_later)

text \<open>The budget and the log of a delivery along every run of the machine.\<close>

definition life_ok :: "life option \<Rightarrow> bool" where
  "life_ok x \<longleftrightarrow>
     (case x of
        None \<Rightarrow> True
      | Some l \<Rightarrow>
         0 \<le> lf_count l \<and> lf_count l \<le> lf_limit l \<and>
         (lf_status l = StatusProcessing \<longrightarrow> 1 \<le> lf_count l) \<and>
         (lf_status l = StatusPending \<or> lf_status l = StatusRetrying \<longrightarrow> lf_count l < lf_limit l) \<and>
         lf_log l = {1 .. (if lf_status l = StatusProcessing then lf_count l - 1 else lf_count l)})"

lemma insert_upto: "1 \<le> n \<Longrightarrow> insert n {1 .. n - 1} = {1 .. (n::int)}"
  by auto

lemma life_ok_step: "life_step x y \<Longrightarrow> life_ok x \<Longrightarrow> life_ok y"
proof (induction rule: life_step.induct)
  case (fails l s)
  then show ?case by (elim disjE) (simp_all add: life_ok_def insert_upto)
qed (auto simp: life_ok_def insert_upto simp del: insert_subset)

lemma life_ok_steps: "life_step\<^sup>*\<^sup>* None y \<Longrightarrow> life_ok y"
  by (induction rule: rtranclp_induct) (auto simp: life_ok_def [of None] intro: life_ok_step)

end
