(* ===== verification/Store_System.thy ===== *)
theory Store_System
  imports Store_Invariant Systems Lifecycle "HOL-Library.Multiset"
begin

text \<open>
  The store as a transition system: any number of API servers and workers call its operations
  in any order, with any failures of the driver, and the database may keep the rows of a table
  in any order. Shown here: the invariant of \<open>Store_Invariant\<close> holds in every reachable
  state, every delivery follows the machine of \<open>Lifecycle\<close>, and events and attempts are never
  changed or lost.
\<close>

section \<open>The step relation\<close>

text \<open>Tables are unordered: rows may move between any two transactions.\<close>

definition reorder :: "db \<Rightarrow> db \<Rightarrow> bool" where
  "reorder db db' \<longleftrightarrow>
     mset (endpoints db') = mset (endpoints db) \<and> mset (events db') = mset (events db) \<and>
     mset (deliveries db') = mset (deliveries db) \<and> mset (attempts db') = mset (attempts db)"

inductive store_step :: "pg \<Rightarrow> db \<Rightarrow> db \<Rightarrow> bool" for pg where
  claim: "ClaimDelivery pg io gen now skipR skipC w lease db = (rc, db') \<Longrightarrow> store_step pg db db'"
| finish: "FinishAttempt pg io gen now r db = (rf, db') \<Longrightarrow> store_step pg db db'"
| enqueue: "EnqueueEvent pg io now p db = (re, db') \<Longrightarrow> store_step pg db db'"
| replay: "ReplayDelivery pg io now i db = (rr, db') \<Longrightarrow> store_step pg db db'"
| create: "CreateEndpoint pg io now ep db = (rp, db') \<Longrightarrow> store_step pg db db'"
| disable: "DisableEndpoint pg io now i db = (rd, db') \<Longrightarrow> store_step pg db db'"
| rows_move: "reorder db db' \<Longrightarrow> store_step pg db db'"

text \<open>
  What a step can do to the database, with the driver's failures resolved: nothing, the
  effect of one transaction body, or a reordering.
\<close>

lemma DisableEndpoint_cases:
  assumes "DisableEndpoint pg io now i db = (r, db')"
  obtains (old) "db' = db" | (new) x where "disable_query pg now i db = Some (x, db')"
proof -
  obtain r' where "run_auto io ''disable endpoint'' (disable_query pg now i db) db = (r', db')"
    using assms by (auto simp: DisableEndpoint_def split: prod.splits sum.splits option.splits)
  then show thesis by (cases rule: run_auto_cases) (auto intro: that)
qed

lemma store_step_bodies:
  assumes "store_step pg db db'"
  obtains (same) "db' = db"
  | (claim) io gen now skipR skipC w lease j where
      "claim_body pg io gen now skipR skipC w lease db = Inr (j, db')" "millisecond \<le> lease"
  | (finish) io gen now r st where "finish_body pg io gen now r db = Inr (st, db')"
      "validateAttemptResult r = None"
  | (enqueue) io now p q where "enqueue_body pg io now p db = Inr (q, db')"
  | (replay) io now i x where "replay_body pg io now i db = Inr (x, db')"
  | (create) now ep x where "create_query pg now ep db = Some (x, db')"
  | (disable) now i x where "disable_query pg now i db = Some (x, db')"
  | (rows_move) "reorder db db'"
  using assms
proof (cases rule: store_step.cases)
  case (claim io gen now skipR skipC w lease rc)
  then show ?thesis
    by (auto simp: ClaimDelivery_def Let_def not_less split: if_splits elim: run_tx_cases intro: that(1,2))
next
  case (finish io gen now r rf)
  then show ?thesis
    by (auto simp: FinishAttempt_def split: option.splits elim: run_tx_cases intro: that(1,3))
next
  case (enqueue io now p re)
  then show ?thesis unfolding EnqueueEvent_def by (cases rule: run_tx_cases) (auto intro: that(1,4))
next
  case (replay io now i rr)
  then show ?thesis unfolding ReplayDelivery_def by (cases rule: run_tx_cases) (auto intro: that(1,5))
next
  case (create io now ep rp)
  then show ?thesis unfolding CreateEndpoint_def by (cases rule: run_auto_cases) (auto intro: that(1,6))
next
  case (disable io now i rd)
  then show ?thesis by (cases rule: DisableEndpoint_cases) (auto intro: that(1,7))
qed (rule that(8))

section \<open>The invariant\<close>

lemma distinct_map_mset:
  assumes "mset ys = mset xs"
  shows "distinct (map f ys) = distinct (map f xs)"
  using assms by (metis mset_eq_imp_distinct_iff mset_map)

lemma reorder_sets:
  assumes "reorder db db'"
  shows "set (endpoints db') = set (endpoints db)" and "set (events db') = set (events db)"
    and "set (deliveries db') = set (deliveries db)" and "set (attempts db') = set (attempts db)"
  using assms by (auto simp: reorder_def dest: mset_eq_setD)

lemma store_inv_reorder:
  assumes "store_inv pg db" and "reorder db db'"
  shows "store_inv pg db'"
proof -
  note s = reorder_sets [OF assms(2)]
  have "schema_ok db'"
    using assms unfolding schema_ok_def store_inv_def rows_ok_def reorder_def
    by (simp add: s list_all_iff distinct_map_mset [of "endpoints db'" "endpoints db"]
        distinct_map_mset [of "events db'" "events db"]
        distinct_map_mset [of "deliveries db'" "deliveries db"]
        distinct_map_mset [of "attempts db'" "attempts db"])
  then show ?thesis using assms(1)
    by (simp add: store_inv_def rows_ok_def claim_ok_def log_ok_def pair_ok_def ids_ok_def
        events_have_delivery_def attempt_numbers_def s)
qed

lemma store_inv_empty: "store_inv pg empty_db"
  using schema_ok_empty
  by (simp add: store_inv_def rows_ok_def claim_ok_def log_ok_def pair_ok_def ids_ok_def
      events_have_delivery_def empty_db_def)

lemma store_inv_step:
  assumes "canonical_uuid pg" and "store_inv pg db" and "store_step pg db db'"
  shows "store_inv pg db'"
  using assms(3)
  by (cases rule: store_step_bodies)
    (use assms(1,2) in \<open>blast intro: store_inv_claim_body store_inv_finish_body store_inv_enqueue_body
      store_inv_replay_body store_inv_create store_inv_disable store_inv_reorder\<close>)+

abbreviation fresh_store :: "db \<Rightarrow> bool" where
  "fresh_store \<equiv> \<lambda>db. db = empty_db"

interpretation store: invariant_system
  fresh_store "store_step pg" "\<lambda>db. canonical_uuid pg \<longrightarrow> store_inv pg db" for pg
  by unfold_locales (auto simp: store_inv_empty intro: store_inv_step)

section \<open>Every delivery follows the lifecycle machine\<close>

text \<open>The abstraction: the row of a delivery and the attempt numbers of its log.\<close>

definition life_of :: "db \<Rightarrow> delivery_row \<Rightarrow> life" where
  "life_of db d =
     \<lparr>lf_status = dr_status d, lf_count = dr_attempt_count d, lf_limit = dr_max_attempts d,
      lf_log = attempt_numbers db (dr_id d)\<rparr>"

definition life_abs :: "uuid \<Rightarrow> db \<Rightarrow> life option" where
  "life_abs k db = map_option (life_of db) (tfind dr_id k (deliveries db))"

text \<open>In a state with the invariant the log is determined by the row.\<close>

definition life_row :: "delivery_row \<Rightarrow> life" where
  "life_row d =
     \<lparr>lf_status = dr_status d, lf_count = dr_attempt_count d, lf_limit = dr_max_attempts d,
      lf_log = expected_log {} d\<rparr>"

lemma life_abs_row:
  "rows_ok pg {} db \<Longrightarrow> life_abs k db = map_option life_row (tfind dr_id k (deliveries db))"
  by (auto simp: life_abs_def life_of_def life_row_def rows_ok_def log_ok_def
      dest!: tfind_SomeD intro!: option.map_cong)

lemma life_row_sel [simp]:
  "lf_status (life_row d) = dr_status d" "lf_count (life_row d) = dr_attempt_count d"
  "lf_limit (life_row d) = dr_max_attempts d" "lf_log (life_row d) = expected_log {} d"
  by (simp_all add: life_row_def)

lemma insert_last: "1 \<le> (n::int) \<Longrightarrow> insert n {1 .. n - 1} = {1 .. n}"
  by auto

lemma life_row_claim:
  assumes "waiting d" and "dr_attempt_count d < dr_max_attempts d"
  shows "life_step (Some (life_row d)) (Some (life_row (claim_row w t l now d)))"
proof -
  have "life_row (claim_row w t l now d) = (life_row d)\<lparr>lf_status := StatusProcessing,
      lf_count := lf_count (life_row d) + 1\<rparr>"
    using assms by (auto simp: life_row_def expected_log_def waiting_def)
  then show ?thesis using life_step.begins [of "life_row d"] assms by (simp add: waiting_def)
qed

text \<open>An attempt that ends: success, or failure with the status that the budget allows.\<close>

lemma life_row_ends:
  assumes "dr_status d = StatusProcessing" and "1 \<le> dr_attempt_count d"
    and "dr_id d' = dr_id d" "dr_attempt_count d' = dr_attempt_count d" "dr_max_attempts d' = dr_max_attempts d"
    and "dr_status d' = StatusSucceeded \<or> dr_status d' = StatusDead \<or>
      dr_status d' = StatusRetrying \<and> dr_attempt_count d < dr_max_attempts d"
  shows "life_step (Some (life_row d)) (Some (life_row d'))"
proof -
  have "life_row d' = (life_row d)\<lparr>lf_status := dr_status d',
      lf_log := insert (lf_count (life_row d)) (lf_log (life_row d))\<rparr>"
    using assms insert_last [OF assms(2)] by (auto simp: life_row_def expected_log_def)
  then show ?thesis
    using assms life_step.succeeds [of "life_row d"] life_step.fails [of "life_row d"] by auto
qed

lemma life_row_replay:
  assumes "dr_status d = StatusDead" and "1 \<le> k"
  shows "life_step (Some (life_row d)) (Some (life_row (replay_row (dr_max_attempts d + k) now d)))"
proof -
  have "life_row (replay_row (dr_max_attempts d + k) now d) = (life_row d)\<lparr>lf_status := StatusPending,
      lf_limit := lf_limit (life_row d) + k\<rparr>"
    using assms by (auto simp: life_row_def expected_log_def)
  then show ?thesis using assms life_step.replayed [of "life_row d" k] by simp
qed

lemma processing_count:
  assumes "rows_ok pg {} db" and "tfind dr_id k (deliveries db) = Some d" and "dr_status d = StatusProcessing"
  shows "1 \<le> dr_attempt_count d"
  using assms by (auto simp: rows_ok_def claim_ok_def dest!: tfind_SomeD)

text \<open>Updating one row by a step of the machine is a step of the database's abstraction.\<close>

lemma life_abs_update:
  assumes "rows_ok pg {} db" and "rows_ok pg {} db'"
    and tf: "tfind dr_id k (deliveries db') =
      (if P k then map_option f (tfind dr_id k (deliveries db)) else tfind dr_id k (deliveries db))"
    and st: "\<And>d. tfind dr_id k (deliveries db) = Some d \<Longrightarrow> P k \<Longrightarrow>
      life_step (Some (life_row d)) (Some (life_row (f d)))"
  shows "life_step\<^sup>*\<^sup>* (life_abs k db) (life_abs k db')"
proof (cases "tfind dr_id k (deliveries db)")
  case None
  then show ?thesis using assms by (simp add: life_abs_row)
next
  case (Some d)
  then show ?thesis using assms st [OF Some] by (auto simp: life_abs_row)
qed

lemma life_sim_claim:
  assumes can: "canonical_uuid pg" and inv: "store_inv pg db"
    and b: "claim_body pg io gen now skipR skipC w lease db = Inr (j, db')"
  shows "life_step\<^sup>*\<^sup>* (life_abs k db) (life_abs k db')"
proof -
  from b obtain n db1 row where r: "recoverExpiredLeases pg io gen now skipR db = Inr (n, db1)"
    and q: "claim_query pg w (gen n) (milliseconds lease) now skipC db1 = Some (row, db')"
    by (rule claim_bodyE)
  have ok: "rows_ok pg {} db" using inv by (simp add: store_inv_def)
  note rec = recoverExpiredLeases_ok [OF ok r]
  have ok': "rows_ok pg {} db'" by (rule rows_ok_claim [OF can rec(1) q])
  have "life_step\<^sup>*\<^sup>* (life_abs k db) (life_abs k db1)"
  proof (rule life_abs_update [OF ok rec(1) rec(6)])
    fix d assume d: "tfind dr_id k (deliveries db) = Some d" "k \<in> dr_id ` set (expired_rows now skipR db)"
    then have "dr_status d = StatusProcessing"
      using tfind_unique [OF rows_ok_dist [OF ok] d(1)] by (auto dest!: expired_rowsD simp: lease_expired_def)
    then show "life_step (Some (life_row d)) (Some (life_row (recover_row now d)))"
      using processing_count [OF ok d(1)] by (intro life_row_ends) auto
  qed
  also have "life_step\<^sup>*\<^sup>* (life_abs k db1) (life_abs k db')"
    using rec(1) q
  proof (cases rule: claim_queryE)
    case (some c tok v e)
    have clm: "claimable now skipC db1 c" by (rule claim_candidate_SomeD [OF some(1)])
    show ?thesis
      by (rule life_abs_update [where P = "\<lambda>k. k = dr_id c", OF rec(1) ok' tfind_update_delivery [OF some(4)]])
        (use clm some(3) in \<open>auto simp: claimable_def waiting_def intro: life_row_claim\<close>)
  qed simp
  finally show ?thesis .
qed

text \<open>The delivery rows after the other operations.\<close>

lemma finish_body_rows:
  assumes inv: "store_inv pg db" and b: "finish_body pg io gen now r db = Inr (st, db')"
  obtains j d where "pg_uuid pg (rs_DeliveryID r) = Some j" and "tfind dr_id j (deliveries db) = Some d"
    and "dr_status d = StatusProcessing" and "dr_attempt_count d = rs_AttemptNumber r"
    and "dr_locked_by d = Some (rs_WorkerID r)" and "dr_lease_token d = pg_uuid pg (rs_LeaseToken r)"
    and "st = dr_status (finish_row pg now r d)"
    and "\<And>k. tfind dr_id k (deliveries db') =
      (if k = j then map_option (finish_row pg now r) (tfind dr_id k (deliveries db))
       else tfind dr_id k (deliveries db))"
    and "events db' = events db" and "\<exists>i. attempts db' = attempts db @ [result_attempt pg i j r]"
proof -
  from b obtain k tok d db1 db2 where k: "pg_uuid pg (rs_DeliveryID r) = Some k"
    and tok: "pg_uuid pg (rs_LeaseToken r) = Some tok"
    and hold: "find (holds_lease k (rs_WorkerID r) tok (rs_AttemptNumber r)) (deliveries db) = Some d"
    and u: "update_delivery k (finish_row pg now r) db = Some db1"
    and i: "insert_result pg (gen 0) r db1 = Some db2"
    and c: "circuit_step pg now r (dr_endpoint_id d) db2 db'"
    and st: "st = dr_status (finish_row pg now r d)"
    by (rule finish_bodyE)
  have ok: "rows_ok pg {} db" using inv by (simp add: store_inv_def)
  note h = find_holds_lease [OF hold]
  have dk: "tfind dr_id k (deliveries db) = Some d"
    using h tfind_key [OF rows_ok_dist [OF ok] h(1)] by (simp add: holds_lease_def)
  obtain a where ia: "insert_attempt (result_attempt pg a k r) db1 = Some db2"
    using insert_resultE [OF i k] by blast
  have "deliveries db' = deliveries db2 \<and> events db' = events db2 \<and> attempts db' = attempts db2"
    using circuit_step_update [OF c] by (auto dest!: update_endpoint_eq)
  then have fr: "deliveries db' = deliveries db1" "events db' = events db"
    "attempts db' = attempts db @ [result_attempt pg a k r]"
    using insert_attempt_frame [OF ia] update_delivery_frame [OF u] by auto
  show ?thesis
    by (rule that [OF k dk]) (use h tok st fr tfind_update_delivery [OF u] in \<open>auto simp: holds_lease_def\<close>)
qed

lemma enqueue_body_rows:
  assumes "enqueue_body pg io now p db = Inr (q, db')"
  obtains (old) "deliveries db' = deliveries db" | (new) i e k m where
    "deliveries db' = deliveries db @ [new_delivery i e k m now]"
    "i \<notin> dr_id ` set (deliveries db)" "1 \<le> m"
proof -
  from assms obtain k e v d db1 where "pg_uuid pg (pm_EndpointID p) = Some k"
    and "tfind er_id k (endpoints db) = Some e" and "er_disabled_at e = None"
    and ue: "upsert_event pg now p db = Some ((v, True), db1)"
    and ud: "upsert_delivery pg now (pm_DeliveryID p) (vr_id v) (pm_EndpointID p) (er_max_attempts e) db1 = Some (d, db')"
    by (rule enqueue_bodyE)
  have d1: "deliveries db1 = deliveries db"
    using ue by (cases rule: upsert_eventE) (auto dest!: insert_event_frame)
  from ud show thesis
  proof (cases rule: upsert_deliveryE)
    case (new i e' k')
    then have "i \<notin> dr_id ` set (deliveries db1)" "1 \<le> er_max_attempts e"
      by (auto simp: insert_delivery_def check_delivery_def new_delivery_def split: if_splits)
    with insert_delivery_frame [OF new(6)] new d1 that(2) show ?thesis by simp
  qed (use d1 old in simp)
qed

lemma tfind_mset:
  assumes "distinct (map key xs)" and "mset ys = mset xs"
  shows "tfind key k ys = tfind key k xs"
proof -
  have "distinct (map key ys)" using assms distinct_map_mset by blast
  then have "tfind key k ys = Some r \<longleftrightarrow> tfind key k xs = Some r" for r
    using assms by (simp add: tfind_Some_iff mset_eq_setD [OF assms(2)])
  then show ?thesis by (metis option.exhaust)
qed

lemma reorder_tfind:
  assumes "rows_ok pg M db" and "reorder db db'"
  shows "tfind dr_id k (deliveries db') = tfind dr_id k (deliveries db)"
    and "tfind er_id k (endpoints db') = tfind er_id k (endpoints db)"
  using assms by (auto simp: reorder_def rows_ok_def schema_ok_def intro!: tfind_mset)

text \<open>Which table a statement on endpoints touches.\<close>

lemma endpoint_ops_frame:
  "create_query pg now ep db = Some (x, db') \<Longrightarrow>
    deliveries db' = deliveries db \<and> events db' = events db \<and> attempts db' = attempts db"
  "disable_query pg now i db = Some (y, db') \<Longrightarrow>
    deliveries db' = deliveries db \<and> events db' = events db \<and> attempts db' = attempts db"
  by (auto simp: create_query_def disable_query_def insert_endpoint_def Let_def
      split: option.splits if_splits dest!: update_endpoint_eq)

lemma life_abs_same:
  "rows_ok pg {} db \<Longrightarrow> rows_ok pg {} db' \<Longrightarrow>
    tfind dr_id k (deliveries db') = tfind dr_id k (deliveries db) \<Longrightarrow> life_abs k db' = life_abs k db"
  by (simp add: life_abs_row)

lemma life_sim_finish:
  assumes inv: "store_inv pg db" and ok': "rows_ok pg {} db'"
    and b: "finish_body pg io gen now r db = Inr (st, db')"
  shows "life_step\<^sup>*\<^sup>* (life_abs k db) (life_abs k db')"
proof -
  have ok: "rows_ok pg {} db" using inv by (simp add: store_inv_def)
  from inv b obtain j d where d: "tfind dr_id j (deliveries db) = Some d" "dr_status d = StatusProcessing"
    and tf: "\<And>k. tfind dr_id k (deliveries db') =
      (if k = j then map_option (finish_row pg now r) (tfind dr_id k (deliveries db))
       else tfind dr_id k (deliveries db))"
    by (rule finish_body_rows) blast
  show ?thesis
    by (rule life_abs_update [where P = "\<lambda>k. k = j", OF ok ok' tf])
      (use d processing_count [OF ok d] in \<open>auto intro!: life_row_ends split: if_splits\<close>)
qed

lemma life_sim_enqueue:
  assumes ok: "rows_ok pg {} db" and ok': "rows_ok pg {} db'"
    and b: "enqueue_body pg io now p db = Inr (q, db')"
  shows "life_step\<^sup>*\<^sup>* (life_abs k db) (life_abs k db')"
  using b
proof (cases rule: enqueue_body_rows)
  case old
  then show ?thesis using life_abs_same [OF ok ok'] by simp
next
  case (new i e kk m)
  have "life_row (new_delivery i e kk m now) =
      \<lparr>lf_status = StatusPending, lf_count = 0, lf_limit = m, lf_log = {}\<rparr>"
    by (simp add: life_row_def new_delivery_def expected_log_def)
  moreover have "tfind dr_id k (deliveries db') =
      (if k = i then Some (new_delivery i e kk m now) else tfind dr_id k (deliveries db))"
    using new tfind_None_iff [of dr_id i "deliveries db"]
    by (auto simp: tfind_append tfind_Cons new_delivery_def split: option.splits)
  moreover have "tfind dr_id i (deliveries db) = None" using new by (simp add: tfind_None_iff)
  ultimately show ?thesis
    using new by (auto simp: life_abs_row [OF ok] life_abs_row [OF ok'] intro!: life_step.born)
qed

lemma life_sim_replay:
  assumes ok: "rows_ok pg {} db" and ok': "rows_ok pg {} db'"
    and b: "replay_body pg io now i db = Inr (x, db')"
  shows "life_step\<^sup>*\<^sup>* (life_abs k db) (life_abs k db')"
proof -
  from b obtain j d e where "pg_uuid pg i = Some j" and d: "tfind dr_id j (deliveries db) = Some d"
    and e: "tfind er_id (dr_endpoint_id d) (endpoints db) = Some e" and "er_disabled_at e = None"
    and dead: "dr_status d = StatusDead" and "dr_max_attempts d \<le> max_int32 - er_max_attempts e"
    and u: "update_delivery j (replay_row (dr_max_attempts d + er_max_attempts e) now) db = Some db'"
    by (rule replay_bodyE)
  have "1 \<le> er_max_attempts e"
    using ok tfind_SomeD [OF e] by (auto simp: rows_ok_def schema_ok_def list_all_iff check_endpoint_def)
  then show ?thesis
    by (intro life_abs_update [where P = "\<lambda>k. k = j", OF ok ok' tfind_update_delivery [OF u]])
      (use d dead in \<open>auto intro: life_row_replay\<close>)
qed

lemma life_sim_step:
  assumes can: "canonical_uuid pg" and inv: "store_inv pg db" and step: "store_step pg db db'"
  shows "life_step\<^sup>*\<^sup>* (life_abs k db) (life_abs k db')"
proof -
  have ok: "rows_ok pg {} db" using inv by (simp add: store_inv_def)
  have ok': "rows_ok pg {} db'" using store_inv_step [OF assms] by (simp add: store_inv_def)
  from step show ?thesis
  proof (cases rule: store_step_bodies)
    case (claim io gen now skipR skipC w lease j)
    show ?thesis by (rule life_sim_claim [OF can inv claim(1)])
  next
    case (finish io gen now r st)
    show ?thesis by (rule life_sim_finish [OF inv ok' finish(1)])
  next
    case (create now ep x)
    then show ?thesis using life_abs_same [OF ok ok'] endpoint_ops_frame(1) by simp
  next
    case (disable now i x)
    then show ?thesis using life_abs_same [OF ok ok'] endpoint_ops_frame(2) by simp
  next
    case rows_move
    then show ?thesis using life_abs_same [OF ok ok' reorder_tfind(1) [OF ok rows_move]] by simp
  qed (auto intro: life_sim_enqueue [OF ok ok'] life_sim_replay [OF ok ok'])
qed

interpretation lifecycle: simulation
  fresh_store "store_step pg" "\<lambda>db. canonical_uuid pg \<longrightarrow> store_inv pg db"
  "\<lambda>db. if canonical_uuid pg then life_abs k db else None" life_step for pg k
  by unfold_locales (auto intro: life_sim_step)

section \<open>Events and attempts are permanent\<close>

definition delivery_keys :: "db \<Rightarrow> (uuid \<times> uuid \<times> uuid) set" where
  "delivery_keys db = (\<lambda>d. (dr_id d, dr_event_id d, dr_endpoint_id d)) ` set (deliveries db)"

definition grows :: "db \<Rightarrow> db \<Rightarrow> bool" where
  "grows db db' \<longleftrightarrow> set (events db) \<subseteq> set (events db') \<and> set (attempts db) \<subseteq> set (attempts db') \<and>
     delivery_keys db \<subseteq> delivery_keys db'"

lemma delivery_keys_update:
  assumes "update_delivery k f db = Some db'" and "keeps_keys f"
  shows "delivery_keys db' = delivery_keys db"
  using assms(2) unfolding delivery_keys_def update_delivery_eq [OF assms(1)] keeps_keys_def
  by (simp add: tupdate_image_key)

lemma delivery_keys_update_deliveries:
  "update_deliveries ks f db = Some db' \<Longrightarrow> keeps_keys f \<Longrightarrow> delivery_keys db' = delivery_keys db"
  by (induction ks arbitrary: db) (auto simp: delivery_keys_update split: option.splits)

lemma delivery_keys_record_expired:
  assumes "record_expired pg io gen n items db = Inr (m, db')"
  shows "deliveries db' = deliveries db"
  using assms
proof (induction items arbitrary: n db)
  case (Cons item items)
  then obtain db1 where i: "insert_expired pg (gen n) item db = Some db1"
    and r: "record_expired pg io gen (Suc n) items db1 = Inr (m, db')"
    by (auto simp: bind_ok_Inr_iff stmt_Inr_iff)
  have "deliveries db1 = deliveries db"
    using i by (auto simp: insert_expired_def Let_def split: option.splits if_splits dest!: insert_attempt_frame)
  with Cons.IH [OF r] show ?case by simp
qed simp

lemma delivery_keys_recover:
  assumes "recoverExpiredLeases pg io gen now skip db = Inr (n, db')"
  shows "delivery_keys db' = delivery_keys db"
proof -
  obtain items db1 where
    up: "update_deliveries (map dr_id (expired_rows now skip db)) (recover_row now) db = Some db1"
    and rec: "record_expired pg io gen 0 items db1 = Inr (n, db')"
    using assms by (auto simp: recoverExpiredLeases_def Let_def bind_ok_Inr_iff stmt_Inr_iff scanned_Inr_iff)
  from delivery_keys_update_deliveries [OF up] delivery_keys_record_expired [OF rec] show ?thesis
    by (simp add: delivery_keys_def)
qed

lemma delivery_keys_claim:
  assumes "rows_ok pg {} db" and "claim_query pg w newid l now skip db = Some (row, db')"
  shows "delivery_keys db' = delivery_keys db"
  using assms by (cases rule: claim_queryE) (auto simp: delivery_keys_update)

lemma delivery_keys_finish:
  assumes "finish_body pg io gen now r db = Inr (st, db')"
  shows "delivery_keys db' = delivery_keys db"
proof -
  from assms obtain k tok d db1 db2 where k: "pg_uuid pg (rs_DeliveryID r) = Some k"
    and "pg_uuid pg (rs_LeaseToken r) = Some tok"
    and "find (holds_lease k (rs_WorkerID r) tok (rs_AttemptNumber r)) (deliveries db) = Some d"
    and u: "update_delivery k (finish_row pg now r) db = Some db1"
    and i: "insert_result pg (gen 0) r db1 = Some db2"
    and c: "circuit_step pg now r (dr_endpoint_id d) db2 db'"
    by (rule finish_bodyE)
  have "deliveries db2 = deliveries db1" using insert_resultE [OF i k] insert_attempt_frame by metis
  moreover have "deliveries db' = deliveries db2"
    using circuit_step_update [OF c] by (auto dest!: update_endpoint_eq)
  ultimately show ?thesis using delivery_keys_update [OF u] by (simp add: delivery_keys_def)
qed

lemma grows_enqueue:
  assumes "enqueue_body pg io now p db = Inr (q, db')"
  shows "grows db db'"
proof -
  from assms obtain k e v d db1 where "pg_uuid pg (pm_EndpointID p) = Some k"
    and "tfind er_id k (endpoints db) = Some e" and "er_disabled_at e = None"
    and ue: "upsert_event pg now p db = Some ((v, True), db1)"
    and ud: "upsert_delivery pg now (pm_DeliveryID p) (vr_id v) (pm_EndpointID p) (er_max_attempts e) db1 = Some (d, db')"
    by (rule enqueue_bodyE)
  from ue have "set (events db) \<subseteq> set (events db1)" "attempts db1 = attempts db" "deliveries db1 = deliveries db"
    by (auto elim!: upsert_eventE dest!: insert_event_frame)
  with ud show ?thesis
    by (auto simp: grows_def delivery_keys_def elim!: upsert_deliveryE dest!: insert_delivery_frame)
qed

lemma grows_step:
  assumes can: "canonical_uuid pg" and inv: "store_inv pg db" and step: "store_step pg db db'"
  shows "grows db db'"
proof -
  have ok: "rows_ok pg {} db" using inv by (simp add: store_inv_def)
  from step show ?thesis
  proof (cases rule: store_step_bodies)
    case (claim io gen now skipR skipC w lease j)
    from claim(1) obtain n db1 row where r: "recoverExpiredLeases pg io gen now skipR db = Inr (n, db1)"
      and q: "claim_query pg w (gen n) (milliseconds lease) now skipC db1 = Some (row, db')"
      by (rule claim_bodyE)
    note rec = recoverExpiredLeases_ok [OF ok r]
    show ?thesis
      using rec rows_ok_claim [OF can rec(1) q] delivery_keys_recover [OF r] delivery_keys_claim [OF rec(1) q]
      by (simp add: grows_def)
  next
    case (finish io gen now r st)
    from inv finish(1) have "events db' = events db" "set (attempts db) \<subseteq> set (attempts db')"
      by (auto elim: finish_body_rows)
    then show ?thesis using delivery_keys_finish [OF finish(1)] by (simp add: grows_def)
  next
    case (replay io now i x)
    then show ?thesis
      by (auto simp: grows_def delivery_keys_update elim!: replay_bodyE dest: update_delivery_frame)
  next
    case rows_move
    then show ?thesis by (simp add: grows_def reorder_sets delivery_keys_def)
  qed (use endpoint_ops_frame grows_enqueue in \<open>auto simp: grows_def delivery_keys_def\<close>)
qed

lemma grows_refl: "grows db db"
  by (simp add: grows_def)

lemma grows_trans: "grows a b \<Longrightarrow> grows b c \<Longrightarrow> grows a c"
  by (auto simp: grows_def)

interpretation records: history_system
  fresh_store "store_step pg" "\<lambda>db. canonical_uuid pg \<longrightarrow> store_inv pg db"
  "\<lambda>db db'. canonical_uuid pg \<longrightarrow> grows db db'" for pg
  by unfold_locales (auto intro: grows_refl grows_trans grows_step)

end
