(* ===== verification/Scenario.thy ===== *)
theory Scenario
  imports Store_System
begin

text \<open>
  One concrete run of the store, used to evaluate the theorems: an endpoint is created, an
  event is published, the delivery is claimed and fails once (which opens the circuit), or is
  discarded and replayed. The
  database parameters are instantiated by simple functions with the documented behaviour:
  identifiers are canonical texts, \<^verbatim>\<open>timestamptz\<close> keeps microseconds, a document is kept as it is.
\<close>

definition sample_pg :: pg where
  "sample_pg =
     \<lparr>pg_uuid = (\<lambda>s. if s = [] then None else Some s),
      pg_text = (\<lambda>s. utf8_valid s \<and> CHR 0x00 \<notin> set s),
      pg_time = (\<lambda>t. 1000 * (t div 1000)), pg_jsonb = Some\<rparr>"

definition sample_io :: io where
  "sample_io = (\<lambda>_. Works)"

definition sample_gen :: "nat \<Rightarrow> new_uuids" where
  "sample_gen k = (\<lambda>n. replicate (Suc n) (CHR ''x'') @ replicate k (CHR ''y''))"

definition sample_endpoint :: endpoint where
  "sample_endpoint =
     \<lparr>ep_ID = ''ep'', ep_Name = ''orders'', ep_URL = ''https://example.com/hook'',
      ep_SecretCiphertext = CHR 0x01 # ''xyYWJjt'', ep_Timeout = 5000000000, ep_MaxAttempts = 3,
      ep_ConsecutiveFailures = 0, ep_DisabledAt = None, ep_CircuitOpenUntil = None,
      ep_CreatedAt = 0, ep_UpdatedAt = 0\<rparr>"

definition sample_params :: EnqueueParams where
  "sample_params =
     \<lparr>pm_EventID = ''ev'', pm_DeliveryID = ''dl'', pm_EndpointID = ''ep'', pm_Type = ''order.created'',
      pm_Payload = ''{}'', pm_IdempotencyKey = ''k1''\<rparr>"

definition sample_result :: AttemptResult where
  "sample_result =
     \<lparr>rs_DeliveryID = ''dl'', rs_WorkerID = ''w1'', rs_LeaseToken = ''x'', rs_AttemptNumber = 1,
      rs_Decision = DecisionRetry, rs_StatusCode = Some 503, rs_ResponseBody = ''busy'',
      rs_ErrorMessage = ''http status 503'', rs_Duration = 5 * millisecond,
      rs_StartedAt = 3000000000, rs_CompletedAt = 4000000000, rs_NextAttemptAt = 6000000000,
      rs_CircuitOutcome = CircuitFailure, rs_CircuitThreshold = 1, rs_CircuitCooldown = 30000000000\<rparr>"

definition sample_created :: db where
  "sample_created = snd (CreateEndpoint sample_pg sample_io second sample_endpoint empty_db)"

definition sample_enqueued :: db where
  "sample_enqueued = snd (EnqueueEvent sample_pg sample_io 2000000000 sample_params sample_created)"

definition sample_claimed :: db where
  "sample_claimed = snd (ClaimDelivery sample_pg sample_io (sample_gen 0) 3000000000
     (\<lambda>_. False) (\<lambda>_. False) ''w1'' 10000000000 sample_enqueued)"

definition sample_failed :: db where
  "sample_failed = snd (FinishAttempt sample_pg sample_io (sample_gen 1) 4000000000 sample_result
     sample_claimed)"

lemma canonical_sample: "canonical_uuid sample_pg"
  by (simp add: canonical_uuid_def sample_pg_def)

lemma sample_pg_sel [simp]:
  "pg_uuid sample_pg u = (if u = [] then None else Some u)" "pg_time sample_pg t = 1000 * (t div 1000)"
  "pg_jsonb sample_pg = Some"
  by (simp_all add: sample_pg_def)

lemma sample_text:
  "list_all (\<lambda>c. code c < 128 \<and> c \<noteq> CHR 0x00) s \<Longrightarrow> pg_text sample_pg s"
  by (auto simp: sample_pg_def list_all_iff intro: utf8_valid_ascii [unfolded list_all_iff])

lemma sample_texts [simp]:
  "pg_text sample_pg ''orders''" "pg_text sample_pg ''https://example.com/hook''"
  "pg_text sample_pg ''order.created''" "pg_text sample_pg ''k1''" "pg_text sample_pg ''w1''"
  "pg_text sample_pg ''busy''" "pg_text sample_pg ''http status 503''"
  "pg_text sample_pg ''delivery lease expired''"
  by (simp_all add: sample_text code_def)

lemma sample_io_works [simp]: "sample_io l = Works"
  by (simp add: sample_io_def)

lemma sample_stmt [simp]: "stmt sample_io l (Some x) = Inr x"
  by (simp add: stmt_def)

lemma trim_w1 [simp]: "trim_space ''w1'' = ''w1''" "trim_space ''dl'' = ''dl''" "trim_space ''x'' = ''x''"
  by (simp_all add: trim_space_graphic graphic_def code_def)

section \<open>The states of the run\<close>

definition sample_ep_row :: endpoint_row where
  "sample_ep_row = new_endpoint ''ep'' sample_endpoint second"

definition sample_ev_row :: event_row where
  "sample_ev_row =
     \<lparr>vr_id = ''ev'', vr_endpoint_id = ''ep'', vr_event_type = ''order.created'', vr_payload = ''{}'',
      vr_idempotency_key = ''k1'', vr_created_at = 2000000000\<rparr>"

definition sample_dl_row :: delivery_row where
  "sample_dl_row = new_delivery ''dl'' ''ev'' ''ep'' 3 2000000000"

lemma sample_created_eq:
  "CreateEndpoint sample_pg sample_io second sample_endpoint empty_db =
     (Inr (scanEndpoint sample_ep_row), sample_created)"
  "sample_created = empty_db\<lparr>endpoints := [sample_ep_row]\<rparr>"
proof -
  have "check_endpoint sample_ep_row"
    by (simp add: check_endpoint_def sample_ep_row_def new_endpoint_def sample_endpoint_def milliseconds_def
        sdiv_nonneg_eq_div)
  then have "CreateEndpoint sample_pg sample_io second sample_endpoint empty_db =
     (Inr (scanEndpoint sample_ep_row), empty_db\<lparr>endpoints := [sample_ep_row]\<rparr>)"
    by (simp add: CreateEndpoint_def run_auto_def create_query_def insert_endpoint_def empty_db_def
        sample_ep_row_def [symmetric] sample_endpoint_def [THEN arg_cong, of ep_ID]
        sample_endpoint_def [THEN arg_cong, of ep_Name] sample_endpoint_def [THEN arg_cong, of ep_URL])
  then show "CreateEndpoint sample_pg sample_io second sample_endpoint empty_db =
     (Inr (scanEndpoint sample_ep_row), sample_created)"
    and "sample_created = empty_db\<lparr>endpoints := [sample_ep_row]\<rparr>"
    by (simp_all add: sample_created_def)
qed

lemma sample_rows_sel [simp]:
  "er_id sample_ep_row = ''ep''" "er_disabled_at sample_ep_row = None" "er_max_attempts sample_ep_row = 3"
  "er_circuit_open_until sample_ep_row = None" "er_consecutive_failures sample_ep_row = 0"
  "vr_id sample_ev_row = ''ev''" "event_key sample_ev_row = (''ep'', ''k1'')"
  by (simp_all add: sample_ep_row_def sample_ev_row_def new_endpoint_def sample_endpoint_def event_key_def)

lemma sample_enqueued_eq:
  "sample_enqueued = \<lparr>endpoints = [sample_ep_row], events = [sample_ev_row],
     deliveries = [sample_dl_row], attempts = []\<rparr>"
  by (simp add: sample_enqueued_def EnqueueEvent_def run_tx_def enqueue_body_def sample_params_def
      sample_created_eq(2) empty_db_def tfind_Cons upsert_event_def Let_def insert_event_def event_key_def
      upsert_delivery_def insert_delivery_def sample_dl_row_def sample_ev_row_def check_delivery_def
      new_delivery_def)

definition sample_claimed_row :: delivery_row where
  "sample_claimed_row = claim_row ''w1'' ''x'' 10000 3000000000 sample_dl_row"

lemma sample_claimed_eq:
  "ClaimDelivery sample_pg sample_io (sample_gen 0) 3000000000 (\<lambda>_. False) (\<lambda>_. False) ''w1''
     10000000000 sample_enqueued =
   (Inr (Some \<lparr>jb_Delivery = scanDelivery sample_claimed_row, jb_Event = scan_event sample_ev_row,
       jb_Endpoint = scanEndpoint sample_ep_row\<rparr>), sample_claimed)"
  "sample_claimed = \<lparr>endpoints = [sample_ep_row], events = [sample_ev_row],
     deliveries = [sample_claimed_row], attempts = []\<rparr>"
proof -
  have rec: "recoverExpiredLeases sample_pg sample_io (sample_gen 0) 3000000000 (\<lambda>_. False) sample_enqueued =
      Inr (0, sample_enqueued)"
    by (simp add: recoverExpiredLeases_def sample_enqueued_eq expired_rows_def select_limit_def
        lease_expired_def sample_dl_row_def new_delivery_def scanned_def)
  have cand: "claim_candidate 3000000000 (\<lambda>_. False) sample_enqueued = Some sample_dl_row"
    by (simp add: claim_candidate_def select_limit_def claimable_def sample_enqueued_eq sample_dl_row_def
        new_delivery_def endpoint_open_def tfind_Cons)
  have "check_delivery sample_claimed_row"
    by (simp add: check_delivery_def sample_claimed_row_def claim_row_def sample_dl_row_def new_delivery_def)
  then have "claim_query sample_pg ''w1'' (sample_gen 0 0) (milliseconds 10000000000) 3000000000 (\<lambda>_. False)
      sample_enqueued = Some (Some (sample_claimed_row, sample_ev_row, sample_ep_row),
      \<lparr>endpoints = [sample_ep_row], events = [sample_ev_row], deliveries = [sample_claimed_row], attempts = []\<rparr>)"
    using cand by (simp add: claim_query_def sample_gen_def update_delivery_def sample_enqueued_eq tfind_Cons
        tupdate_def milliseconds_def sdiv_nonneg_eq_div sample_claimed_row_def [symmetric])
      (simp add: sample_dl_row_def new_delivery_def)
  then have "ClaimDelivery sample_pg sample_io (sample_gen 0) 3000000000 (\<lambda>_. False) (\<lambda>_. False) ''w1''
     10000000000 sample_enqueued =
   (Inr (Some \<lparr>jb_Delivery = scanDelivery sample_claimed_row, jb_Event = scan_event sample_ev_row,
       jb_Endpoint = scanEndpoint sample_ep_row\<rparr>), \<lparr>endpoints = [sample_ep_row], events = [sample_ev_row],
     deliveries = [sample_claimed_row], attempts = []\<rparr>)"
    by (simp add: ClaimDelivery_def Let_def run_tx_def claim_body_def rec scanJob_def)
      (simp add: sample_claimed_row_def)
  then show "ClaimDelivery sample_pg sample_io (sample_gen 0) 3000000000 (\<lambda>_. False) (\<lambda>_. False) ''w1''
     10000000000 sample_enqueued =
   (Inr (Some \<lparr>jb_Delivery = scanDelivery sample_claimed_row, jb_Event = scan_event sample_ev_row,
       jb_Endpoint = scanEndpoint sample_ep_row\<rparr>), sample_claimed)"
  and "sample_claimed = \<lparr>endpoints = [sample_ep_row], events = [sample_ev_row],
     deliveries = [sample_claimed_row], attempts = []\<rparr>"
    by (simp_all add: sample_claimed_def)
qed

definition sample_failed_row :: delivery_row where
  "sample_failed_row = finish_row sample_pg 4000000000 sample_result sample_claimed_row"

definition sample_failed_ep_row :: endpoint_row where
  "sample_failed_ep_row = circuit_failure_row 1 30000 4000000000 sample_ep_row"

definition sample_attempt_row :: attempt_row where
  "sample_attempt_row = result_attempt sample_pg ''xy'' ''dl'' sample_result"

lemma sample_result_valid: "validateAttemptResult sample_result = None"
  by (simp add: validateAttemptResult_def sample_result_def Evaluate_def)

lemma sample_claimed_row_sel [simp]:
  "dr_id sample_claimed_row = ''dl''" "dr_status sample_claimed_row = StatusProcessing"
  "dr_attempt_count sample_claimed_row = 1" "dr_max_attempts sample_claimed_row = 3"
  "dr_locked_by sample_claimed_row = Some ''w1''" "dr_lease_token sample_claimed_row = Some ''x''"
  "dr_endpoint_id sample_claimed_row = ''ep''" "dr_event_id sample_claimed_row = ''ev''"
  "dr_locked_until sample_claimed_row = Some 13000000000"
  by (simp_all add: sample_claimed_row_def claim_row_def sample_dl_row_def new_delivery_def)

lemma sample_result_sel [simp]:
  "rs_DeliveryID sample_result = ''dl''" "rs_WorkerID sample_result = ''w1''"
  "rs_LeaseToken sample_result = ''x''" "rs_AttemptNumber sample_result = 1"
  "rs_Decision sample_result = DecisionRetry" "rs_StatusCode sample_result = Some 503"
  "rs_ResponseBody sample_result = ''busy''" "rs_ErrorMessage sample_result = ''http status 503''"
  "rs_CircuitOutcome sample_result = CircuitFailure" "rs_CircuitThreshold sample_result = 1"
  "rs_CircuitCooldown sample_result = 30000000000" "rs_NextAttemptAt sample_result = 6000000000"
  by (simp_all add: sample_result_def)

lemma sample_failed_eq:
  "FinishAttempt sample_pg sample_io (sample_gen 1) 4000000000 sample_result sample_claimed =
     (Inr StatusRetrying, sample_failed)"
  "sample_failed = \<lparr>endpoints = [sample_failed_ep_row], events = [sample_ev_row],
     deliveries = [sample_failed_row], attempts = [sample_attempt_row]\<rparr>"
proof -
  have "check_delivery sample_failed_row"
    by (simp add: check_delivery_def sample_failed_row_def finish_row_def)
  then have u: "finish_update sample_pg 4000000000 sample_result sample_claimed =
      Some (Some (StatusRetrying, ''ep''), sample_claimed\<lparr>deliveries := [sample_failed_row]\<rparr>)"
    by (simp add: finish_update_def sample_claimed_eq(2) holds_lease_def update_delivery_def tfind_Cons
        tupdate_def sample_failed_row_def [symmetric])
      (simp add: sample_failed_row_def)
  have "check_attempt sample_attempt_row"
    by (simp add: check_attempt_def sample_attempt_row_def result_attempt_def sample_result_def
        durationMilliseconds_def milliseconds_def sdiv_nonneg_eq_div)
  then have i: "insert_result sample_pg (sample_gen 1 0) sample_result
      (sample_claimed\<lparr>deliveries := [sample_failed_row]\<rparr>) =
      Some (sample_claimed\<lparr>deliveries := [sample_failed_row], attempts := [sample_attempt_row]\<rparr>)"
    by (simp add: insert_result_def sample_gen_def insert_attempt_def sample_claimed_eq(2)
        sample_attempt_row_def [symmetric])
      (simp add: sample_attempt_row_def result_attempt_def sample_failed_row_def finish_row_def)
  have "check_endpoint sample_failed_ep_row"
    by (simp add: check_endpoint_def sample_failed_ep_row_def circuit_failure_row_def)
      (simp add: sample_ep_row_def new_endpoint_def sample_endpoint_def milliseconds_def sdiv_nonneg_eq_div)
  then have c: "circuit_failure sample_pg 4000000000 sample_result ''ep''
      (sample_claimed\<lparr>deliveries := [sample_failed_row], attempts := [sample_attempt_row]\<rparr>) =
      Some \<lparr>endpoints = [sample_failed_ep_row], events = [sample_ev_row],
     deliveries = [sample_failed_row], attempts = [sample_attempt_row]\<rparr>"
    by (simp add: circuit_failure_def update_endpoint_def sample_claimed_eq(2) tfind_Cons tupdate_def
        milliseconds_def sdiv_nonneg_eq_div sample_failed_ep_row_def [symmetric])
  have "FinishAttempt sample_pg sample_io (sample_gen 1) 4000000000 sample_result sample_claimed =
     (Inr StatusRetrying, \<lparr>endpoints = [sample_failed_ep_row], events = [sample_ev_row],
     deliveries = [sample_failed_row], attempts = [sample_attempt_row]\<rparr>)"
    by (simp add: FinishAttempt_def sample_result_valid run_tx_def finish_body_def u i [unfolded One_nat_def] c)
  then show "FinishAttempt sample_pg sample_io (sample_gen 1) 4000000000 sample_result sample_claimed =
     (Inr StatusRetrying, sample_failed)"
    and "sample_failed = \<lparr>endpoints = [sample_failed_ep_row], events = [sample_ev_row],
     deliveries = [sample_failed_row], attempts = [sample_attempt_row]\<rparr>"
    by (simp_all add: sample_failed_def)
qed

section \<open>A discarded delivery\<close>

definition sample_discard :: AttemptResult where
  "sample_discard = sample_result\<lparr>rs_Decision := DecisionDiscard, rs_StatusCode := Some 400,
     rs_CircuitOutcome := CircuitNone\<rparr>"

definition sample_dead :: db where
  "sample_dead = snd (FinishAttempt sample_pg sample_io (sample_gen 1) 4000000000 sample_discard sample_claimed)"

definition sample_dead_row :: delivery_row where
  "sample_dead_row = finish_row sample_pg 4000000000 sample_discard sample_claimed_row"

definition sample_dead_attempt :: attempt_row where
  "sample_dead_attempt = result_attempt sample_pg ''xy'' ''dl'' sample_discard"

lemma sample_discard_sel [simp]:
  "rs_DeliveryID sample_discard = ''dl''" "rs_WorkerID sample_discard = ''w1''"
  "rs_LeaseToken sample_discard = ''x''" "rs_AttemptNumber sample_discard = 1"
  "rs_Decision sample_discard = DecisionDiscard" "rs_StatusCode sample_discard = Some 400"
  "rs_ResponseBody sample_discard = ''busy''" "rs_ErrorMessage sample_discard = ''http status 503''"
  "rs_CircuitOutcome sample_discard = CircuitNone"
  by (simp_all add: sample_discard_def)

lemma sample_dead_eq:
  "FinishAttempt sample_pg sample_io (sample_gen 1) 4000000000 sample_discard sample_claimed =
     (Inr StatusDead, sample_dead)"
  "sample_dead = sample_claimed\<lparr>deliveries := [sample_dead_row], attempts := [sample_dead_attempt]\<rparr>"
proof -
  have v: "validateAttemptResult sample_discard = None"
    by (simp add: validateAttemptResult_def Evaluate_def) (simp add: sample_discard_def sample_result_def)
  have "check_delivery sample_dead_row"
    by (simp add: check_delivery_def sample_dead_row_def finish_row_def)
  then have u: "finish_update sample_pg 4000000000 sample_discard sample_claimed =
      Some (Some (StatusDead, ''ep''), sample_claimed\<lparr>deliveries := [sample_dead_row]\<rparr>)"
    by (simp add: finish_update_def sample_claimed_eq(2) holds_lease_def update_delivery_def tfind_Cons
        tupdate_def sample_dead_row_def [symmetric])
      (simp add: sample_dead_row_def)
  have "check_attempt sample_dead_attempt"
    by (simp add: check_attempt_def sample_dead_attempt_def result_attempt_def sample_discard_def sample_result_def
        durationMilliseconds_def milliseconds_def sdiv_nonneg_eq_div)
  then have i: "insert_result sample_pg (sample_gen 1 0) sample_discard
      (sample_claimed\<lparr>deliveries := [sample_dead_row]\<rparr>) =
      Some (sample_claimed\<lparr>deliveries := [sample_dead_row], attempts := [sample_dead_attempt]\<rparr>)"
    by (simp add: insert_result_def sample_gen_def insert_attempt_def sample_claimed_eq(2)
        sample_dead_attempt_def [symmetric])
      (simp add: sample_dead_attempt_def result_attempt_def sample_dead_row_def finish_row_def)
  have "FinishAttempt sample_pg sample_io (sample_gen 1) 4000000000 sample_discard sample_claimed =
     (Inr StatusDead, sample_claimed\<lparr>deliveries := [sample_dead_row], attempts := [sample_dead_attempt]\<rparr>)"
    by (simp add: FinishAttempt_def v run_tx_def finish_body_def u i [unfolded One_nat_def])
  then show "FinishAttempt sample_pg sample_io (sample_gen 1) 4000000000 sample_discard sample_claimed =
     (Inr StatusDead, sample_dead)"
    "sample_dead = sample_claimed\<lparr>deliveries := [sample_dead_row], attempts := [sample_dead_attempt]\<rparr>"
    by (simp_all add: sample_dead_def)
qed

definition sample_replayed :: db where
  "sample_replayed = snd (ReplayDelivery sample_pg sample_io 9000000000 ''dl'' sample_dead)"

lemma sample_replayed_eq:
  "\<exists>x. ReplayDelivery sample_pg sample_io 9000000000 ''dl'' sample_dead = (Inr x, sample_replayed)"
proof -
  have "check_delivery (replay_row 6 9000000000 sample_dead_row)"
    by (simp add: check_delivery_def replay_row_def sample_dead_row_def finish_row_def)
  moreover have "dr_max_attempts sample_dead_row = 3" "dr_status sample_dead_row = StatusDead"
    "dr_endpoint_id sample_dead_row = ''ep''" "dr_id sample_dead_row = ''dl''"
    by (simp_all add: sample_dead_row_def finish_row_def)
  ultimately show ?thesis
    by (simp add: sample_replayed_def ReplayDelivery_def run_tx_def replay_body_def sample_dead_eq(2)
        sample_claimed_eq(2) tfind_Cons update_delivery_def)
qed

section \<open>The run\<close>

lemma sample_steps:
  "store_step sample_pg empty_db sample_created" "store_step sample_pg sample_created sample_enqueued"
  "store_step sample_pg sample_enqueued sample_claimed" "store_step sample_pg sample_claimed sample_failed"
  using store_step.create [OF surjective_pairing] store_step.enqueue [OF surjective_pairing]
    store_step.claim [OF surjective_pairing] store_step.finish [OF surjective_pairing]
  by (simp_all only: sample_created_def sample_enqueued_def sample_claimed_def sample_failed_def)

lemma sample_reachable:
  "reachable fresh_store (store_step sample_pg) sample_created"
  "reachable fresh_store (store_step sample_pg) sample_enqueued"
  "reachable fresh_store (store_step sample_pg) sample_claimed"
  "reachable fresh_store (store_step sample_pg) sample_failed"
proof -
  show c: "reachable fresh_store (store_step sample_pg) sample_created"
    by (rule reachable.further [where step = "store_step sample_pg", OF _ sample_steps(1)]) (simp add: reachable.start)
  show e: "reachable fresh_store (store_step sample_pg) sample_enqueued"
    by (rule reachable.further [where step = "store_step sample_pg", OF c sample_steps(2)])
  show d: "reachable fresh_store (store_step sample_pg) sample_claimed"
    by (rule reachable.further [where step = "store_step sample_pg", OF e sample_steps(3)])
  show "reachable fresh_store (store_step sample_pg) sample_failed"
    by (rule reachable.further [where step = "store_step sample_pg", OF d sample_steps(4)])
qed

lemma sample_inv:
  "store_inv sample_pg sample_created" "store_inv sample_pg sample_enqueued"
  "store_inv sample_pg sample_claimed" "store_inv sample_pg sample_failed"
  using store.reachable_inv [where pg = sample_pg] canonical_sample sample_reachable by auto

lemma sample_step_dead: "store_step sample_pg sample_claimed sample_dead"
  by (rule store_step.finish [OF sample_dead_eq(1)])

lemma sample_inv_dead: "store_inv sample_pg sample_dead"
  by (rule store_inv_step [OF canonical_sample sample_inv(3) sample_step_dead])

end
