(* ===== verification/System_Properties.thy ===== *)
theory System_Properties
  imports Scenario
begin

text \<open>
  What holds in every run of the store, whatever the order of the calls and the failures of the
  driver. The hypothesis \<open>canonical_uuid\<close> is PostgreSQL's rule that the text of a \<^verbatim>\<open>uuid\<close>, read
  again, is the same value.
\<close>

text \<open>C2. Every state the store can reach satisfies the whole invariant: the schema's
  constraints, a gap-free attempt log, spare budget for every waiting delivery, and exactly one
  delivery for every event.\<close>

theorem reachable_store_inv:
  assumes "canonical_uuid pg" and "reachable fresh_store (store_step pg) db"
  shows "store_inv pg db"
  using store.reachable_inv [OF assms(2)] assms(1) by simp

theorem reachable_store_inv_witness:
  "canonical_uuid sample_pg \<and> reachable fresh_store (store_step sample_pg) sample_failed \<and>
    store_inv sample_pg sample_failed"
  using reachable_store_inv [OF canonical_sample sample_reachable(4)] canonical_sample sample_reachable(4)
  by simp

text \<open>C1. The store implements the lifecycle machine: along every run, each delivery only makes
  steps of the machine (begin an attempt, end it, be replayed), so in particular its status
  only moves along \<open>CanTransition\<close>, its counters and its log never shrink, and a success is
  final.\<close>

theorem delivery_follows_lifecycle:
  assumes "canonical_uuid pg" and "reachable fresh_store (store_step pg) db" and "(store_step pg)\<^sup>*\<^sup>* db db'"
  shows "life_step\<^sup>*\<^sup>* (life_abs k db) (life_abs k db') \<and> life_later (life_abs k db) (life_abs k db')"
proof -
  have "canonical_uuid pg \<longrightarrow> store_inv pg db" using store.reachable_inv [OF assms(2)] .
  from lifecycle.steps_sim [OF assms(3) this, of k] assms(1)
  have "life_step\<^sup>*\<^sup>* (life_abs k db) (life_abs k db')" by simp
  then show ?thesis using life_steps_later by blast
qed

lemma sample_run: "(store_step sample_pg)\<^sup>*\<^sup>* sample_enqueued sample_failed"
  using sample_steps(3,4) by (meson rtranclp.simps)

theorem delivery_follows_lifecycle_witness:
  "life_step\<^sup>*\<^sup>* (life_abs ''dl'' sample_enqueued) (life_abs ''dl'' sample_failed) \<and>
    life_later (life_abs ''dl'' sample_enqueued) (life_abs ''dl'' sample_failed)"
  by (rule delivery_follows_lifecycle [OF canonical_sample sample_reachable(2) sample_run])

text \<open>C23. Nothing recorded is ever changed or deleted: the events and attempts of a reachable
  state are all present in every later state, and every delivery keeps its event and its
  endpoint.\<close>

theorem records_are_permanent:
  assumes "canonical_uuid pg" and "reachable fresh_store (store_step pg) db" and "(store_step pg)\<^sup>*\<^sup>* db db'"
  shows "set (events db) \<subseteq> set (events db') \<and> set (attempts db) \<subseteq> set (attempts db') \<and>
    delivery_keys db \<subseteq> delivery_keys db'"
proof -
  have "canonical_uuid pg \<longrightarrow> store_inv pg db" using store.reachable_inv [OF assms(2)] .
  from records.steps_later [OF assms(3) this] assms(1) show ?thesis by (simp add: grows_def)
qed

theorem records_are_permanent_witness:
  "set (events sample_enqueued) \<subseteq> set (events sample_failed) \<and>
    set (attempts sample_enqueued) \<subseteq> set (attempts sample_failed) \<and>
    delivery_keys sample_enqueued \<subseteq> delivery_keys sample_failed"
  by (rule records_are_permanent [OF canonical_sample sample_reachable(2) sample_run])

section \<open>Reading a delivery\<close>

lemma get_bodyE:
  assumes "get_body pg io i db = Inr (dt, db')"
  obtains k d v where "pg_uuid pg i = Some k" and "tfind dr_id k (deliveries db) = Some d"
    and "tfind vr_id (dr_event_id d) (events db) = Some v" and "db' = db"
    and "dt = \<lparr>dt_Delivery = scanDelivery d, dt_Event = scan_event v,
      dt_Attempts = map scan_attempt (attempts_of k db)\<rparr>"
  using assms
  by (auto simp: get_body_def stmt_Inr_iff elim!: bind_okE split: option.splits)

lemma at_Number_scan [simp]: "at_Number \<circ> scan_attempt = ar_attempt_number"
  by (simp add: fun_eq_iff scan_attempt_def)

lemma sorted_distinct_upto:
  assumes "sorted xs" and "distinct xs" and "set xs = {1 .. n :: int}"
  shows "xs = [1 .. n]"
  using assms by (intro sorted_distinct_set_unique) auto

lemma attempts_of_numbers:
  assumes "rows_ok pg {} db" and "tfind dr_id k (deliveries db) = Some d"
  shows "map ar_attempt_number (attempts_of k db) =
    [1 .. (if dr_status d = StatusProcessing then dr_attempt_count d - 1 else dr_attempt_count d)]"
proof (rule sorted_distinct_upto)
  let ?mine = "filter (\<lambda>a. ar_delivery_id a = k) (attempts db)"
  have "distinct (map attempt_key ?mine)"
    using assms(1) by (simp add: rows_ok_def schema_ok_def distinct_map_filter)
  then have "distinct (map ar_attempt_number ?mine)"
    by (auto simp: distinct_map attempt_key_def inj_on_def)
  then show "distinct (map ar_attempt_number (attempts_of k db))"
    by (simp add: attempts_of_def distinct_map inj_on_def)
  show "sorted (map ar_attempt_number (attempts_of k db))"
    by (simp add: attempts_of_def)
  have "ar_attempt_number ` set ?mine = attempt_numbers db k" by (auto simp: attempt_numbers_def)
  also have "\<dots> = expected_log {} d"
    using assms tfind_SomeD [OF assms(2)] by (auto simp: rows_ok_def log_ok_def)
  finally show "set (map ar_attempt_number (attempts_of k db)) = {1 .. (if dr_status d = StatusProcessing
      then dr_attempt_count d - 1 else dr_attempt_count d)}"
    by (simp add: attempts_of_def expected_log_def)
qed

text \<open>C21. A reader of a delivery sees its complete history: \<open>GetDelivery\<close> changes nothing and
  returns the attempts numbered \<open>1, 2, ..., attempt count\<close> in order, the one in progress
  left out, together with the delivery's own event.\<close>

theorem GetDelivery_complete_history:
  assumes "canonical_uuid pg" and "reachable fresh_store (store_step pg) db"
    and "GetDelivery pg io i db = (Inr dt, db')"
  shows "db' = db \<and>
    map at_Number (dt_Attempts dt) = [1 .. (if dl_Status (dt_Delivery dt) = StatusProcessing
      then dl_AttemptCount (dt_Delivery dt) - 1 else dl_AttemptCount (dt_Delivery dt))] \<and>
    ev_ID (dt_Event dt) = dl_EventID (dt_Delivery dt) \<and>
    (\<forall>a \<in> set (dt_Attempts dt). at_DeliveryID a = dl_ID (dt_Delivery dt))"
proof -
  have ok: "rows_ok pg {} db" using store.reachable_inv [OF assms(2)] assms(1) by (simp add: store_inv_def)
  from run_tx_InrE(1) [OF assms(3) [unfolded GetDelivery_def]]
  obtain k d v where "pg_uuid pg i = Some k" and d: "tfind dr_id k (deliveries db) = Some d"
    and v: "tfind vr_id (dr_event_id d) (events db) = Some v" and "db' = db"
    and dt: "dt = \<lparr>dt_Delivery = scanDelivery d, dt_Event = scan_event v,
      dt_Attempts = map scan_attempt (attempts_of k db)\<rparr>"
    by (rule get_bodyE)
  moreover have "map at_Number (dt_Attempts dt) = map ar_attempt_number (attempts_of k db)"
    by (simp add: dt)
  ultimately show ?thesis
    using attempts_of_numbers [OF ok d] tfind_SomeD [OF d] tfind_SomeD [OF v]
    by (auto simp: scanDelivery_def scan_event_def attempts_of_def scan_attempt_def)
qed

theorem GetDelivery_complete_history_witness:
  "\<exists>dt. GetDelivery sample_pg sample_io ''dl'' sample_failed = (Inr dt, sample_failed) \<and>
    dl_AttemptCount (dt_Delivery dt) = 1 \<and> map at_Number (dt_Attempts dt) = [1]"
proof -
  obtain dt where g: "GetDelivery sample_pg sample_io ''dl'' sample_failed = (Inr dt, sample_failed)"
    and dt: "dl_AttemptCount (dt_Delivery dt) = 1" "dl_Status (dt_Delivery dt) = StatusRetrying"
    by (simp add: GetDelivery_def run_tx_def get_body_def sample_failed_eq(2) tfind_Cons sample_failed_row_def
        finish_row_def scanDelivery_def)
  from GetDelivery_complete_history [OF canonical_sample sample_reachable(4) g] g dt show ?thesis by auto
qed

text \<open>The budget is respected: a delivery never has more recorded attempts than its
  maximum, and its attempt counter never exceeds it either.\<close>

theorem attempts_within_budget:
  assumes "canonical_uuid pg" and "reachable fresh_store (store_step pg) db" and "d \<in> set (deliveries db)"
  shows "int (length (attempts_of (dr_id d) db)) \<le> dr_attempt_count d \<and>
    dr_attempt_count d \<le> dr_max_attempts d \<and> dr_max_attempts d \<le> max_int32"
proof -
  have ok: "rows_ok pg {} db" using store.reachable_inv [OF assms(2)] assms(1) by (simp add: store_inv_def)
  have c: "check_delivery d" using ok assms(3) by (auto simp: rows_ok_def schema_ok_def list_all_iff)
  have "length (attempts_of (dr_id d) db) = length (map ar_attempt_number (attempts_of (dr_id d) db))" by simp
  also have "\<dots> = nat (if dr_status d = StatusProcessing then dr_attempt_count d - 1 else dr_attempt_count d)"
    unfolding attempts_of_numbers [OF ok tfind_key [OF rows_ok_dist [OF ok] assms(3)]] by simp
  finally show ?thesis using c by (auto simp: check_delivery_def)
qed

theorem attempts_within_budget_witness:
  "sample_failed_row \<in> set (deliveries sample_failed) \<and>
    int (length (attempts_of (dr_id sample_failed_row) sample_failed)) \<le> dr_attempt_count sample_failed_row \<and>
    dr_attempt_count sample_failed_row \<le> dr_max_attempts sample_failed_row \<and>
    dr_max_attempts sample_failed_row \<le> max_int32"
proof -
  have "sample_failed_row \<in> set (deliveries sample_failed)" by (simp add: sample_failed_eq(2))
  with attempts_within_budget [OF canonical_sample sample_reachable(4) this] show ?thesis by simp
qed

end
