(* ===== verification/Webhook.thy ===== *)
theory Webhook
  imports Delivery Go_Strings
begin

text \<open>
  \<^verbatim>\<open>internal/webhook/signature.go\<close> and \<^verbatim>\<open>internal/webhook/dispatcher.go\<close>: signing a payload and
  delivering it once. HMAC-SHA256, the cipher, URL parsing and the HTTP exchange are parameters;
  the model returns the requests it sends along with the result.
\<close>

section \<open>signature.go\<close>

definition signed_message :: "int \<Rightarrow> string \<Rightarrow> bytes \<Rightarrow> bytes" where
  "signed_message timestamp deliveryID body =
     int_text timestamp @ ''.'' @ deliveryID @ ''.'' @ body"

definition Sign :: "(bytes \<Rightarrow> bytes \<Rightarrow> bytes) \<Rightarrow> bytes \<Rightarrow> int \<Rightarrow> string \<Rightarrow> bytes \<Rightarrow> string" where
  "Sign hmac secret timestamp deliveryID body =
     ''v1='' @ hex (hmac secret (signed_message timestamp deliveryID body))"

section \<open>dispatcher.go\<close>

datatype CircuitSignal = SignalNone | SignalFailure | SignalSuccess

record Request =
  rq_DeliveryID :: string
  rq_EventID :: string
  rq_EndpointID :: string
  rq_EventType :: string
  rq_TargetURL :: string
  rq_SecretCiphertext :: bytes
  rq_Payload :: bytes
  rq_Timeout :: duration

record Result =
  wr_Decision :: decision
  wr_StatusCode :: "int option"
  wr_ResponseBody :: string
  wr_ErrorMessage :: string
  wr_CircuitSignal :: CircuitSignal
  wr_Duration :: duration
  wr_StartedAt :: time
  wr_CompletedAt :: time

text \<open>The HTTP request as built, and the response: its status and its body, which yields some bytes
  and then ends or fails.\<close>

record http_request =
  hq_url :: string
  hq_header :: "(string \<times> string) list"
  hq_body :: bytes

record http_response =
  hr_status :: int
  hr_body :: bytes
  hr_error :: "go_error option"

record web_env =
  we_hmac :: "bytes \<Rightarrow> bytes \<Rightarrow> bytes"
  we_decrypt :: "bytes \<Rightarrow> bytes \<Rightarrow> (go_error, bytes) result"
  we_scheme :: "string \<Rightarrow> (go_error, string) result"
  we_do :: "http_request \<Rightarrow> (go_error, http_response) result"

record Dispatcher =
  ds_allowHTTP :: bool
  ds_responseLimit :: int

definition NewDispatcher :: "bool \<Rightarrow> int \<Rightarrow> Dispatcher" where
  "NewDispatcher allowHTTP limit =
     \<lparr>ds_allowHTTP = allowHTTP, ds_responseLimit = (if limit < 1 then 32768 else limit)\<rparr>"

definition replacement :: string where
  "replacement = map char_of [239, 191, 189 :: nat]"

definition maximumErrorLength :: nat where
  "maximumErrorLength = 2048"

definition circuitSignal :: "int \<Rightarrow> CircuitSignal" where
  "circuitSignal st =
     (if 500 \<le> st \<or> st = 408 then SignalFailure
      else if 100 \<le> st then SignalSuccess
      else SignalNone)"

definition validText :: "bytes \<Rightarrow> string" where
  "validText value = (if utf8_valid value then value else to_valid_utf8 value replacement)"

definition errorText :: "go_error \<Rightarrow> string" where
  "errorText err =
     (let result = to_valid_utf8 (error_text err) replacement
      in if maximumErrorLength < length result then take maximumErrorLength result else result)"

definition failed :: "time \<Rightarrow> time \<Rightarrow> decision \<Rightarrow> CircuitSignal \<Rightarrow> go_error \<Rightarrow> Result" where
  "failed startedAt completedAt decision signal err =
     \<lparr>wr_Decision = decision, wr_StatusCode = None, wr_ResponseBody = [], wr_ErrorMessage = errorText err,
      wr_CircuitSignal = signal, wr_Duration = time_sub completedAt startedAt,
      wr_StartedAt = startedAt, wr_CompletedAt = completedAt\<rparr>"

text \<open>\<^verbatim>\<open>io.ReadAll(io.LimitReader(body, n))\<close>: the bytes and the error that is not \<^verbatim>\<open>EOF\<close>.\<close>

definition read_limited :: "int \<Rightarrow> http_response \<Rightarrow> bytes \<times> go_error option" where
  "read_limited n r =
     (if n \<le> int (length (hr_body r)) then (take (nat n) (hr_body r), None)
      else (hr_body r, hr_error r))"

text \<open>\<^verbatim>\<open>Time.Unix\<close>, with the seconds from Go's zero time to 1970.\<close>

definition unix_seconds :: "time \<Rightarrow> int" where
  "unix_seconds t = t div second - 62135596800"

definition SecretContext :: "string \<Rightarrow> bytes" where
  "SecretContext i = ''relayforge:endpoint:'' @ i"

definition webhook_request :: "web_env \<Rightarrow> bytes \<Rightarrow> time \<Rightarrow> Request \<Rightarrow> http_request" where
  "webhook_request env secret startedAt input =
     (let timestamp = unix_seconds startedAt in
      \<lparr>hq_url = rq_TargetURL input,
       hq_header =
         [(''Content-Type'', ''application/json''),
          (''User-Agent'', ''RelayForge/1.0''),
          (''X-RelayForge-Delivery'', rq_DeliveryID input),
          (''X-RelayForge-Event-ID'', rq_EventID input),
          (''X-RelayForge-Event'', rq_EventType input),
          (''X-RelayForge-Timestamp'', int_text timestamp),
          (''X-RelayForge-Signature'',
            Sign (we_hmac env) secret timestamp (rq_DeliveryID input) (rq_Payload input))],
       hq_body = rq_Payload input\<rparr>)"

text \<open>\<^verbatim>\<open>Deliver\<close> reads the clock when it starts and when it has the result; the two readings are
  arguments. The requests it sends come first in the answer.\<close>

definition Deliver ::
  "web_env \<Rightarrow> Dispatcher \<Rightarrow> time \<Rightarrow> time \<Rightarrow> Request \<Rightarrow> http_request list \<times> Result" where
  "Deliver env d startedAt completedAt input =
     (case we_decrypt env (rq_SecretCiphertext input) (SecretContext (rq_EndpointID input)) of
        Inl err \<Rightarrow> ([], failed startedAt completedAt DecisionDiscard SignalNone
          (WrapPrefix ''decrypt endpoint secret'' err))
      | Inr secret \<Rightarrow>
         if rq_Timeout input \<le> 0 then
           ([], failed startedAt completedAt DecisionDiscard SignalNone
             (ErrNew ''endpoint timeout must be positive''))
         else
           (case we_scheme env (rq_TargetURL input) of
              Inl err \<Rightarrow> ([], failed startedAt completedAt DecisionDiscard SignalNone
                (WrapPrefix ''build webhook request'' err))
            | Inr scheme \<Rightarrow>
               if scheme \<noteq> ''https'' \<and> (\<not> ds_allowHTTP d \<or> scheme \<noteq> ''http'') then
                 ([], failed startedAt completedAt DecisionDiscard SignalNone
                   (ErrNew ''webhook target must use HTTPS''))
               else
                 (let request = webhook_request env secret startedAt input in
                  ([request],
                   case we_do env request of
                     Inl err \<Rightarrow> failed startedAt completedAt DecisionRetry SignalFailure
                       (WrapPrefix ''send webhook'' err)
                   | Inr response \<Rightarrow>
                      (case read_limited (wrap64 (ds_responseLimit d + 1)) response of
                         (body, readErr) \<Rightarrow>
                           \<lparr>wr_Decision = Evaluate (hr_status response) None,
                            wr_StatusCode = Some (hr_status response),
                            wr_ResponseBody = validText
                              (if ds_responseLimit d < int (length body)
                               then take (nat (ds_responseLimit d)) body else body),
                            wr_ErrorMessage = (case readErr of None \<Rightarrow> []
                              | Some e \<Rightarrow> errorText (WrapPrefix ''read webhook response'' e)),
                            wr_CircuitSignal = circuitSignal (hr_status response),
                            wr_Duration = time_sub completedAt startedAt,
                            wr_StartedAt = startedAt, wr_CompletedAt = completedAt\<rparr>)))))"

section \<open>Signatures\<close>

text \<open>Two texts without a dot, each followed by a dot.\<close>

lemma split_at_dot:
  assumes "a @ ''.'' @ x = b @ ''.'' @ y" and "CHR ''.'' \<notin> set a" and "CHR ''.'' \<notin> set b"
  shows "a = b \<and> x = y"
  using assms
proof (induction a arbitrary: b)
  case Nil
  then show ?case by (cases b) auto
next
  case (Cons c a)
  then show ?case by (cases b) auto
qed

text \<open>C29. The signature covers the timestamp, the delivery and the payload without ambiguity: the
  message that is authenticated determines all three (delivery identifiers contain no dot), so
  two equal signatures under one secret mean that everything is equal or that HMAC collides on
  two different messages.\<close>

theorem Sign_authenticates:
  assumes "Sign hmac secret t1 d1 b1 = Sign hmac secret t2 d2 b2"
    and "CHR ''.'' \<notin> set d1" and "CHR ''.'' \<notin> set d2"
  shows "t1 = t2 \<and> d1 = d2 \<and> b1 = b2 \<or>
    signed_message t1 d1 b1 \<noteq> signed_message t2 d2 b2 \<and>
    hmac secret (signed_message t1 d1 b1) = hmac secret (signed_message t2 d2 b2)"
proof (cases "signed_message t1 d1 b1 = signed_message t2 d2 b2")
  case True
  then have "int_text t1 = int_text t2 \<and> d1 @ ''.'' @ b1 = d2 @ ''.'' @ b2"
    unfolding signed_message_def using int_text_no_dot by (intro split_at_dot) simp_all
  then show ?thesis using split_at_dot [of d1 b1 d2 b2] assms(2,3) by (simp add: int_text_inject)
next
  case False
  then show ?thesis using assms(1) by (simp add: Sign_def hex_inject)
qed

theorem Sign_authenticates_witness:
  "Sign (\<lambda>k m. k @ m) ''s'' 7 ''d'' ''{}'' = Sign (\<lambda>k m. k @ m) ''s'' 7 ''d'' ''{}'' \<and>
   (7 = (7::int) \<and> ''d'' = ''d'' \<and> ''{}'' = ''{}'' \<or>
    signed_message 7 ''d'' ''{}'' \<noteq> signed_message 7 ''d'' ''{}'' \<and>
    ''s'' @ signed_message 7 ''d'' ''{}'' = ''s'' @ signed_message 7 ''d'' ''{}'')"
  using Sign_authenticates [of "\<lambda>k m. k @ m" "''s''" 7 "''d''" "''{}''" 7 "''d''" "''{}''"] by simp

section \<open>Results\<close>

lemma utf8_valid_replacement: "utf8_valid replacement"
  by (simp add: replacement_def utf8_valid_def bad_rune_def rune_error_def decode_rune.simps lead_def
      code_def cont_byte_def)

lemma utf8_valid_validText: "utf8_valid (validText s)"
  by (simp add: validText_def utf8_valid_to_valid_utf8 utf8_valid_replacement)

lemma length_validText: "length (validText s) \<le> 3 * length s"
  using length_to_valid_from [of replacement False s]
  by (simp add: validText_def to_valid_utf8_def replacement_def)

lemma length_errorText: "length (errorText e) \<le> maximumErrorLength"
  by (simp add: errorText_def Let_def)

text \<open>An error text that starts with a graphic character keeps it.\<close>

lemma errorText_keeps_head:
  assumes "error_text e = c # s" and "graphic c"
  shows "trim_space (errorText e) \<noteq> []"
proof -
  have "code c < 128" using assms(2) by (simp add: graphic_def)
  then have v: "to_valid_utf8 (error_text e) replacement = c # to_valid_from False replacement s"
    unfolding to_valid_utf8_def assms(1) by (rule to_valid_from_ascii)
  have "take maximumErrorLength (c # x) = c # take 2047 x" for x by (simp add: maximumErrorLength_def)
  then have "c \<in> set (errorText e)" by (simp add: errorText_def v Let_def)
  moreover have "\<forall>p \<in> set space_encodings. c \<notin> set p"
    using assms(2) by (auto simp: space_encodings_def graphic_def code_def)
  ultimately have "c \<in> set (trim_space (errorText e))" by (rule trim_space_keeps)
  then show ?thesis by auto
qed

lemma failed_sel [simp]:
  "wr_Decision (failed s c dec sig e) = dec" "wr_StatusCode (failed s c dec sig e) = None"
  "wr_ResponseBody (failed s c dec sig e) = []" "wr_ErrorMessage (failed s c dec sig e) = errorText e"
  "wr_CircuitSignal (failed s c dec sig e) = sig" "wr_Duration (failed s c dec sig e) = time_sub c s"
  "wr_StartedAt (failed s c dec sig e) = s" "wr_CompletedAt (failed s c dec sig e) = c"
  by (simp_all add: failed_def)

text \<open>The outcomes of \<^verbatim>\<open>Deliver\<close>.\<close>

lemma Deliver_cases:
  obtains (refused) err where "Deliver env d t u input = ([], failed t u DecisionDiscard SignalNone err)"
      "trim_space (errorText err) \<noteq> []"
  | (unsent) secret scheme err where "we_decrypt env (rq_SecretCiphertext input) (SecretContext (rq_EndpointID input)) = Inr secret"
      "0 < rq_Timeout input" "we_scheme env (rq_TargetURL input) = Inr scheme"
      "scheme = ''https'' \<or> ds_allowHTTP d \<and> scheme = ''http''"
      "Deliver env d t u input = ([webhook_request env secret t input], failed t u DecisionRetry SignalFailure err)"
      "trim_space (errorText err) \<noteq> []"
  | (answered) secret scheme response body readErr where
      "we_decrypt env (rq_SecretCiphertext input) (SecretContext (rq_EndpointID input)) = Inr secret"
      "0 < rq_Timeout input" "we_scheme env (rq_TargetURL input) = Inr scheme"
      "scheme = ''https'' \<or> ds_allowHTTP d \<and> scheme = ''http''"
      "we_do env (webhook_request env secret t input) = Inr response"
      "read_limited (wrap64 (ds_responseLimit d + 1)) response = (body, readErr)"
      "Deliver env d t u input = ([webhook_request env secret t input],
         \<lparr>wr_Decision = Evaluate (hr_status response) None, wr_StatusCode = Some (hr_status response),
          wr_ResponseBody = validText (if ds_responseLimit d < int (length body)
            then take (nat (ds_responseLimit d)) body else body),
          wr_ErrorMessage = (case readErr of None \<Rightarrow> []
            | Some e \<Rightarrow> errorText (WrapPrefix ''read webhook response'' e)),
          wr_CircuitSignal = circuitSignal (hr_status response), wr_Duration = time_sub u t,
          wr_StartedAt = t, wr_CompletedAt = u\<rparr>)"
proof -
  have head: "trim_space (errorText (WrapPrefix (c # s) e)) \<noteq> []" if "graphic c" for c s e
    using errorText_keeps_head [of "WrapPrefix (c # s) e" c] that by simp
  have head': "trim_space (errorText (ErrNew (c # s))) \<noteq> []" if "graphic c" for c s
    using errorText_keeps_head [of "ErrNew (c # s)" c] that by simp
  have g: "graphic CHR ''d''" "graphic CHR ''e''" "graphic CHR ''b''" "graphic CHR ''w''" "graphic CHR ''s''"
    by (simp_all add: graphic_def code_def)
  show thesis
  proof (cases "we_decrypt env (rq_SecretCiphertext input) (SecretContext (rq_EndpointID input))")
    case (Inl e)
    then show ?thesis using head [OF g(1)] by (intro refused) (auto simp: Deliver_def)
  next
    case dec: (Inr secret)
    show ?thesis
    proof (cases "0 < rq_Timeout input")
      case False
      then show ?thesis using dec head' [OF g(2)] by (intro refused) (auto simp: Deliver_def)
    next
      case timeout: True
      show ?thesis
      proof (cases "we_scheme env (rq_TargetURL input)")
        case (Inl e)
        then show ?thesis using dec timeout head [OF g(3)] by (intro refused) (auto simp: Deliver_def)
      next
        case sch: (Inr scheme)
        show ?thesis
        proof (cases "scheme = ''https'' \<or> ds_allowHTTP d \<and> scheme = ''http''")
          case False
          then show ?thesis using dec timeout sch head' [OF g(4)] by (intro refused) (auto simp: Deliver_def)
        next
          case ok: True
          show ?thesis
          proof (cases "we_do env (webhook_request env secret t input)")
            case (Inl e)
            then show ?thesis using dec timeout sch ok head [OF g(5)]
              by (intro unsent [OF dec timeout sch ok]) (auto simp: Deliver_def Let_def)
          next
            case (Inr response)
            obtain body readErr where rd: "read_limited (wrap64 (ds_responseLimit d + 1)) response = (body, readErr)"
              by fastforce
            show ?thesis
              by (rule answered [OF dec timeout sch ok Inr rd])
                (use dec timeout sch ok Inr rd in \<open>auto simp: Deliver_def Let_def\<close>)
          qed
        qed
      qed
    qed
  qed
qed

text \<open>C13. What is sent: at most one request, only after the endpoint's secret was decrypted and only to
  an HTTPS target (or HTTP where the configuration allows it); its body is the event's payload and
  its headers carry the timestamp and the signature of exactly that payload under that secret.\<close>

theorem Deliver_sends_signed:
  "length (fst (Deliver env d t u input)) \<le> 1 \<and>
   (\<forall>req \<in> set (fst (Deliver env d t u input)). \<exists>secret scheme.
      we_decrypt env (rq_SecretCiphertext input) (SecretContext (rq_EndpointID input)) = Inr secret \<and>
      we_scheme env (rq_TargetURL input) = Inr scheme \<and>
      (scheme = ''https'' \<or> ds_allowHTTP d \<and> scheme = ''http'') \<and>
      hq_url req = rq_TargetURL input \<and> hq_body req = rq_Payload input \<and>
      map_of (hq_header req) ''X-RelayForge-Timestamp'' = Some (int_text (unix_seconds t)) \<and>
      map_of (hq_header req) ''X-RelayForge-Signature'' =
        Some (Sign (we_hmac env) secret (unix_seconds t) (rq_DeliveryID input) (rq_Payload input)))"
proof (cases rule: Deliver_cases [of env d t u input])
  case (refused err)
  then show ?thesis by simp
next
  case (unsent secret scheme err)
  then show ?thesis by (auto simp: webhook_request_def Let_def)
next
  case (answered secret scheme response body readErr)
  then show ?thesis by (auto simp: webhook_request_def Let_def)
qed

definition sample_env :: web_env where
  "sample_env =
     \<lparr>we_hmac = (\<lambda>k m. k @ m), we_decrypt = (\<lambda>c a. Inr ''secret''),
      we_scheme = (\<lambda>u. Inr ''https''),
      we_do = (\<lambda>r. Inr \<lparr>hr_status = 204, hr_body = [], hr_error = None\<rparr>)\<rparr>"

definition sample_request :: Request where
  "sample_request =
     \<lparr>rq_DeliveryID = ''dl'', rq_EventID = ''ev'', rq_EndpointID = ''ep'', rq_EventType = ''order.created'',
      rq_TargetURL = ''https://example.com/hook'', rq_SecretCiphertext = ''sealed'', rq_Payload = ''{}'',
      rq_Timeout = 5 * second\<rparr>"

theorem Deliver_sends_signed_witness:
  "\<exists>req. fst (Deliver sample_env (NewDispatcher False 0) 5000000000 6000000000 sample_request) = [req] \<and>
    hq_body req = ''{}'' \<and> hq_url req = ''https://example.com/hook''"
proof -
  obtain req where r: "fst (Deliver sample_env (NewDispatcher False 0) 5000000000 6000000000 sample_request) = [req]"
    by (simp add: Deliver_def sample_env_def sample_request_def Let_def)
  with Deliver_sends_signed [of sample_env "NewDispatcher False 0" 5000000000 6000000000 sample_request]
  show ?thesis by (auto simp: sample_request_def)
qed

definition consistent_result :: "int \<Rightarrow> time \<Rightarrow> time \<Rightarrow> Result \<Rightarrow> bool" where
  "consistent_result limit t u w \<longleftrightarrow>
    (wr_StatusCode w = None \<longrightarrow> trim_space (wr_ErrorMessage w) \<noteq> [] \<and>
       (wr_Decision w = DecisionRetry \<and> wr_CircuitSignal w = SignalFailure \<or>
        wr_Decision w = DecisionDiscard \<and> wr_CircuitSignal w = SignalNone)) \<and>
    (\<forall>c. wr_StatusCode w = Some c \<longrightarrow>
       wr_Decision w = Evaluate c None \<and> wr_CircuitSignal w = circuitSignal c) \<and>
    utf8_valid (wr_ResponseBody w) \<and> int (length (wr_ResponseBody w)) \<le> 3 * limit \<and>
    length (wr_ErrorMessage w) \<le> 2048 \<and>
    wr_StartedAt w = t \<and> wr_CompletedAt w = u \<and> wr_Duration w = time_sub u t"

lemma Deliver_consistent:
  assumes "0 < ds_responseLimit d"
  shows "consistent_result (ds_responseLimit d) t u (snd (Deliver env d t u input))"
proof (cases rule: Deliver_cases [of env d t u input])
  case (refused err)
  then show ?thesis using assms length_errorText [of err]
    by (simp add: consistent_result_def maximumErrorLength_def)
next
  case (unsent secret scheme err)
  then show ?thesis using assms length_errorText [of err]
    by (simp add: consistent_result_def maximumErrorLength_def)
next
  case (answered secret scheme response body readErr)
  let ?b = "if ds_responseLimit d < int (length body) then take (nat (ds_responseLimit d)) body else body"
  have "int (length ?b) \<le> ds_responseLimit d" using assms by simp
  then have "int (length (validText ?b)) \<le> 3 * ds_responseLimit d" using length_validText [of ?b] by linarith
  moreover have "length (case readErr of None \<Rightarrow> [] | Some e \<Rightarrow> errorText (WrapPrefix ''read webhook response'' e)) \<le> 2048"
    using length_errorText by (simp add: maximumErrorLength_def split: option.splits)
  ultimately show ?thesis using answered(7) utf8_valid_validText by (simp add: consistent_result_def)
qed

text \<open>C27. Every result is consistent: without a status code there is an error text that is not blank
  and the decision is not success; with a status code the decision is the one of the retry policy
  and the circuit signal follows the status; the stored response is valid UTF-8 of bounded length
  and the error text has at most 2048 bytes.\<close>

theorem Deliver_result_consistent:
  assumes "0 < ds_responseLimit d"
  shows "let w = snd (Deliver env d t u input) in
    (wr_StatusCode w = None \<longrightarrow> trim_space (wr_ErrorMessage w) \<noteq> [] \<and>
       (wr_Decision w = DecisionRetry \<and> wr_CircuitSignal w = SignalFailure \<or>
        wr_Decision w = DecisionDiscard \<and> wr_CircuitSignal w = SignalNone)) \<and>
    (\<forall>c. wr_StatusCode w = Some c \<longrightarrow>
       wr_Decision w = Evaluate c None \<and> wr_CircuitSignal w = circuitSignal c) \<and>
    utf8_valid (wr_ResponseBody w) \<and> int (length (wr_ResponseBody w)) \<le> 3 * ds_responseLimit d \<and>
    length (wr_ErrorMessage w) \<le> 2048 \<and>
    wr_StartedAt w = t \<and> wr_CompletedAt w = u \<and> wr_Duration w = time_sub u t"
  using Deliver_consistent [OF assms] by (simp add: Let_def consistent_result_def)

theorem Deliver_result_consistent_witness:
  "let w = snd (Deliver sample_env (NewDispatcher False 0) 5000000000 6000000000 sample_request) in
    wr_StatusCode w = Some 204 \<and> wr_Decision w = Evaluate 204 None \<and> wr_CircuitSignal w = circuitSignal 204"
proof -
  have "wr_StatusCode (snd (Deliver sample_env (NewDispatcher False 0) 5000000000 6000000000 sample_request)) = Some 204"
    by (simp add: Deliver_def sample_env_def sample_request_def Let_def split: prod.splits)
  moreover have "0 < ds_responseLimit (NewDispatcher False 0)" by (simp add: NewDispatcher_def)
  ultimately show ?thesis
    using Deliver_result_consistent [of "NewDispatcher False 0" sample_env 5000000000 6000000000 sample_request]
    by (simp add: Let_def)
qed

text \<open>The error text can end inside a character: \<^verbatim>\<open>errorText\<close> first makes the text valid UTF-8 and
  then cuts it after 2048 bytes, so a long error whose byte 2048 is the first half of a character
  leaves a text that is not valid UTF-8 (which a \<^verbatim>\<open>text\<close> column refuses).\<close>

theorem errorText_can_split_character:
  "\<exists>e. utf8_valid (error_text e) \<and> \<not> utf8_valid (errorText e)"
proof
  let ?a = "replicate 2047 CHR ''a''"
  let ?e = "ErrNew (?a @ [char_of (195::nat), char_of (169::nat)])"
  have a: "utf8_valid ?a" by (rule utf8_valid_ascii) (simp add: list_all_iff code_def)
  have two: "utf8_valid [char_of (195::nat), char_of (169::nat)]" "\<not> utf8_valid [char_of (195::nat)]"
    by (simp_all add: utf8_valid_def bad_rune_def rune_error_def decode_rune.simps lead_def code_def)
  have "utf8_valid (error_text ?e)" using a two(1) by (simp add: utf8_valid_append)
  moreover have "errorText ?e = ?a @ [char_of (195::nat)]"
    using to_valid_utf8_id [OF calculation, of replacement]
    by (simp add: errorText_def Let_def maximumErrorLength_def)
  ultimately show "utf8_valid (error_text ?e) \<and> \<not> utf8_valid (errorText ?e)"
    using a two(2) by (simp add: utf8_valid_append)
qed

end
