(* ===== verification/Netip.thy ===== *)
theory Netip
  imports Prelude "HOL-Library.Word"
begin

text \<open>
  The part of Go's \<^verbatim>\<open>net/netip\<close> that \<^verbatim>\<open>internal/webhook/dialer.go\<close> uses: addresses with their
  classification and prefixes, on 32-bit and 128-bit words. An IPv6 address carries its zone,
  which takes part in comparisons, as in Go. The lemmas turn every test into membership in a
  prefix.
\<close>

unbundle bit_operations_syntax

section \<open>Addresses\<close>

datatype addr = AddrZero | Addr4 "32 word" | Addr6 "128 word" string

definition ipv4 :: "nat \<Rightarrow> nat \<Rightarrow> nat \<Rightarrow> nat \<Rightarrow> 32 word" where
  "ipv4 a b c d = of_nat (((a * 256 + b) * 256 + c) * 256 + d)"

text \<open>\<^verbatim>\<open>v4(i)\<close>: byte \<open>i\<close> of an IPv4 address, from the left.\<close>

definition v4 :: "32 word \<Rightarrow> nat \<Rightarrow> 32 word" where
  "v4 w i = take_bit 8 (drop_bit ((3 - i) * 8) w)"

fun IsValid :: "addr \<Rightarrow> bool" where
  "IsValid AddrZero = False"
| "IsValid _ = True"

fun Is4 :: "addr \<Rightarrow> bool" where
  "Is4 (Addr4 _) = True"
| "Is4 _ = False"

fun Is6 :: "addr \<Rightarrow> bool" where
  "Is6 (Addr6 _ _) = True"
| "Is6 _ = False"

fun Is4In6 :: "addr \<Rightarrow> bool" where
  "Is4In6 (Addr6 w _) = (drop_bit 32 w = 0xffff)"
| "Is4In6 _ = False"

fun Unmap :: "addr \<Rightarrow> addr" where
  "Unmap (Addr6 w z) = (if drop_bit 32 w = 0xffff then Addr4 (ucast w) else Addr6 w z)"
| "Unmap a = a"

definition IsUnspecified :: "addr \<Rightarrow> bool" where
  "IsUnspecified a \<longleftrightarrow> a = Addr4 0 \<or> a = Addr6 0 []"

definition IsMulticast :: "addr \<Rightarrow> bool" where
  "IsMulticast a =
     (case Unmap a of
        Addr4 w \<Rightarrow> v4 w 0 AND 0xf0 = 0xe0
      | Addr6 w _ \<Rightarrow> drop_bit 120 w = 0xff
      | AddrZero \<Rightarrow> False)"

definition IsLoopback :: "addr \<Rightarrow> bool" where
  "IsLoopback a =
     (case Unmap a of
        Addr4 w \<Rightarrow> v4 w 0 = 127
      | Addr6 w _ \<Rightarrow> w = 1
      | AddrZero \<Rightarrow> False)"

definition IsLinkLocalUnicast :: "addr \<Rightarrow> bool" where
  "IsLinkLocalUnicast a =
     (case Unmap a of
        Addr4 w \<Rightarrow> v4 w 0 = 169 \<and> v4 w 1 = 254
      | Addr6 w _ \<Rightarrow> drop_bit 112 w AND 0xffc0 = 0xfe80
      | AddrZero \<Rightarrow> False)"

definition IsPrivate :: "addr \<Rightarrow> bool" where
  "IsPrivate a =
     (case Unmap a of
        Addr4 w \<Rightarrow> v4 w 0 = 10 \<or> v4 w 0 = 172 \<and> v4 w 1 AND 0xf0 = 16 \<or> v4 w 0 = 192 \<and> v4 w 1 = 168
      | Addr6 w _ \<Rightarrow> drop_bit 120 w AND 0xfe = 0xfc
      | AddrZero \<Rightarrow> False)"

definition IsGlobalUnicast :: "addr \<Rightarrow> bool" where
  "IsGlobalUnicast a \<longleftrightarrow>
     a \<noteq> AddrZero \<and> a \<noteq> Addr4 0 \<and> a \<noteq> Addr4 0xffffffff \<and> a \<noteq> Addr6 0 [] \<and>
     \<not> IsLoopback a \<and> \<not> IsMulticast a \<and> \<not> IsLinkLocalUnicast a"

section \<open>Prefixes\<close>

type_synonym prefix = "addr \<times> nat"

fun Contains :: "prefix \<Rightarrow> addr \<Rightarrow> bool" where
  "Contains (Addr4 p, n) (Addr4 w) = (drop_bit (32 - n) (w XOR p) = 0)"
| "Contains (Addr6 p z, n) (Addr6 w zone) = (zone = [] \<and> drop_bit (128 - n) (w XOR p) = 0)"
| "Contains _ _ = False"

section \<open>Tests as prefixes\<close>

definition in4 :: "nat \<Rightarrow> 32 word \<Rightarrow> 32 word \<Rightarrow> bool" where
  "in4 n p w \<longleftrightarrow> unat w div 2 ^ (32 - n) = unat p div 2 ^ (32 - n)"

lemma xor_zero_iff: "a XOR b = 0 \<longleftrightarrow> a = (b :: 'a::len word)"
  by (auto simp: bit_eq_iff bit_xor_iff)

lemma Contains4_iff: "Contains (Addr4 p, n) (Addr4 w) = in4 n p w"
proof -
  have "drop_bit (32 - n) (w XOR p) = 0 \<longleftrightarrow> drop_bit (32 - n) w = drop_bit (32 - n) p"
    by (simp add: drop_bit_xor xor_zero_iff)
  also have "\<dots> \<longleftrightarrow> in4 n p w"
    unfolding in4_def word_unat_eq_iff unat_drop_bit_eq drop_bit_eq_div [where 'a = nat] ..
  finally show ?thesis by simp
qed

lemma unat_v4: "unat (v4 w i) = unat w div 2 ^ ((3 - i) * 8) mod 256"
  unfolding v4_def unsigned_take_bit_eq unat_drop_bit_eq drop_bit_eq_div [where 'a = nat]
    take_bit_eq_mod [where 'a = nat] by simp

lemma unat_bound4: "unat (w :: 32 word) < 4294967296"
  using unsigned_less [of w] by simp

lemma v4_eq_iff: "v4 w i = of_nat b \<longleftrightarrow> unat w div 2 ^ ((3 - i) * 8) mod 256 = b" if "b < 256" for b
proof -
  have "unat (of_nat b :: 32 word) = b" using that by (simp add: unat_of_nat)
  then show ?thesis by (metis unat_v4 word_unat_eq_iff)
qed

text \<open>Masking off the low bits.\<close>

lemma nat_and_high: "x < 2 ^ (k + m) \<Longrightarrow> x AND push_bit k (mask m) = 2 ^ k * (x div 2 ^ k)" for x :: nat
proof -
  assume x: "x < 2 ^ (k + m)"
  have "x AND push_bit k (mask m) = push_bit k (take_bit m (drop_bit k x))"
    by (auto simp: bit_eq_iff bit_simps)
  also have "\<dots> = 2 ^ k * (x div 2 ^ k mod 2 ^ m)"
    by (simp add: push_bit_eq_mult take_bit_eq_mod drop_bit_eq_div)
  also have "x div 2 ^ k < 2 ^ m" using x by (simp add: less_mult_imp_div_less power_add mult.commute)
  then have "2 ^ k * (x div 2 ^ k mod 2 ^ m) = 2 ^ k * (x div 2 ^ k)" by simp
  finally show ?thesis .
qed

lemma nat_and_f0: "x < 256 \<Longrightarrow> x AND 240 = 16 * (x div 16)" for x :: nat
  using nat_and_high [of x 4 4] by (simp add: push_bit_eq_mult mask_eq_exp_minus_1)

lemma v4_and_f0_iff:
  assumes "b < 16"
  shows "v4 w i AND 0xf0 = of_nat (16 * b) \<longleftrightarrow> unat w div 2 ^ ((3 - i) * 8) mod 256 div 16 = b"
proof -
  have "unat (v4 w i AND 0xf0) = unat (v4 w i) AND 240" by (simp add: unsigned_and_eq)
  also have "\<dots> = 16 * (unat (v4 w i) div 16)" by (rule nat_and_f0) (simp add: unat_v4)
  finally have u: "unat (v4 w i AND 0xf0) = 16 * (unat w div 2 ^ ((3 - i) * 8) mod 256 div 16)"
    by (simp add: unat_v4)
  have "unat (of_nat (16 * b) :: 32 word) = 16 * b" unfolding unat_of_nat using assms by simp
  with u show ?thesis by (metis mult_cancel1 word_unat_eq_iff zero_neq_numeral)
qed

lemma in4_ipv4:
  assumes "a < 256" "b < 256" "c < 256" "d < 256"
  shows "in4 n (ipv4 a b c d) w \<longleftrightarrow>
    unat w div 2 ^ (32 - n) = (((a * 256 + b) * 256 + c) * 256 + d) div 2 ^ (32 - n)"
proof -
  have "unat (ipv4 a b c d) = ((a * 256 + b) * 256 + c) * 256 + d"
    unfolding ipv4_def unat_of_nat using assms by simp
  then show ?thesis by (simp add: in4_def)
qed

text \<open>The classes of IPv4 addresses as prefixes.\<close>

lemma div_mod_iff: "m div k = a \<and> m mod k = b \<longleftrightarrow> m = a * k + b" if "b < k" for m k a b :: nat
proof
  assume "m div k = a \<and> m mod k = b"
  then show "m = a * k + b" using div_mult_mod_eq [of m k] by simp
qed (use that in simp)

lemma two_bytes:
  "m div 256 = 169 \<and> m mod 256 = 254 \<longleftrightarrow> m = 43518"
  "m div 256 = 192 \<and> m mod 256 = 168 \<longleftrightarrow> m = 49320"
  "m div 256 = 172 \<and> m mod 256 div 16 = 1 \<longleftrightarrow> m div 16 = 2753" for m :: nat
proof -
  show "m div 256 = 169 \<and> m mod 256 = 254 \<longleftrightarrow> m = 43518"
    and "m div 256 = 192 \<and> m mod 256 = 168 \<longleftrightarrow> m = 49320"
    by (subst div_mod_iff; simp)+
  have "m mod 256 div 16 = m div 16 mod 16"
    using mod_mult2_eq [of m 16 16] by simp
  moreover have "m div 256 = m div 16 div 16" by (simp only: div_mult2_eq [symmetric]) simp
  moreover have "m div 16 div 16 = 172 \<and> m div 16 mod 16 = 1 \<longleftrightarrow> m div 16 = 2753"
    by (subst div_mod_iff; simp)
  ultimately show "m div 256 = 172 \<and> m mod 256 div 16 = 1 \<longleftrightarrow> m div 16 = 2753" by simp
qed

lemma class4_iff:
  "IsLoopback (Addr4 w) \<longleftrightarrow> in4 8 (ipv4 127 0 0 0) w"
  "IsMulticast (Addr4 w) \<longleftrightarrow> in4 4 (ipv4 224 0 0 0) w"
  "IsLinkLocalUnicast (Addr4 w) \<longleftrightarrow> in4 16 (ipv4 169 254 0 0) w"
  "IsPrivate (Addr4 w) \<longleftrightarrow>
     in4 8 (ipv4 10 0 0 0) w \<or> in4 12 (ipv4 172 16 0 0) w \<or> in4 16 (ipv4 192 168 0 0) w"
proof -
  let ?n = "unat w" and ?m = "unat w div 65536"
  have n: "?n < 4294967296" by (rule unat_bound4)
  have d: "?n div 16777216 = ?m div 256" "?n div 1048576 = ?m div 16" "?n div 268435456 = ?m div 4096"
    by (simp_all add: div_mult2_eq [symmetric])
  have m: "?m < 65536" using n by (simp add: less_mult_imp_div_less)
  have q: "?m div 256 < 256" "?m div 256 div 16 = ?m div 4096"
    using m by (simp_all only: less_mult_imp_div_less div_mult2_eq [symmetric]) (simp_all add: less_mult_imp_div_less)
  have b0: "v4 w 0 = of_nat b \<longleftrightarrow> ?m div 256 = b" if "b < 256" for b
    using v4_eq_iff [OF that, of w 0] d m by (simp add: less_mult_imp_div_less)
  have b1: "v4 w 1 = of_nat b \<longleftrightarrow> ?m mod 256 = b" if "b < 256" for b
    using v4_eq_iff [OF that, of w 1] by simp
  have h0: "v4 w 0 AND 0xf0 = of_nat (16 * b) \<longleftrightarrow> ?m div 4096 = b" if "b < 16" for b
    using v4_and_f0_iff [OF that, of w 0] by (simp add: d(1) q)
  have h1: "v4 w 1 AND 0xf0 = of_nat (16 * b) \<longleftrightarrow> ?m mod 256 div 16 = b" if "b < 16" for b
    using v4_and_f0_iff [OF that, of w 1] by simp
  show "IsLoopback (Addr4 w) \<longleftrightarrow> in4 8 (ipv4 127 0 0 0) w"
    using b0 [of 127] by (simp add: IsLoopback_def in4_ipv4 d)
  show "IsMulticast (Addr4 w) \<longleftrightarrow> in4 4 (ipv4 224 0 0 0) w"
    using h0 [of 14] by (simp add: IsMulticast_def in4_ipv4 d)
  show "IsLinkLocalUnicast (Addr4 w) \<longleftrightarrow> in4 16 (ipv4 169 254 0 0) w"
    using b0 [of 169] b1 [of 254] two_bytes(1) [of ?m] by (simp add: IsLinkLocalUnicast_def in4_ipv4 d)
  show "IsPrivate (Addr4 w) \<longleftrightarrow>
     in4 8 (ipv4 10 0 0 0) w \<or> in4 12 (ipv4 172 16 0 0) w \<or> in4 16 (ipv4 192 168 0 0) w"
    using b0 [of 10] b0 [of 172] h1 [of 1] b0 [of 192] b1 [of 168] two_bytes(2,3) [of ?m]
    by (simp add: IsPrivate_def in4_ipv4 d)
qed

text \<open>The classes of IPv6 addresses as prefixes.\<close>

definition in6 :: "nat \<Rightarrow> 128 word \<Rightarrow> 128 word \<Rightarrow> bool" where
  "in6 n p w \<longleftrightarrow> drop_bit (128 - n) w = drop_bit (128 - n) p"

lemma unat_drop6: "unat (drop_bit n (w :: 128 word)) = unat w div 2 ^ n"
  unfolding unat_drop_bit_eq drop_bit_eq_div [where 'a = nat] ..

lemma unat_drop6_less: "n \<le> 128 \<Longrightarrow> unat (drop_bit n (w :: 128 word)) < 2 ^ (128 - n)"
proof -
  assume "n \<le> 128"
  then have "(2 ^ (128 - n) :: nat) * 2 ^ n = 2 ^ 128" by (simp only: power_add [symmetric]) simp
  moreover have "unat w < 2 ^ 128" using unsigned_less [of w, where 'a = nat] by simp
  ultimately show ?thesis unfolding unat_drop6 by (metis less_mult_imp_div_less)
qed

lemma class6_iff:
  assumes "drop_bit 32 w \<noteq> (0xffff :: 128 word)"
  shows "IsLoopback (Addr6 w z) \<longleftrightarrow> w = 1"
    "IsMulticast (Addr6 w z) \<longleftrightarrow> in6 8 (push_bit 120 0xff) w"
    "IsLinkLocalUnicast (Addr6 w z) \<longleftrightarrow> in6 10 (push_bit 112 0xfe80) w"
    "IsPrivate (Addr6 w z) \<longleftrightarrow> in6 7 (push_bit 120 0xfc) w"
proof -
  show "IsLoopback (Addr6 w z) \<longleftrightarrow> w = 1" using assms by (simp add: IsLoopback_def)
  show "IsMulticast (Addr6 w z) \<longleftrightarrow> in6 8 (push_bit 120 0xff) w"
    using assms by (simp add: IsMulticast_def in6_def)
  have "unat (drop_bit 112 w AND 0xffc0) = unat (drop_bit 112 w) AND 65472" by (simp add: unsigned_and_eq)
  also have "\<dots> = 64 * (unat (drop_bit 112 w) div 64)"
    using nat_and_high [of "unat (drop_bit 112 w)" 6 10] unat_drop6_less [of 112 w]
    by (simp add: push_bit_eq_mult mask_eq_exp_minus_1)
  also have "unat (drop_bit 112 w) div 64 = unat (drop_bit 118 w)"
    unfolding unat_drop6 by (simp add: div_mult2_eq [symmetric])
  finally have "drop_bit 112 w AND 0xffc0 = 0xfe80 \<longleftrightarrow> unat (drop_bit 118 w) = 1018"
    by (simp add: word_unat_eq_iff)
  also have "\<dots> \<longleftrightarrow> in6 10 (push_bit 112 0xfe80) w"
    by (simp add: in6_def word_unat_eq_iff)
  finally show "IsLinkLocalUnicast (Addr6 w z) \<longleftrightarrow> in6 10 (push_bit 112 0xfe80) w"
    using assms by (simp add: IsLinkLocalUnicast_def)
  have "unat (drop_bit 120 w AND 0xfe) = unat (drop_bit 120 w) AND 254" by (simp add: unsigned_and_eq)
  also have "\<dots> = 2 * (unat (drop_bit 120 w) div 2)"
    using nat_and_high [of "unat (drop_bit 120 w)" 1 7] unat_drop6_less [of 120 w]
    by (simp add: push_bit_eq_mult mask_eq_exp_minus_1)
  also have "unat (drop_bit 120 w) div 2 = unat (drop_bit 121 w)"
    unfolding unat_drop6 by (simp add: div_mult2_eq [symmetric])
  finally have "drop_bit 120 w AND 0xfe = 0xfc \<longleftrightarrow> unat (drop_bit 121 w) = 126"
    by (simp add: word_unat_eq_iff)
  also have "\<dots> \<longleftrightarrow> in6 7 (push_bit 120 0xfc) w"
    by (simp add: in6_def word_unat_eq_iff)
  finally show "IsPrivate (Addr6 w z) \<longleftrightarrow> in6 7 (push_bit 120 0xfc) w"
    using assms by (simp add: IsPrivate_def)
qed

lemma Unmap_Unmap [simp]: "Unmap (Unmap a) = Unmap a"
  by (cases a) auto

end
