(* ===== verification/Dialer.thy ===== *)
theory Dialer
  imports Netip Go_Strings
begin

text \<open>
  \<^verbatim>\<open>internal/webhook/dialer.go\<close>: the dialer that keeps webhooks from reaching internal services.
  Parsing of an address text, its rendering, name resolution and the connection itself are
  parameters; the model records which addresses are dialled, so that the theorems can say that
  only allowed ones are.
\<close>

section \<open>Splitting host and port\<close>

text \<open>\<^verbatim>\<open>strings.IndexByte\<close> and \<^verbatim>\<open>strings.LastIndexByte\<close>.\<close>

fun index_byte :: "char \<Rightarrow> string \<Rightarrow> nat option" where
  "index_byte c [] = None"
| "index_byte c (d # s) = (if d = c then Some 0 else map_option Suc (index_byte c s))"

definition last_index_byte :: "char \<Rightarrow> string \<Rightarrow> nat option" where
  "last_index_byte c s = map_option (\<lambda>i. length s - 1 - i) (index_byte c (rev s))"

definition addr_error :: "string \<Rightarrow> string \<Rightarrow> go_error" where
  "addr_error address why = ErrNew (''address '' @ address @ '': '' @ why)"

text \<open>\<^verbatim>\<open>net.SplitHostPort\<close>.\<close>

definition SplitHostPort :: "string \<Rightarrow> (go_error, string \<times> string) result" where
  "SplitHostPort hp =
     (case last_index_byte CHR '':'' hp of
        None \<Rightarrow> Inl (addr_error hp ''missing port in address'')
      | Some i \<Rightarrow>
         (let finish = (\<lambda>host j k.
            if CHR ''['' \<in> set (drop j hp) then Inl (addr_error hp ''unexpected '[' in address'')
            else if CHR '']'' \<in> set (drop k hp) then Inl (addr_error hp ''unexpected ']' in address'')
            else Inr (host, drop (i + 1) hp))
          in if hd hp = CHR ''['' then
               (case index_byte CHR '']'' hp of
                  None \<Rightarrow> Inl (addr_error hp ''missing ']' in address'')
                | Some e \<Rightarrow>
                    if e + 1 = length hp then Inl (addr_error hp ''missing port in address'')
                    else if e + 1 = i then finish (take (e - 1) (drop 1 hp)) 1 (e + 1)
                    else if hp ! (e + 1) = CHR '':'' then Inl (addr_error hp ''too many colons in address'')
                    else Inl (addr_error hp ''missing port in address''))
             else if CHR '':'' \<in> set (take i hp) then Inl (addr_error hp ''too many colons in address'')
             else finish (take i hp) 0 0))"

section \<open>Which addresses are allowed\<close>

definition blockedPrefixes :: "prefix list" where
  "blockedPrefixes =
     [(Addr4 (ipv4 0 0 0 0), 8), (Addr4 (ipv4 100 64 0 0), 10), (Addr4 (ipv4 169 254 0 0), 16),
      (Addr4 (ipv4 192 0 0 0), 24), (Addr4 (ipv4 198 18 0 0), 15), (Addr4 (ipv4 224 0 0 0), 4),
      (Addr4 (ipv4 240 0 0 0), 4), (Addr6 0xffff00000000 [], 96)]"

definition addressAllowed :: "addr \<Rightarrow> bool \<Rightarrow> bool" where
  "addressAllowed address allowPrivate =
     (if \<not> IsValid address then False
      else
        (let a = Unmap address in
         if IsUnspecified a \<or> IsMulticast a then False
         else if allowPrivate then True
         else if \<not> IsGlobalUnicast a \<or> IsPrivate a \<or> IsLoopback a \<or> IsLinkLocalUnicast a then False
         else \<not> list_ex (\<lambda>p. Contains p a) blockedPrefixes))"

section \<open>Dialling\<close>

record 'c net_env =
  ne_parse :: "string \<Rightarrow> addr option"
  ne_text :: "addr \<Rightarrow> string"
  ne_lookup :: "string \<Rightarrow> (go_error, addr list) result"
  ne_dial :: "string \<Rightarrow> addr \<Rightarrow> string \<Rightarrow> (go_error, 'c) result"

definition trim_brackets :: "string \<Rightarrow> string" where
  "trim_brackets s =
     rev (dropWhile (\<lambda>c. c = CHR ''['' \<or> c = CHR '']'')
       (rev (dropWhile (\<lambda>c. c = CHR ''['' \<or> c = CHR '']'') s)))"

definition resolve :: "'c net_env \<Rightarrow> string \<Rightarrow> (go_error, addr list) result" where
  "resolve env host =
     (case ne_parse env (trim_brackets host) of
        Some a \<Rightarrow> Inr [a]
      | None \<Rightarrow>
         (case ne_lookup env host of
            Inl e \<Rightarrow> Inl (WrapPrefix ''resolve target'' e)
          | Inr addresses \<Rightarrow>
              if addresses = [] then Inl (ErrNew ''target resolved to no addresses'')
              else Inr addresses))"

text \<open>The dial loop, with the addresses it dials in order.\<close>

fun dial_loop ::
  "'c net_env \<Rightarrow> string \<Rightarrow> string \<Rightarrow> addr list \<Rightarrow> go_error list \<Rightarrow> addr list \<times> (go_error, 'c) result" where
  "dial_loop env network port [] dialErrors =
     ([], Inl (if dialErrors = [] then ErrNew ''target has no compatible addresses''
               else WrapPrefix ''dial target'' (ErrJoin dialErrors)))"
| "dial_loop env network port (address # rest) dialErrors =
     (let current = Unmap address in
      if network = ''tcp4'' \<and> \<not> Is4 current \<or> network = ''tcp6'' \<and> \<not> Is6 current
      then dial_loop env network port rest dialErrors
      else
        (case ne_dial env network current port of
           Inr connection \<Rightarrow> ([current], Inr connection)
         | Inl dialErr \<Rightarrow>
             (case dial_loop env network port rest (dialErrors @ [dialErr]) of
                (dialled, r) \<Rightarrow> (current # dialled, r))))"

definition DialContext ::
  "'c net_env \<Rightarrow> bool \<Rightarrow> string \<Rightarrow> string \<Rightarrow> addr list \<times> (go_error, 'c) result" where
  "DialContext env allowPrivate network address =
     (case SplitHostPort address of
        Inl e \<Rightarrow> ([], Inl (WrapPrefix ''split target address'' e))
      | Inr (host, port) \<Rightarrow>
         (case resolve env host of
            Inl e \<Rightarrow> ([], Inl e)
          | Inr addresses \<Rightarrow>
             (case find (\<lambda>a. \<not> addressAllowed a allowPrivate) addresses of
                Some a \<Rightarrow> ([], Inl (WrapSuffix (ErrVar ErrBlockedAddress) (ne_text env a)))
              | None \<Rightarrow> dial_loop env network port addresses [])))"

section \<open>Only allowed addresses are dialled\<close>

lemma IsValid_Unmap [simp]: "IsValid (Unmap a) = IsValid a"
  by (cases a) auto

lemma addressAllowed_Unmap: "addressAllowed (Unmap a) p = addressAllowed a p"
  by (simp add: addressAllowed_def)

lemma dial_loop_dialled: "set (fst (dial_loop env network port addresses errs)) \<subseteq> Unmap ` set addresses"
proof (induction addresses arbitrary: errs)
  case (Cons address rest)
  show ?case
  proof (cases "ne_dial env network (Unmap address) port")
    case (Inl e)
    obtain dialled r where l: "dial_loop env network port rest (errs @ [e]) = (dialled, r)" by fastforce
    have "set dialled \<subseteq> Unmap ` set rest" using Cons.IH [of "errs @ [e]"] l by simp
    then show ?thesis using Inl l Cons.IH [of errs] by (auto simp: Let_def)
  next
    case (Inr c)
    then show ?thesis using Cons.IH [of errs] by (auto simp: Let_def)
  qed
qed simp

lemma DialContext_dialled:
  "(\<forall>a \<in> set (fst (DialContext env allowPrivate network address)). addressAllowed a allowPrivate) \<and>
   (\<forall>host port addresses. SplitHostPort address = Inr (host, port) \<longrightarrow> resolve env host = Inr addresses \<longrightarrow>
     (\<exists>a \<in> set addresses. \<not> addressAllowed a allowPrivate) \<longrightarrow>
     fst (DialContext env allowPrivate network address) = [] \<and>
     (\<exists>e. snd (DialContext env allowPrivate network address) = Inl e \<and> errors_is e ErrBlockedAddress))"
proof (cases "SplitHostPort address")
  case (Inl e)
  then show ?thesis by (simp add: DialContext_def)
next
  case (Inr hp)
  obtain host port where hp: "hp = (host, port)" by (cases hp)
  show ?thesis
  proof (cases "resolve env host")
    case (Inl e)
    then show ?thesis using Inr hp by (simp add: DialContext_def)
  next
    case (Inr addresses)
    show ?thesis
    proof (cases "find (\<lambda>a. \<not> addressAllowed a allowPrivate) addresses")
      case None
      then have "\<forall>a \<in> set addresses. addressAllowed a allowPrivate" by (simp add: find_None_iff)
      then show ?thesis
        using None Inr \<open>SplitHostPort address = Inr hp\<close> hp dial_loop_dialled [of env network port addresses "[]"]
        by (auto simp: DialContext_def addressAllowed_Unmap)
    next
      case (Some a)
      then show ?thesis
        using Inr \<open>SplitHostPort address = Inr hp\<close> hp by (simp add: DialContext_def)
    qed
  qed
qed

lemma dialled_allowed:
  "a \<in> set (fst (DialContext env allowPrivate network address)) \<Longrightarrow> addressAllowed a allowPrivate"
  using DialContext_dialled by blast


definition sample_net :: "string net_env" where
  "sample_net =
     \<lparr>ne_parse = (\<lambda>_. None), ne_text = (\<lambda>_. ''address''),
      ne_lookup = (\<lambda>_. Inr [Addr4 (ipv4 203 0 113 7), Addr4 (ipv4 10 0 0 1)]),
      ne_dial = (\<lambda>_ _ _. Inr ''connection'')\<rparr>"


section \<open>The allowed addresses\<close>

text \<open>The IPv4 ranges that are never a public target.\<close>

definition reserved4 :: "(32 word \<times> nat) list" where
  "reserved4 =
     [(ipv4 0 0 0 0, 8), (ipv4 10 0 0 0, 8), (ipv4 100 64 0 0, 10), (ipv4 127 0 0 0, 8),
      (ipv4 169 254 0 0, 16), (ipv4 172 16 0 0, 12), (ipv4 192 0 0 0, 24), (ipv4 192 168 0 0, 16),
      (ipv4 198 18 0 0, 15), (ipv4 224 0 0 0, 4), (ipv4 240 0 0 0, 4)]"

lemma in4_ends: "in4 8 (ipv4 0 0 0 0) 0" "in4 4 (ipv4 240 0 0 0) 0xffffffff"
  by (simp_all add: in4_def ipv4_def)

lemma addressAllowed_Addr4:
  "addressAllowed (Addr4 w) False \<longleftrightarrow> (\<forall>(p, n) \<in> set reserved4. \<not> in4 n p w)"
proof -
  have blocked: "list_ex (\<lambda>p. Contains p (Addr4 w)) blockedPrefixes \<longleftrightarrow>
      in4 8 (ipv4 0 0 0 0) w \<or> in4 10 (ipv4 100 64 0 0) w \<or> in4 16 (ipv4 169 254 0 0) w \<or>
      in4 24 (ipv4 192 0 0 0) w \<or> in4 15 (ipv4 198 18 0 0) w \<or> in4 4 (ipv4 224 0 0 0) w \<or>
      in4 4 (ipv4 240 0 0 0) w"
    by (simp add: blockedPrefixes_def Contains4_iff del: Contains.simps(1))
  show ?thesis
    using in4_ends
    by (auto simp: addressAllowed_def IsUnspecified_def IsGlobalUnicast_def class4_iff blocked reserved4_def)
qed

text \<open>C28. With private targets off, exactly the IPv4 addresses outside the reserved ranges
  (\<^verbatim>\<open>0/8, 10/8, 100.64/10, 127/8, 169.254/16, 172.16/12, 192.0.0/24, 192.168/16, 198.18/15, 224/4,
  240/4\<close>) are allowed, whether written as IPv4 or as an IPv4-mapped IPv6 address with or without
  a zone.\<close>

theorem addressAllowed_ipv4:
  "(addressAllowed (Addr4 w) False \<longleftrightarrow> (\<forall>(p, n) \<in> set reserved4. \<not> in4 n p w)) \<and>
   (drop_bit 32 x = 0xffff \<longrightarrow> addressAllowed (Addr6 x zone) False = addressAllowed (Addr4 (ucast x)) False)"
  using addressAllowed_Addr4 [of w] addressAllowed_Unmap [of "Addr6 x zone" False] by auto

theorem addressAllowed_ipv4_witness:
  "addressAllowed (Addr4 (ipv4 203 0 113 7)) False \<and>
   addressAllowed (Addr6 0xffff0a000001 []) False = addressAllowed (Addr4 (ipv4 10 0 0 1)) False"
proof -
  have "\<forall>(p, n) \<in> set reserved4. \<not> in4 n p (ipv4 203 0 113 7)"
    by (simp add: reserved4_def in4_def ipv4_def)
  moreover have "drop_bit 32 (0xffff0a000001 :: 128 word) = 0xffff" "(ucast (0xffff0a000001 :: 128 word) :: 32 word) = ipv4 10 0 0 1"
    by (simp_all add: ipv4_def)
  ultimately show ?thesis
    using addressAllowed_ipv4 [of "ipv4 203 0 113 7" "0xffff0a000001" "[]"] by simp
qed



end
