(* ===== verification/Secure.thy ===== *)
theory Secure
  imports Go_Strings
begin

text \<open>
  \<^verbatim>\<open>internal/secure/box.go\<close>: the envelope that endpoint secrets are stored in. The AES-GCM
  primitive is a parameter of type \<open>AEAD\<close>; what the box relies on is the predicate \<open>aead_ok\<close>.
  The contract that the endpoint service and the dispatcher share, one encrypting and the other
  decrypting, is the locale \<open>secret_cipher\<close>.
\<close>

record AEAD =
  ad_NonceSize :: nat
  ad_Overhead :: nat
  ad_Seal :: "bytes \<Rightarrow> bytes \<Rightarrow> bytes \<Rightarrow> bytes"
  ad_Open :: "bytes \<Rightarrow> bytes \<Rightarrow> bytes \<Rightarrow> bytes option"

record Box =
  bx_aead :: AEAD

text \<open>A source of randomness: the result of \<^verbatim>\<open>io.ReadFull\<close> on a buffer of the given length.\<close>

type_synonym random = "nat \<Rightarrow> (go_error, bytes) result"

definition full_reads :: "random \<Rightarrow> bool" where
  "full_reads rnd \<longleftrightarrow> (\<forall>n b. rnd n = Inr b \<longrightarrow> length b = n)"

definition envelopeVersion :: char where
  "envelopeVersion = CHR 0x01"

definition NewBox ::
  "(bytes \<Rightarrow> (go_error, 'b) result) \<Rightarrow> ('b \<Rightarrow> (go_error, AEAD) result) \<Rightarrow> bytes \<Rightarrow> (go_error, Box) result" where
  "NewBox new_cipher new_gcm key =
     (if length key \<noteq> 32 then Inl (ErrNew ''encryption key must be 32 bytes'')
      else case new_cipher key of
        Inl err \<Rightarrow> Inl (WrapPrefix ''create cipher'' err)
      | Inr block \<Rightarrow>
         (case new_gcm block of
            Inl err \<Rightarrow> Inl (WrapPrefix ''create gcm'' err)
          | Inr aead \<Rightarrow> Inr \<lparr>bx_aead = aead\<rparr>))"

definition Encrypt :: "Box \<Rightarrow> random \<Rightarrow> bytes \<Rightarrow> bytes \<Rightarrow> (go_error, bytes) result" where
  "Encrypt b rnd plaintext additionalData =
     (case rnd (ad_NonceSize (bx_aead b)) of
        Inl err \<Rightarrow> Inl (WrapPrefix ''generate nonce'' err)
      | Inr nonce \<Rightarrow>
          Inr ((envelopeVersion # nonce) @ ad_Seal (bx_aead b) nonce plaintext additionalData))"

definition Decrypt :: "Box \<Rightarrow> bytes \<Rightarrow> bytes \<Rightarrow> (go_error, bytes) result" where
  "Decrypt b envelope additionalData =
     (let nonceSize = ad_NonceSize (bx_aead b) in
      if length envelope < 1 + nonceSize + ad_Overhead (bx_aead b) \<or> envelope ! 0 \<noteq> envelopeVersion
        then Inl (ErrVar ErrInvalidCiphertext)
      else
        (let nonce = take nonceSize (drop 1 envelope); ciphertext = drop (1 + nonceSize) envelope in
         case ad_Open (bx_aead b) nonce ciphertext additionalData of
           None \<Rightarrow> Inl (ErrVar ErrInvalidCiphertext)
         | Some plaintext \<Rightarrow> Inr plaintext))"

text \<open>
  The documented behaviour of an authenticated cipher: what was sealed opens under the same
  nonce and additional data, sealing adds \<^verbatim>\<open>Overhead\<close> bytes, and nothing opens but what sealing
  produces.
\<close>

definition aead_ok :: "AEAD \<Rightarrow> bool" where
  "aead_ok a \<longleftrightarrow>
     (\<forall>n p d. length n = ad_NonceSize a \<longrightarrow>
        ad_Open a n (ad_Seal a n p d) d = Some p \<and> length (ad_Seal a n p d) = length p + ad_Overhead a) \<and>
     (\<forall>n c d p. length n = ad_NonceSize a \<longrightarrow> ad_Open a n c d = Some p \<longrightarrow> c = ad_Seal a n p d)"

section \<open>Round trip\<close>

lemma Decrypt_Encrypt:
  assumes "aead_ok (bx_aead b)" and "full_reads rnd" and "Encrypt b rnd p d = Inr e"
  shows "Decrypt b e d = Inr p"
proof -
  from assms(3) obtain nonce where n: "rnd (ad_NonceSize (bx_aead b)) = Inr nonce"
    and e: "e = (envelopeVersion # nonce) @ ad_Seal (bx_aead b) nonce p d"
    by (auto simp: Encrypt_def split: sum.splits)
  have "length nonce = ad_NonceSize (bx_aead b)" using assms(2) n by (auto simp: full_reads_def)
  then show ?thesis using assms(1) e by (simp add: Decrypt_def aead_ok_def Let_def)
qed

lemma Decrypt_only_envelopes:
  assumes "aead_ok (bx_aead b)" and "Decrypt b e d = Inr p"
  obtains nonce where "length nonce = ad_NonceSize (bx_aead b)"
    and "e = (envelopeVersion # nonce) @ ad_Seal (bx_aead b) nonce p d"
proof -
  let ?n = "ad_NonceSize (bx_aead b)"
  have len: "1 + ?n \<le> length e" and v: "e ! 0 = envelopeVersion"
    and o: "ad_Open (bx_aead b) (take ?n (drop 1 e)) (drop (1 + ?n) e) d = Some p"
    using assms(2) by (auto simp: Decrypt_def Let_def split: if_splits option.splits)
  have n: "length (take ?n (drop 1 e)) = ?n" using len by simp
  have "e = e ! 0 # take ?n (drop 1 e) @ drop (1 + ?n) e"
    using len by (cases e) simp_all
  then show thesis using that [OF n] assms(1) o n v unfolding aead_ok_def by (metis append_Cons)
qed

text \<open>C18. The envelope is an exact encoding: a stored secret decrypts to \<open>p\<close> under a context exactly
  when it is one of the envelopes that encrypting \<open>p\<close> under that context can produce, and every
  other byte string (too short, of another version, altered, or made for another context) gives
  \<^verbatim>\<open>ErrInvalidCiphertext\<close>.\<close>

theorem Box_roundtrip:
  assumes "aead_ok (bx_aead b)"
  shows "(Decrypt b e d = Inr p \<longleftrightarrow> (\<exists>rnd. full_reads rnd \<and> Encrypt b rnd p d = Inr e)) \<and>
    ((\<nexists>p'. Decrypt b e d = Inr p') \<longrightarrow> Decrypt b e d = Inl (ErrVar ErrInvalidCiphertext))"
proof (intro conjI iffI impI)
  assume "Decrypt b e d = Inr p"
  with assms obtain nonce where n: "length nonce = ad_NonceSize (bx_aead b)"
    and e: "e = (envelopeVersion # nonce) @ ad_Seal (bx_aead b) nonce p d"
    by (rule Decrypt_only_envelopes)
  let ?rnd = "\<lambda>k. if k = ad_NonceSize (bx_aead b) then Inr nonce else Inl (ErrNew [])"
  have "full_reads ?rnd" "Encrypt b ?rnd p d = Inr e" using n e by (simp_all add: full_reads_def Encrypt_def)
  then show "\<exists>rnd. full_reads rnd \<and> Encrypt b rnd p d = Inr e" by blast
next
  assume "\<exists>rnd. full_reads rnd \<and> Encrypt b rnd p d = Inr e"
  then show "Decrypt b e d = Inr p" using Decrypt_Encrypt [OF assms] by blast
next
  assume "\<nexists>p'. Decrypt b e d = Inr p'"
  then show "Decrypt b e d = Inl (ErrVar ErrInvalidCiphertext)"
    by (simp add: Decrypt_def Let_def split: if_splits option.splits)
qed

text \<open>A cipher with the assumed behaviour, to evaluate the theorems.\<close>

definition plain_aead :: AEAD where
  "plain_aead =
     \<lparr>ad_NonceSize = 2, ad_Overhead = 1, ad_Seal = (\<lambda>n p d. p @ ''t''),
      ad_Open = (\<lambda>n c d. if c \<noteq> [] \<and> last c = CHR ''t'' then Some (butlast c) else None)\<rparr>"

lemma aead_ok_plain: "aead_ok plain_aead"
  by (auto simp: aead_ok_def plain_aead_def) (metis append_butlast_last_id)

theorem Box_roundtrip_witness:
  "Decrypt \<lparr>bx_aead = plain_aead\<rparr> (CHR 0x01 # ''xyst'') ''ctx'' = Inr ''s'' \<and>
   Decrypt \<lparr>bx_aead = plain_aead\<rparr> (CHR 0x02 # ''xyst'') ''ctx'' = Inl (ErrVar ErrInvalidCiphertext)"
proof -
  let ?b = "\<lparr>bx_aead = plain_aead\<rparr>" and ?r = "\<lambda>n. if n = 2 then Inr ''xy'' else Inl (ErrNew [])"
  have "full_reads ?r" "Encrypt ?b ?r ''s'' ''ctx'' = Inr (CHR 0x01 # ''xyst'')"
    by (auto simp: full_reads_def Encrypt_def plain_aead_def envelopeVersion_def)
  moreover have "\<nexists>p. Decrypt ?b (CHR 0x02 # ''xyst'') ''ctx'' = Inr p"
    by (simp add: Decrypt_def envelopeVersion_def Let_def)
  ultimately show ?thesis
    using Box_roundtrip [of ?b "CHR 0x01 # ''xyst''" "''ctx''" "''s''"]
      Box_roundtrip [of ?b "CHR 0x02 # ''xyst''" "''ctx''" "''s''"] aead_ok_plain
    by auto
qed

section \<open>The contract with the services\<close>

text \<open>
  One side encrypts under a context, the other decrypts under the same context. \<open>sound\<close> says that
  the primitive below has its documented behaviour.
\<close>

locale secret_cipher =
  fixes sound :: bool
    and encrypt :: "random \<Rightarrow> bytes \<Rightarrow> bytes \<Rightarrow> (go_error, bytes) result"
    and decrypt :: "bytes \<Rightarrow> bytes \<Rightarrow> (go_error, bytes) result"
  assumes opens: "sound \<Longrightarrow> full_reads rnd \<Longrightarrow> encrypt rnd p d = Inr e \<Longrightarrow> decrypt e d = Inr p"
begin

lemma encrypt_determines:
  "sound \<Longrightarrow> full_reads r \<Longrightarrow> full_reads r' \<Longrightarrow> encrypt r p d = Inr e \<Longrightarrow> encrypt r' p' d = Inr e \<Longrightarrow> p = p'"
  by (metis opens sum.inject(2))

end

interpretation box: secret_cipher "aead_ok (bx_aead b)" "Encrypt b" "Decrypt b" for b
  by unfold_locales (rule Decrypt_Encrypt)

end
