(* ===== verification/Go_Base64.thy ===== *)
theory Go_Base64
  imports Go_Strings
begin

text \<open>
  The parts of \<^verbatim>\<open>encoding/base64\<close> that the repository uses: \<^verbatim>\<open>RawURLEncoding.EncodeToString\<close> for
  endpoint secrets and \<^verbatim>\<open>StdEncoding.DecodeString\<close> for the master key. Decoding skips line breaks
  and reports the offset at which Go reports the error.
\<close>

section \<open>Alphabets\<close>

definition url_alphabet :: string where
  "url_alphabet = ''ABCDEFGHIJKLMNOPQRSTUVWXYZabcdefghijklmnopqrstuvwxyz0123456789-_''"

definition std_alphabet :: string where
  "std_alphabet = ''ABCDEFGHIJKLMNOPQRSTUVWXYZabcdefghijklmnopqrstuvwxyz0123456789+/''"

fun position :: "'a \<Rightarrow> 'a list \<Rightarrow> nat option" where
  "position x [] = None"
| "position x (y # ys) = (if x = y then Some 0 else map_option Suc (position x ys))"

section \<open>Encoding\<close>

text \<open>The sextets of a byte sequence: 6, 12 or 18 bits short groups come last, without padding.\<close>

fun sextets :: "nat list \<Rightarrow> nat list" where
  "sextets [] = []"
| "sextets [a] = [a div 4, a mod 4 * 16]"
| "sextets [a, b] = [a div 4, a mod 4 * 16 + b div 16, b mod 16 * 4]"
| "sextets (a # b # c # bs) =
     [a div 4, a mod 4 * 16 + b div 16, b mod 16 * 4 + c div 64, c mod 64] @ sextets bs"

definition raw_url_encode :: "bytes \<Rightarrow> string" where
  "raw_url_encode bs = map (\<lambda>v. url_alphabet ! v) (sextets (map code bs))"

section \<open>Decoding\<close>

text \<open>The bytes of one group of two, three or four sextets.\<close>

fun group_bytes :: "nat list \<Rightarrow> nat list" where
  "group_bytes [v, w] = [v * 4 + w div 16]"
| "group_bytes [v, w, x] = [v * 4 + w div 16, w mod 16 * 16 + x div 4]"
| "group_bytes [v, w, x, y] = [v * 4 + w div 16, w mod 16 * 16 + x div 4, x mod 4 * 64 + y]"
| "group_bytes _ = []"

definition line_break :: "char \<Rightarrow> bool" where
  "line_break c \<longleftrightarrow> c = CHR 0x0A \<or> c = CHR 0x0D"

fun skip_breaks :: "nat \<Rightarrow> string \<Rightarrow> nat \<times> string" where
  "skip_breaks pos [] = (pos, [])"
| "skip_breaks pos (c # cs) = (if line_break c then skip_breaks (Suc pos) cs else (pos, c # cs))"

text \<open>After the padding only line breaks may follow.\<close>

definition pad_end :: "nat list \<Rightarrow> nat \<Rightarrow> string \<Rightarrow> (nat, nat list) result" where
  "pad_end q pos s =
     (case skip_breaks pos s of (p, []) \<Rightarrow> Inr (group_bytes q) | (p, _) \<Rightarrow> Inl p)"

text \<open>\<open>q\<close> holds the sextets of the current group and \<open>pos\<close> the offset of the next character; the
  error is the offset of \<^verbatim>\<open>CorruptInputError\<close>.\<close>

fun std_decode_from :: "nat list \<Rightarrow> nat \<Rightarrow> string \<Rightarrow> (nat, nat list) result" where
  "std_decode_from q pos [] = (if q = [] then Inr [] else Inl (pos - length q))"
| "std_decode_from q pos (c # cs) =
     (case position c std_alphabet of
        Some v \<Rightarrow>
          if length q = 3 then map_sum id ((@) (group_bytes (q @ [v]))) (std_decode_from [] (Suc pos) cs)
          else std_decode_from (q @ [v]) (Suc pos) cs
      | None \<Rightarrow>
          if line_break c then std_decode_from q (Suc pos) cs
          else if c \<noteq> CHR ''='' \<or> length q < 2 then Inl pos
          else if length q = 2 then
            (case skip_breaks (Suc pos) cs of
               (p, []) \<Rightarrow> Inl p
             | (p, d # ds) \<Rightarrow> if d \<noteq> CHR ''='' then Inl (p - 1) else pad_end q (Suc p) ds)
          else pad_end q (Suc pos) cs)"

definition std_decode :: "string \<Rightarrow> (go_error, bytes) result" where
  "std_decode s =
     (case std_decode_from [] 0 s of
        Inl p \<Rightarrow> Inl (ErrNew (''illegal base64 data at input byte '' @ nat_text p))
      | Inr bs \<Rightarrow> Inr (map char_of bs))"

section \<open>The encoding is one-to-one and URL-safe\<close>

lemma length_sextets: "length (sextets bs) = (8 * length bs + 5) div 6"
  by (induction bs rule: sextets.induct) auto

lemma sextets_range: "list_all (\<lambda>b. b < 256) bs \<Longrightarrow> v \<in> set (sextets bs) \<Longrightarrow> v < 64"
  by (induction bs rule: sextets.induct) (auto simp: less_mult_imp_div_less)

lemma mixed_radix:
  fixes x x' y y' k :: nat
  assumes "x * k + y = x' * k + y'" and "y < k" and "y' < k"
  shows "x = x' \<and> y = y'"
proof
  show "x = x'" using arg_cong [OF assms(1), of "\<lambda>n. n div k"] assms(2,3) by simp
  then show "y = y'" using assms(1) by simp
qed

lemma div_mod_inject: "a div k = a' div k \<Longrightarrow> a mod k = a' mod k \<Longrightarrow> a = a'" for a a' k :: nat
  by (metis div_mult_mod_eq)

lemma byte_group:
  fixes a b c a' b' c' :: nat
  assumes "a div 4 = a' div 4" and "a mod 4 * 16 + b div 16 = a' mod 4 * 16 + b' div 16"
    and "b mod 16 * 4 + c div 64 = b' mod 16 * 4 + c' div 64" and "c mod 64 = c' mod 64"
    and "b < 256" and "b' < 256" and "c < 256" and "c' < 256"
  shows "a = a' \<and> b = b' \<and> c = c'"
proof -
  have "b div 16 < 16" "b' div 16 < 16" "c div 64 < 4" "c' div 64 < 4"
    using assms(5-8) by (simp_all add: less_mult_imp_div_less)
  then have "a mod 4 = a' mod 4 \<and> b div 16 = b' div 16" "b mod 16 = b' mod 16 \<and> c div 64 = c' div 64"
    using mixed_radix assms(2,3) by blast+
  then show ?thesis using assms(1,4) div_mod_inject by blast
qed

lemma sextets_inject:
  assumes "list_all (\<lambda>b. b < 256) bs" and "list_all (\<lambda>b. b < 256) bs'" and "length bs = length bs'"
    and "sextets bs = sextets bs'"
  shows "bs = bs'"
  using assms
proof (induction bs arbitrary: bs' rule: sextets.induct)
  case 1
  then show ?case by simp
next
  case (2 a)
  then obtain a' where "bs' = [a']" by (auto simp: length_Suc_conv Suc_length_conv)
  with 2 show ?case using div_mod_inject [of a 4 a'] by simp
next
  case (3 a b)
  then obtain a' b' where "bs' = [a', b']" by (auto simp: length_Suc_conv Suc_length_conv)
  with 3 show ?case using byte_group [of a a' b b' 0 0] by simp
next
  case (4 a b c bs)
  then obtain a' b' c' ds where d: "bs' = a' # b' # c' # ds" "length ds = length bs"
    by (auto simp: length_Suc_conv Suc_length_conv)
  with 4 show ?case using byte_group [of a a' b b' c c'] by simp
qed

lemma url_alphabet_distinct: "distinct url_alphabet" "length url_alphabet = 64"
  by (simp_all add: url_alphabet_def)

lemma codes_small: "list_all (\<lambda>b. b < 256) (map code bs)"
  by (simp add: list_all_iff)

lemma raw_url_encode_inject:
  assumes "length a = length b" and "raw_url_encode a = raw_url_encode b"
  shows "a = b"
proof -
  let ?a = "sextets (map code a)" and ?b = "sextets (map code b)"
  have small: "v < 64" if "v \<in> set ?a \<union> set ?b" for v
    using that sextets_range [OF codes_small] by blast
  have "inj_on (\<lambda>v. url_alphabet ! v) (set ?a \<union> set ?b)"
    by (rule inj_onI) (use small url_alphabet_distinct in \<open>simp add: nth_eq_iff_index_eq\<close>)
  then have "?a = ?b" using assms(2) unfolding raw_url_encode_def by (simp add: inj_on_map_eq_map)
  then have "map code a = map code b"
    by (rule sextets_inject [OF codes_small codes_small, rotated]) (simp add: assms(1))
  then show ?thesis by (simp add: inj_map_eq_map inj_def code_inject)
qed

lemma length_raw_url_encode: "length (raw_url_encode bs) = (8 * length bs + 5) div 6"
  by (simp add: raw_url_encode_def length_sextets)

lemma raw_url_encode_alphabet: "c \<in> set (raw_url_encode bs) \<Longrightarrow> c \<in> set url_alphabet"
  using sextets_range [OF codes_small] url_alphabet_distinct by (auto simp: raw_url_encode_def)

end
