(* ===== verification/Endpoint_Service.thy ===== *)
theory Endpoint_Service
  imports Store Webhook Dialer Secure Go_Base64
begin

text \<open>
  \<^verbatim>\<open>internal/endpoint/service.go\<close>: validation and normalisation of a new endpoint, its secret, and
  the other operations of the service. The repository is the interface the code declares, on a
  state of type \<open>'s\<close>. \<^verbatim>\<open>url.Parse\<close>, \<^verbatim>\<open>URL.String\<close>, the Unicode tables behind \<^verbatim>\<open>strings.ToLower\<close> and
  \<^verbatim>\<open>netip.ParseAddr\<close> are the parameters in \<open>url_env\<close>; the splitting and joining of hosts and
  ports is modelled.
\<close>

section \<open>URLs\<close>

record url =
  ur_Scheme :: string
  ur_Opaque :: string
  ur_User :: "string option"
  ur_Host :: string
  ur_Path :: string
  ur_RawPath :: string
  ur_ForceQuery :: bool
  ur_RawQuery :: string
  ur_Fragment :: string
  ur_RawFragment :: string

record url_env =
  ue_parse :: "string \<Rightarrow> (go_error, url) result"
  ue_string :: "url \<Rightarrow> string"
  ue_lower :: "string \<Rightarrow> string"
  ue_addr :: "string \<Rightarrow> addr option"

fun valid_optional_port :: "string \<Rightarrow> bool" where
  "valid_optional_port [] = True"
| "valid_optional_port (c # cs) \<longleftrightarrow> c = CHR '':'' \<and> list_all (\<lambda>d. 48 \<le> code d \<and> code d \<le> 57) cs"

definition split_port :: "string \<Rightarrow> string \<times> string" where
  "split_port host =
     (case last_index_byte (CHR '':'') host of
        None \<Rightarrow> (host, [])
      | Some colon \<Rightarrow>
          if valid_optional_port (drop colon host) then (take colon host, drop (colon + 1) host) else (host, []))"

text \<open>\<^verbatim>\<open>URL.Hostname\<close> and \<^verbatim>\<open>URL.Port\<close>.\<close>

definition Hostname :: "url \<Rightarrow> string" where
  "Hostname u =
     (let host = fst (split_port (ur_Host u)) in
      if host \<noteq> [] \<and> hd host = CHR ''['' \<and> last host = CHR '']'' then butlast (tl host) else host)"

definition Port :: "url \<Rightarrow> string" where
  "Port u = snd (split_port (ur_Host u))"

definition JoinHostPort :: "string \<Rightarrow> string \<Rightarrow> string" where
  "JoinHostPort host port =
     (if CHR '':'' \<in> set host then ''['' @ host @ '']:'' @ port else host @ '':'' @ port)"

definition has_suffix :: "string \<Rightarrow> string \<Rightarrow> bool" where
  "has_suffix s suf \<longleftrightarrow> length suf \<le> length s \<and> drop (length s - length suf) s = suf"

definition trim_suffix :: "string \<Rightarrow> string \<Rightarrow> string" where
  "trim_suffix s suf = (if has_suffix s suf then take (length s - length suf) s else s)"

text \<open>\<^verbatim>\<open>net.ParseIP\<close>, which accepts no zone, with the address in the form the tests of \<^verbatim>\<open>net.IP\<close> see.\<close>

definition parse_ip :: "url_env \<Rightarrow> string \<Rightarrow> addr option" where
  "parse_ip env s =
     (case ue_addr env s of
        Some (Addr6 w z) \<Rightarrow> if z = [] then Some (Unmap (Addr6 w z)) else None
      | r \<Rightarrow> r)"

definition IsLinkLocalMulticast :: "addr \<Rightarrow> bool" where
  "IsLinkLocalMulticast a =
     (case a of
        Addr4 w \<Rightarrow> v4 w 0 = 224 \<and> v4 w 1 = 0 \<and> v4 w 2 = 0
      | Addr6 w _ \<Rightarrow> drop_bit 120 w = 0xff \<and> take_bit 4 (drop_bit 112 w) = 0x02
      | AddrZero \<Rightarrow> False)"

section \<open>service.go\<close>

record Options =
  op_AllowHTTP :: bool
  op_AllowPrivateTargets :: bool

record CreateInput =
  ci_Name :: string
  ci_URL :: string
  ci_Timeout :: duration
  ci_MaxAttempts :: int

record Created =
  cr_Endpoint :: endpoint
  cr_Secret :: string

definition endpoint_invalid :: "string \<Rightarrow> go_error" where
  "endpoint_invalid s = WrapSuffix (ErrVar EndpointErrInvalid) s"

definition isPrivateHost :: "url_env \<Rightarrow> string \<Rightarrow> bool" where
  "isPrivateHost env hostname =
     (if hostname = ''localhost'' \<or> has_suffix hostname ''.localhost'' \<or> has_suffix hostname ''.local'' then True
      else case parse_ip env hostname of
        None \<Rightarrow> False
      | Some ip \<Rightarrow>
          \<not> IsGlobalUnicast ip \<or> IsPrivate ip \<or> IsLoopback ip \<or> IsLinkLocalUnicast ip \<or> IsLinkLocalMulticast ip)"

definition normalizeTarget :: "url_env \<Rightarrow> Options \<Rightarrow> string \<Rightarrow> (go_error, string) result" where
  "normalizeTarget env options raw =
     (case ue_parse env (trim_space raw) of
        Inl _ \<Rightarrow> Inl (endpoint_invalid ''malformed URL'')
      | Inr target \<Rightarrow>
         (let scheme = ue_lower env (ur_Scheme target) in
          if scheme \<noteq> ''https'' \<and> (\<not> op_AllowHTTP options \<or> scheme \<noteq> ''http'')
            then Inl (endpoint_invalid ''URL must use HTTPS'')
          else if ur_Opaque target \<noteq> [] \<or> ur_Host target = [] \<or> ur_User target \<noteq> None \<or> ur_Fragment target \<noteq> []
            then Inl (endpoint_invalid ''URL must be absolute and cannot contain userinfo or fragment'')
          else
            (let hostname = ue_lower env (trim_suffix (Hostname target) ''.'') in
             if hostname = [] \<or> CHR ''%'' \<in> set hostname then Inl (endpoint_invalid ''URL host is invalid'')
             else if \<not> op_AllowPrivateTargets options \<and> isPrivateHost env hostname
               then Inl (endpoint_invalid ''private targets are not allowed'')
             else
               (let port = Port target;
                    host = (if port \<noteq> [] then JoinHostPort hostname port
                            else if CHR '':'' \<in> set hostname then ''['' @ hostname @ '']''
                            else hostname);
                    path = (if ur_Path target = [] then ''/'' else ur_Path target)
                in Inr (ue_string env (target\<lparr>ur_Scheme := scheme, ur_Host := host, ur_Path := path\<rparr>))))))"

text \<open>The endpoint that \<^verbatim>\<open>Create\<close> hands to the repository.\<close>

definition endpoint_value :: "string \<Rightarrow> string \<Rightarrow> string \<Rightarrow> bytes \<Rightarrow> duration \<Rightarrow> int \<Rightarrow> endpoint" where
  "endpoint_value i name target ciphertext timeout maxAttempts =
     \<lparr>ep_ID = i, ep_Name = name, ep_URL = target, ep_SecretCiphertext = ciphertext, ep_Timeout = timeout,
      ep_MaxAttempts = maxAttempts, ep_ConsecutiveFailures = 0, ep_DisabledAt = None,
      ep_CircuitOpenUntil = None, ep_CreatedAt = 0, ep_UpdatedAt = 0\<rparr>"

definition Create ::
  "url_env \<Rightarrow> Options \<Rightarrow> random \<Rightarrow> (bytes \<Rightarrow> bytes \<Rightarrow> (go_error, bytes) result) \<Rightarrow> string
    \<Rightarrow> (endpoint \<Rightarrow> 's \<Rightarrow> (go_error, endpoint) result \<times> 's) \<Rightarrow> CreateInput \<Rightarrow> 's
    \<Rightarrow> (go_error, Created) result \<times> 's" where
  "Create env options rnd encrypt newid create input s =
     (let name = trim_space (ci_Name input) in
      if name = [] \<or> 100 < rune_count name
        then (Inl (endpoint_invalid ''name must contain between 1 and 100 characters''), s)
      else case normalizeTarget env options (ci_URL input) of
        Inl err \<Rightarrow> (Inl err, s)
      | Inr target \<Rightarrow>
         (let timeout = (if ci_Timeout input = 0 then 5 * second else ci_Timeout input);
              maxAttempts = (if ci_MaxAttempts input = 0 then 8 else ci_MaxAttempts input)
          in if timeout < 100 * millisecond \<or> 30 * second < timeout
               then (Inl (endpoint_invalid ''timeout must be between 100ms and 30s''), s)
             else case ValidateMaxAttempts maxAttempts of
               Some err \<Rightarrow> (Inl (endpoint_invalid (error_text err)), s)
             | None \<Rightarrow>
                (case rnd 32 of
                   Inl err \<Rightarrow> (Inl (WrapPrefix ''generate endpoint secret'' err), s)
                 | Inr secretBytes \<Rightarrow>
                    (let secret = raw_url_encode secretBytes in
                     case encrypt secret (SecretContext newid) of
                       Inl err \<Rightarrow> (Inl (WrapPrefix ''encrypt endpoint secret'' err), s)
                     | Inr ciphertext \<Rightarrow>
                        (case create (endpoint_value newid name target ciphertext timeout maxAttempts) s of
                           (Inl err, s') \<Rightarrow> (Inl (WrapPrefix ''create endpoint'' err), s')
                         | (Inr created, s') \<Rightarrow>
                             (Inr \<lparr>cr_Endpoint = created, cr_Secret = secret\<rparr>, s'))))))"

definition Endpoint_List ::
  "(int \<Rightarrow> 's \<Rightarrow> (go_error, endpoint list) result) \<Rightarrow> int \<Rightarrow> 's \<Rightarrow> (go_error, endpoint list) result" where
  "Endpoint_List list_endpoints limit s =
     (if limit < 1 \<or> 100 < limit then Inl (endpoint_invalid ''limit must be between 1 and 100'')
      else case list_endpoints limit s of
        Inl err \<Rightarrow> Inl (WrapPrefix ''list endpoints'' err)
      | Inr r \<Rightarrow> Inr r)"

definition Endpoint_Get ::
  "(string \<Rightarrow> bool) \<Rightarrow> (string \<Rightarrow> 's \<Rightarrow> (go_error, endpoint) result) \<Rightarrow> string \<Rightarrow> 's \<Rightarrow> (go_error, endpoint) result" where
  "Endpoint_Get uuid_ok get i s =
     (if \<not> uuid_ok i then Inl (endpoint_invalid ''malformed endpoint id'')
      else case get i s of
        Inl err \<Rightarrow> Inl (WrapPrefix ''get endpoint'' err)
      | Inr r \<Rightarrow> Inr r)"

definition Endpoint_Disable ::
  "(string \<Rightarrow> bool) \<Rightarrow> (string \<Rightarrow> 's \<Rightarrow> (go_error, endpoint) result \<times> 's) \<Rightarrow> string \<Rightarrow> 's
    \<Rightarrow> (go_error, endpoint) result \<times> 's" where
  "Endpoint_Disable uuid_ok disable i s =
     (if \<not> uuid_ok i then (Inl (endpoint_invalid ''malformed endpoint id''), s)
      else case disable i s of
        (Inl err, s') \<Rightarrow> (Inl (WrapPrefix ''disable endpoint'' err), s')
      | (Inr r, s') \<Rightarrow> (Inr r, s'))"

section \<open>Accepted targets\<close>

text \<open>What the code accepts as a target: the parsed URL has an allowed scheme, a host and neither
  userinfo nor a fragment, and its host is not a private name or address.\<close>

lemma normalizeTarget_InrD:
  assumes "normalizeTarget env options raw = Inr target"
  obtains u hostname where "ue_parse env (trim_space raw) = Inr u"
    and "ue_lower env (ur_Scheme u) = ''https'' \<or> op_AllowHTTP options \<and> ue_lower env (ur_Scheme u) = ''http''"
    and "ur_User u = None" and "ur_Fragment u = []" and "ur_Opaque u = []"
    and "hostname = ue_lower env (trim_suffix (Hostname u) ''.'')" and "hostname \<noteq> []" and "CHR ''%'' \<notin> set hostname"
    and "op_AllowPrivateTargets options \<or> \<not> isPrivateHost env hostname"
  using assms by (auto simp: normalizeTarget_def Let_def split: sum.splits if_splits)

text \<open>A literal address that is refused here would be refused by the dialer as well.\<close>

lemma link_local_multicast: "IsLinkLocalMulticast a \<Longrightarrow> Unmap a = a \<Longrightarrow> IsMulticast a"
  by (cases a) (auto simp: IsLinkLocalMulticast_def IsMulticast_def split: if_splits)

lemma isPrivateHost_blocked:
  assumes "isPrivateHost env hostname" and "parse_ip env hostname = Some ip"
    and "\<not> (hostname = ''localhost'' \<or> has_suffix hostname ''.localhost'' \<or> has_suffix hostname ''.local'')"
  shows "\<not> addressAllowed ip False"
proof -
  have "Unmap ip = ip"
    using assms(2) by (auto simp: parse_ip_def split: option.splits addr.splits if_splits)
  then show ?thesis
    using assms link_local_multicast [of ip] by (auto simp: isPrivateHost_def addressAllowed_def Let_def)
qed

section \<open>Creation\<close>

text \<open>\<^verbatim>\<open>Create\<close> either refuses before it calls the repository, or calls it exactly once.\<close>

lemma Create_cases:
  obtains (refused) err where "Create env options rnd encrypt newid create input s = (Inl err, s)"
  | (called) target secretBytes ciphertext timeout maxAttempts where
      "trim_space (ci_Name input) \<noteq> []" "rune_count (trim_space (ci_Name input)) \<le> 100"
      "normalizeTarget env options (ci_URL input) = Inr target"
      "100 * millisecond \<le> timeout" "timeout \<le> 30 * second" "1 \<le> maxAttempts" "maxAttempts \<le> 100"
      "rnd 32 = Inr secretBytes"
      "encrypt (raw_url_encode secretBytes) (SecretContext newid) = Inr ciphertext"
      "Create env options rnd encrypt newid create input s =
         (case create (endpoint_value newid (trim_space (ci_Name input)) target ciphertext timeout maxAttempts) s of
            (Inl err, s') \<Rightarrow> (Inl (WrapPrefix ''create endpoint'' err), s')
          | (Inr created, s') \<Rightarrow> (Inr \<lparr>cr_Endpoint = created, cr_Secret = raw_url_encode secretBytes\<rparr>, s'))"
proof -
  let ?name = "trim_space (ci_Name input)"
  let ?timeout = "if ci_Timeout input = 0 then 5 * second else ci_Timeout input"
  let ?m = "if ci_MaxAttempts input = 0 then 8 else ci_MaxAttempts input"
  show thesis
  proof (cases "?name = [] \<or> 100 < rune_count ?name")
    case True
    then show ?thesis by (intro refused) (simp only: Create_def Let_def if_True)
  next
    case name: False
    show ?thesis
    proof (cases "normalizeTarget env options (ci_URL input)")
      case (Inl e)
      then show ?thesis using name by (intro refused) (simp only: Create_def Let_def if_False sum.case)
    next
      case target: (Inr target)
      show ?thesis
      proof (cases "?timeout < 100 * millisecond \<or> 30 * second < ?timeout")
        case True
        then show ?thesis using name target
          by (intro refused) (simp only: Create_def Let_def if_False sum.case if_True)
      next
        case time: False
        show ?thesis
        proof (cases "ValidateMaxAttempts ?m")
          case (Some e)
          then show ?thesis using name target time
            by (intro refused) (simp only: Create_def Let_def if_False sum.case option.case)
        next
          case m: None
          show ?thesis
          proof (cases "rnd 32")
            case (Inl e)
            then show ?thesis using name target time m
              by (intro refused) (simp only: Create_def Let_def if_False sum.case option.case)
          next
            case r: (Inr b)
            show ?thesis
            proof (cases "encrypt (raw_url_encode b) (SecretContext newid)")
              case (Inl e)
              then show ?thesis using name target time m r
                by (intro refused) (simp only: Create_def Let_def if_False sum.case option.case)
            next
              case (Inr c)
              have "1 \<le> ?m" "?m \<le> 100" using m by (auto simp only: ValidateMaxAttempts_def split: if_splits)
              then show ?thesis
                by (intro called [of target ?timeout ?m b c])
                  (use name target time m r Inr in \<open>auto simp only: Create_def Let_def if_False sum.case option.case\<close>)
            qed
          qed
        qed
      qed
    qed
  qed
qed

lemma check_new_endpoint:
  assumes "100 * millisecond \<le> timeout" and "timeout \<le> 30 * second" and "1 \<le> m" and "m \<le> 100"
  shows "check_endpoint (new_endpoint i (endpoint_value newid name target c timeout m) now)"
proof -
  have "milliseconds timeout = timeout div 1000000"
    using assms(1) by (simp add: milliseconds_def sdiv_nonneg_eq_div)
  moreover have "100 \<le> timeout div 1000000" "timeout div 1000000 \<le> 30000"
    using assms(1,2) zdiv_mono1 [of 100000000 timeout 1000000] zdiv_mono1 [of timeout 30000000000 1000000] by auto
  ultimately show ?thesis using assms by (simp add: check_endpoint_def new_endpoint_def endpoint_value_def)
qed

text \<open>C24. What the service hands to the repository is well-formed: the repository is called at most once,
  with an endpoint whose row satisfies every constraint of the table, under the new identifier and
  a name of 1 to 100 characters, and whose secret is encrypted for exactly that identifier. (The
  repository is one that records its calls.)\<close>

theorem Create_calls_valid:
  "let calls = snd (Create env options rnd encrypt newid (\<lambda>v s. (answer v, s @ [v])) input []) in
   length calls \<le> 1 \<and>
   (\<forall>v \<in> set calls. check_endpoint (new_endpoint i v now) \<and> ep_ID v = newid \<and>
      ep_Name v \<noteq> [] \<and> rune_count (ep_Name v) \<le> 100 \<and>
      normalizeTarget env options (ci_URL input) = Inr (ep_URL v) \<and>
      (\<exists>b. rnd 32 = Inr b \<and> encrypt (raw_url_encode b) (SecretContext newid) = Inr (ep_SecretCiphertext v)))"
proof (cases rule: Create_cases [of env options rnd encrypt newid "\<lambda>v s. (answer v, s @ [v])" input "[]"])
  case (refused err)
  then show ?thesis by simp
next
  case (called target b c timeout m)
  have "snd (Create env options rnd encrypt newid (\<lambda>v s. (answer v, s @ [v])) input []) =
      [endpoint_value newid (trim_space (ci_Name input)) target c timeout m]"
    unfolding called(10) by (simp split: sum.splits)
  then show ?thesis
    using called check_new_endpoint [OF called(4-7)] by (simp add: Let_def) (simp add: endpoint_value_def)
qed

text \<open>A simple environment: it knows one URL.\<close>

definition sample_url :: url where
  "sample_url =
     \<lparr>ur_Scheme = ''https'', ur_Opaque = [], ur_User = None, ur_Host = ''h.io:8443'', ur_Path = [], ur_RawPath = [],
      ur_ForceQuery = False, ur_RawQuery = [], ur_Fragment = [], ur_RawFragment = []\<rparr>"

definition sample_urls :: url_env where
  "sample_urls =
     \<lparr>ue_parse = (\<lambda>_. Inr sample_url), ue_string = (\<lambda>u. ur_Scheme u @ ''://'' @ ur_Host u @ ur_Path u),
      ue_lower = id, ue_addr = (\<lambda>_. None)\<rparr>"

definition sample_input :: CreateInput where
  "sample_input = \<lparr>ci_Name = ''w1'', ci_URL = ''https://h.io:8443'', ci_Timeout = 0, ci_MaxAttempts = 0\<rparr>"

lemma sample_target:
  "normalizeTarget sample_urls \<lparr>op_AllowHTTP = False, op_AllowPrivateTargets = False\<rparr> (ci_URL sample_input) =
    Inr ''https://h.io:8443/''"
  by (simp add: normalizeTarget_def sample_urls_def sample_url_def Hostname_def Port_def split_port_def
      last_index_byte_def code_def trim_suffix_def has_suffix_def isPrivateHost_def parse_ip_def JoinHostPort_def
      Let_def)

lemma rune_count_w1: "rune_count ''w1'' = 2"
  by (simp add: rune_count_def decode_rune.simps code_def)

theorem Create_calls_valid_witness:
  "\<exists>v. snd (Create sample_urls \<lparr>op_AllowHTTP = False, op_AllowPrivateTargets = False\<rparr> (\<lambda>_. Inr ''abc'')
      (\<lambda>p d. Inr (''sealed:'' @ p)) ''ep'' (\<lambda>v s. (Inr v, s @ [v])) sample_input []) = [v] \<and>
    check_endpoint (new_endpoint ''ep'' v 0) \<and> ep_URL v = ''https://h.io:8443/''"
proof -
  have t: "trim_space ''w1'' = ''w1''" by (simp add: trim_space_graphic graphic_def code_def)
  obtain v where v: "snd (Create sample_urls \<lparr>op_AllowHTTP = False, op_AllowPrivateTargets = False\<rparr> (\<lambda>_. Inr ''abc'')
      (\<lambda>p d. Inr (''sealed:'' @ p)) ''ep'' (\<lambda>v s. (Inr v, s @ [v])) sample_input []) = [v]"
    using sample_target t rune_count_w1
    by (simp add: Create_def sample_input_def ValidateMaxAttempts_def Let_def)
  with Create_calls_valid [of sample_urls "\<lparr>op_AllowHTTP = False, op_AllowPrivateTargets = False\<rparr>"
      "\<lambda>_. Inr ''abc''" "\<lambda>p d. Inr (''sealed:'' @ p)" "''ep''" Inr sample_input "''ep''" 0] sample_target
  show ?thesis by (auto simp: Let_def)
qed

end
