(* ===== verification/Go_Json.thy ===== *)
theory Go_Json
  imports Go_Strings
begin

text \<open>
  \<^verbatim>\<open>json.Valid\<close>: the pushdown scanner of \<^verbatim>\<open>encoding/json\<close>. The state is the scanner's step function,
  the stack of enclosing objects and arrays and the flag for a complete top-level value; a step is
  \<^term>\<open>None\<close> at a syntax error.
\<close>

datatype js_step =
    BeginValueOrEmpty | BeginValue | BeginStringOrEmpty | BeginString | EndValue | EndTop
  | InString | InStringEsc | InStringHex nat
  | Neg | Digits1 | Digits0 | Dot | Dot0 | Exp | ExpSign | Exp0
  | Word string

datatype js_context = ParseObjectKey | ParseObjectValue | ParseArrayValue

record js_scanner =
  js_step :: js_step
  js_stack :: "js_context list"
  js_endTop :: bool

definition js_start :: js_scanner where
  "js_start = \<lparr>js_step = BeginValue, js_stack = [], js_endTop = False\<rparr>"

definition js_space :: "char \<Rightarrow> bool" where
  "js_space c \<longleftrightarrow> c = CHR '' '' \<or> c = CHR 0x09 \<or> c = CHR 0x0D \<or> c = CHR 0x0A"

definition js_digit :: "char \<Rightarrow> bool" where
  "js_digit c \<longleftrightarrow> 48 \<le> code c \<and> code c \<le> 57"

definition js_hex :: "char \<Rightarrow> bool" where
  "js_hex c \<longleftrightarrow> js_digit c \<or> 97 \<le> code c \<and> code c \<le> 102 \<or> 65 \<le> code c \<and> code c \<le> 70"

definition js_max_depth :: nat where
  "js_max_depth = 10000"

definition js_push :: "js_context \<Rightarrow> js_step \<Rightarrow> js_scanner \<Rightarrow> js_scanner option" where
  "js_push p st s =
     (if length (js_stack s) < js_max_depth then Some (s\<lparr>js_stack := p # js_stack s, js_step := st\<rparr>) else None)"

definition js_pop :: "js_scanner \<Rightarrow> js_scanner option" where
  "js_pop s =
     (let rest = tl (js_stack s) in
      Some (if rest = [] then s\<lparr>js_stack := [], js_step := EndTop, js_endTop := True\<rparr>
            else s\<lparr>js_stack := rest, js_step := EndValue\<rparr>))"

definition js_goto :: "js_step \<Rightarrow> js_scanner \<Rightarrow> js_scanner option" where
  "js_goto st s = Some (s\<lparr>js_step := st\<rparr>)"

definition js_end_top :: "js_scanner \<Rightarrow> char \<Rightarrow> js_scanner option" where
  "js_end_top s c = (if js_space c then Some s else None)"

definition js_end_value :: "js_scanner \<Rightarrow> char \<Rightarrow> js_scanner option" where
  "js_end_value s c =
     (case js_stack s of
        [] \<Rightarrow> js_end_top (s\<lparr>js_step := EndTop, js_endTop := True\<rparr>) c
      | p # rest \<Rightarrow>
          if js_space c then js_goto EndValue s
          else (case p of
             ParseObjectKey \<Rightarrow>
               if c = CHR '':'' then Some (s\<lparr>js_stack := ParseObjectValue # rest, js_step := BeginValue\<rparr>) else None
           | ParseObjectValue \<Rightarrow>
               if c = CHR '','' then Some (s\<lparr>js_stack := ParseObjectKey # rest, js_step := BeginString\<rparr>)
               else if c = CHR ''}'' then js_pop s else None
           | ParseArrayValue \<Rightarrow>
               if c = CHR '','' then js_goto BeginValue s
               else if c = CHR '']'' then js_pop s else None))"

definition js_begin_value :: "js_scanner \<Rightarrow> char \<Rightarrow> js_scanner option" where
  "js_begin_value s c =
     (if js_space c then Some s
      else if c = CHR ''{'' then js_push ParseObjectKey BeginStringOrEmpty s
      else if c = CHR ''['' then js_push ParseArrayValue BeginValueOrEmpty s
      else if c = CHR 0x22 then js_goto InString s
      else if c = CHR ''-'' then js_goto Neg s
      else if c = CHR ''0'' then js_goto Digits0 s
      else if c = CHR ''t'' then js_goto (Word ''rue'') s
      else if c = CHR ''f'' then js_goto (Word ''alse'') s
      else if c = CHR ''n'' then js_goto (Word ''ull'') s
      else if js_digit c then js_goto Digits1 s
      else None)"

definition js_begin_string :: "js_scanner \<Rightarrow> char \<Rightarrow> js_scanner option" where
  "js_begin_string s c =
     (if js_space c then Some s else if c = CHR 0x22 then js_goto InString s else None)"

definition js_number_end :: "js_scanner \<Rightarrow> char \<Rightarrow> js_scanner option" where
  "js_number_end s c =
     (if c = CHR ''.'' then js_goto Dot s
      else if c = CHR ''e'' \<or> c = CHR ''E'' then js_goto Exp s
      else js_end_value s c)"

fun js_next :: "js_step \<Rightarrow> js_scanner \<Rightarrow> char \<Rightarrow> js_scanner option" where
  "js_next BeginValueOrEmpty s c =
     (if js_space c then Some s else if c = CHR '']'' then js_end_value s c else js_begin_value s c)"
| "js_next BeginValue s c = js_begin_value s c"
| "js_next BeginStringOrEmpty s c =
     (if js_space c then Some s
      else if c = CHR ''}'' then js_end_value (s\<lparr>js_stack := ParseObjectValue # tl (js_stack s)\<rparr>) c
      else js_begin_string s c)"
| "js_next BeginString s c = js_begin_string s c"
| "js_next EndValue s c = js_end_value s c"
| "js_next EndTop s c = js_end_top s c"
| "js_next InString s c =
     (if c = CHR 0x22 then js_goto EndValue s
      else if c = CHR 0x5C then js_goto InStringEsc s
      else if code c < 32 then None else Some s)"
| "js_next InStringEsc s c =
     (if c \<in> set ''bfnrt/'' \<or> c = CHR 0x5C \<or> c = CHR 0x22 then js_goto InString s
      else if c = CHR ''u'' then js_goto (InStringHex 3) s else None)"
| "js_next (InStringHex n) s c =
     (if js_hex c then js_goto (case n of 0 \<Rightarrow> InString | Suc m \<Rightarrow> InStringHex m) s else None)"
| "js_next Neg s c =
     (if c = CHR ''0'' then js_goto Digits0 s else if js_digit c then js_goto Digits1 s else None)"
| "js_next Digits1 s c = (if js_digit c then js_goto Digits1 s else js_number_end s c)"
| "js_next Digits0 s c = js_number_end s c"
| "js_next Dot s c = (if js_digit c then js_goto Dot0 s else None)"
| "js_next Dot0 s c =
     (if js_digit c then Some s
      else if c = CHR ''e'' \<or> c = CHR ''E'' then js_goto Exp s else js_end_value s c)"
| "js_next Exp s c =
     (if c = CHR ''+'' \<or> c = CHR ''-'' then js_goto ExpSign s
      else if js_digit c then js_goto Exp0 s else None)"
| "js_next ExpSign s c = (if js_digit c then js_goto Exp0 s else None)"
| "js_next Exp0 s c = (if js_digit c then Some s else js_end_value s c)"
| "js_next (Word w) s c =
     (case w of
        [] \<Rightarrow> None
      | d # ds \<Rightarrow> if c = d then js_goto (if ds = [] then EndValue else Word ds) s else None)"

fun js_scan :: "js_scanner \<Rightarrow> string \<Rightarrow> js_scanner option" where
  "js_scan s [] = Some s"
| "js_scan s (c # cs) =
     (case js_next (js_step s) s c of None \<Rightarrow> None | Some s' \<Rightarrow> js_scan s' cs)"

definition js_eof :: "js_scanner \<Rightarrow> bool" where
  "js_eof s \<longleftrightarrow> js_endTop s \<or>
     (case js_next (js_step s) s (CHR '' '') of None \<Rightarrow> False | Some s' \<Rightarrow> js_endTop s')"

definition json_valid :: "bytes \<Rightarrow> bool" where
  "json_valid s = (case js_scan js_start s of None \<Rightarrow> False | Some s' \<Rightarrow> js_eof s')"

lemma js_scan_append:
  "js_scan s (a @ b) = (case js_scan s a of None \<Rightarrow> None | Some s' \<Rightarrow> js_scan s' b)"
  by (induction a arbitrary: s) (auto split: option.splits)

text \<open>Small documents, evaluated: whitespace, nesting, numbers, escapes, and texts that are rejected.\<close>

lemmas js_defs = json_valid_def js_start_def js_eof_def js_begin_value_def js_begin_string_def js_end_value_def
  js_end_top_def js_number_end_def js_push_def js_pop_def js_goto_def js_space_def js_digit_def js_hex_def
  js_max_depth_def code_def

lemma json_valid_examples:
  "json_valid ''{}''" "json_valid '' [1, -2.5e+3, true, null] ''" "json_valid ''0''"
  "\<not> json_valid []" "\<not> json_valid ''{''" "\<not> json_valid ''01''" "\<not> json_valid ''1 2''" "\<not> json_valid ''[1,]''"
  "\<not> json_valid ''tru''"
  by (simp_all add: js_defs)

text \<open>The empty text is never valid, and surrounding whitespace does not matter at the front.\<close>

lemma json_valid_space: "js_space c \<Longrightarrow> json_valid (c # s) = json_valid s"
  by (simp add: json_valid_def js_start_def js_begin_value_def)

end
