(* ===== verification/Event_Service.thy ===== *)
theory Event_Service
  imports Store Go_Json
begin

text \<open>
  \<^verbatim>\<open>internal/eventing/service.go\<close> and \<^verbatim>\<open>internal/delivery/management.go\<close>: the services between the API
  and the store for events and deliveries. The repository is the interface the code declares; a
  call gets and returns the state of type \<open>'s\<close> behind it. \<^verbatim>\<open>uuid.Parse\<close> (which only decides here) is the
  parameter \<open>uuid_ok\<close>, and the identifiers made by \<^verbatim>\<open>uuid.NewString\<close> are arguments.
\<close>

section \<open>eventing/service.go\<close>

definition MaximumPayloadBytes :: nat where
  "MaximumPayloadBytes = 1048576"

record PublishInput =
  pi_EndpointID :: string
  pi_Type :: string
  pi_Payload :: bytes
  pi_IdempotencyKey :: string

definition alnum :: "char \<Rightarrow> bool" where
  "alnum c \<longleftrightarrow> 48 \<le> code c \<and> code c \<le> 57 \<or> 65 \<le> code c \<and> code c \<le> 90 \<or> 97 \<le> code c \<and> code c \<le> 122"

text \<open>\<^verbatim>\<open>^[A-Za-z0-9][A-Za-z0-9._:-]{0,99}$\<close>.\<close>

fun eventTypePattern :: "string \<Rightarrow> bool" where
  "eventTypePattern [] = False"
| "eventTypePattern (c # cs) \<longleftrightarrow>
     alnum c \<and> length cs \<le> 99 \<and> list_all (\<lambda>d. alnum d \<or> d \<in> set ''._:-'') cs"

definition validIdempotencyKey :: "string \<Rightarrow> bool" where
  "validIdempotencyKey value =
     (if value = [] \<or> \<not> utf8_valid value \<or> 200 < rune_count value then False
      else list_all (\<lambda>(current, _). \<not> (current < 32 \<or> current = 127)) (runes value))"

definition event_invalid :: "string \<Rightarrow> go_error" where
  "event_invalid s = WrapSuffix (ErrVar EventErrInvalid) s"

definition publish_params :: "string \<Rightarrow> string \<Rightarrow> PublishInput \<Rightarrow> EnqueueParams" where
  "publish_params eventID deliveryID input =
     \<lparr>pm_EventID = eventID, pm_DeliveryID = deliveryID, pm_EndpointID = pi_EndpointID input,
      pm_Type = trim_space (pi_Type input), pm_Payload = pi_Payload input,
      pm_IdempotencyKey = trim_space (pi_IdempotencyKey input)\<rparr>"

definition Publish ::
  "(string \<Rightarrow> bool) \<Rightarrow> string \<Rightarrow> string \<Rightarrow> (EnqueueParams \<Rightarrow> 's \<Rightarrow> (go_error, Enqueued) result \<times> 's)
    \<Rightarrow> PublishInput \<Rightarrow> 's \<Rightarrow> (go_error, Enqueued) result \<times> 's" where
  "Publish uuid_ok eventID deliveryID enqueue input s =
     (if \<not> uuid_ok (pi_EndpointID input) then (Inl (event_invalid ''malformed endpoint id''), s)
      else if \<not> eventTypePattern (trim_space (pi_Type input))
        then (Inl (event_invalid ''event type must contain 1 to 100 safe characters''), s)
      else if length (pi_Payload input) = 0 \<or> MaximumPayloadBytes < length (pi_Payload input) \<or>
          \<not> json_valid (pi_Payload input)
        then (Inl (event_invalid ''payload must be valid JSON up to 1048576 bytes''), s)
      else if \<not> validIdempotencyKey (trim_space (pi_IdempotencyKey input))
        then (Inl (event_invalid ''idempotency key must contain 1 to 200 printable characters''), s)
      else case enqueue (publish_params eventID deliveryID input) s of
        (Inl err, s') \<Rightarrow> (Inl (WrapPrefix ''enqueue event'' err), s')
      | (Inr r, s') \<Rightarrow> (Inr r, s'))"

section \<open>delivery/management.go\<close>

definition delivery_invalid :: go_error where
  "delivery_invalid = WrapSuffix (ErrVar DeliveryErrInvalid) ''malformed delivery id''"

definition Delivery_Get ::
  "(string \<Rightarrow> bool) \<Rightarrow> (string \<Rightarrow> 's \<Rightarrow> (go_error, Details) result \<times> 's) \<Rightarrow> string \<Rightarrow> 's
    \<Rightarrow> (go_error, Details) result \<times> 's" where
  "Delivery_Get uuid_ok get i s =
     (if \<not> uuid_ok i then (Inl delivery_invalid, s)
      else case get i s of
        (Inl err, s') \<Rightarrow> (Inl (WrapPrefix ''get delivery'' err), s')
      | (Inr r, s') \<Rightarrow> (Inr r, s'))"

definition Delivery_Replay ::
  "(string \<Rightarrow> bool) \<Rightarrow> (string \<Rightarrow> 's \<Rightarrow> (go_error, delivery) result \<times> 's) \<Rightarrow> string \<Rightarrow> 's
    \<Rightarrow> (go_error, delivery) result \<times> 's" where
  "Delivery_Replay uuid_ok replay i s =
     (if \<not> uuid_ok i then (Inl delivery_invalid, s)
      else case replay i s of
        (Inl err, s') \<Rightarrow> (Inl (WrapPrefix ''replay delivery'' err), s')
      | (Inr r, s') \<Rightarrow> (Inr r, s'))"

section \<open>Accepted input\<close>

text \<open>What an input must satisfy to reach the repository.\<close>

definition publishable :: "(string \<Rightarrow> bool) \<Rightarrow> PublishInput \<Rightarrow> bool" where
  "publishable uuid_ok input \<longleftrightarrow>
     uuid_ok (pi_EndpointID input) \<and> eventTypePattern (trim_space (pi_Type input)) \<and>
     0 < length (pi_Payload input) \<and> length (pi_Payload input) \<le> MaximumPayloadBytes \<and>
     json_valid (pi_Payload input) \<and> validIdempotencyKey (trim_space (pi_IdempotencyKey input))"

lemma Publish_publishable:
  "publishable uuid_ok input \<Longrightarrow>
    Publish uuid_ok ev dl enqueue input s =
      (case enqueue (publish_params ev dl input) s of
         (Inl err, s') \<Rightarrow> (Inl (WrapPrefix ''enqueue event'' err), s') | (Inr r, s') \<Rightarrow> (Inr r, s'))"
  by (simp add: Publish_def publishable_def)

lemma Publish_refused:
  "\<not> publishable uuid_ok input \<Longrightarrow>
    \<exists>msg. Publish uuid_ok ev dl enqueue input s = (Inl (event_invalid msg), s)"
  by (auto simp: Publish_def publishable_def)

lemma Publish_InrD:
  assumes "Publish uuid_ok ev dl enqueue input s = (Inr q, s')"
  shows "publishable uuid_ok input" and "enqueue (publish_params ev dl input) s = (Inr q, s')"
proof -
  show p: "publishable uuid_ok input" using assms Publish_refused [of uuid_ok input ev dl enqueue s] by fastforce
  show "enqueue (publish_params ev dl input) s = (Inr q, s')"
    using assms unfolding Publish_publishable [OF p] by (auto split: prod.splits sum.splits)
qed

text \<open>Accepted types and keys are texts that the database can store.\<close>

lemma code_0: "code CHR 0x00 = 0"
  by (simp add: code_def)

lemma alnum_ascii:
  assumes "alnum c"
  shows "code c < 128 \<and> c \<noteq> CHR 0x00"
proof
  show "code c < 128" using assms by (auto simp: alnum_def)
  have "48 \<le> code c" using assms by (auto simp: alnum_def)
  then show "c \<noteq> CHR 0x00" using code_0 by auto
qed

lemma eventTypePattern_ascii:
  assumes "eventTypePattern s"
  shows "list_all (\<lambda>c. code c < 128 \<and> c \<noteq> CHR 0x00) s"
proof -
  have punct: "code d < 128 \<and> d \<noteq> CHR 0x00" if "d \<in> set ''._:-''" for d using that by (auto simp: code_def)
  from assms obtain c cs where s: "s = c # cs" and c: "alnum c"
    and cs: "list_all (\<lambda>d. alnum d \<or> d \<in> set ''._:-'') cs"
    by (cases s) (simp_all only: eventTypePattern.simps)
  from cs have "list_all (\<lambda>c. code c < 128 \<and> c \<noteq> CHR 0x00) cs"
    by (rule list.pred_mono_strong) (use punct alnum_ascii in blast)
  then show ?thesis using s alnum_ascii [OF c] by simp
qed

end
