(* ===== verification/Go_Strconv.thy ===== *)
theory Go_Strconv
  imports Go_Strings
begin

text \<open>
  \<^verbatim>\<open>strconv.Atoi\<close>, \<^verbatim>\<open>strconv.Itoa\<close> (\<open>int_text\<close> of \<open>Go_Strings\<close>), \<^verbatim>\<open>strconv.ParseBool\<close> and
  \<^verbatim>\<open>strconv.FormatBool\<close>. A text that is no number, or a number outside \<^verbatim>\<open>int\<close>, has no value.
\<close>

definition is_digit :: "char \<Rightarrow> bool" where
  "is_digit c \<longleftrightarrow> 48 \<le> code c \<and> code c \<le> 57"

definition atoi_digits :: "string \<Rightarrow> nat option" where
  "atoi_digits s = (if s = [] \<or> \<not> list_all is_digit s then None else Some (digits_value s))"

definition in_int64 :: "int \<Rightarrow> int option" where
  "in_int64 n = (if - max_int64 - 1 \<le> n \<and> n \<le> max_int64 then Some n else None)"

fun atoi :: "string \<Rightarrow> int option" where
  "atoi [] = None"
| "atoi (c # cs) =
     (if c = CHR ''-'' then Option.bind (atoi_digits cs) (\<lambda>n. in_int64 (- int n))
      else if c = CHR ''+'' then Option.bind (atoi_digits cs) (\<lambda>n. in_int64 (int n))
      else Option.bind (atoi_digits (c # cs)) (\<lambda>n. in_int64 (int n)))"

definition parse_bool :: "string \<Rightarrow> bool option" where
  "parse_bool s =
     (if s \<in> {''1'', ''t'', ''T'', ''true'', ''TRUE'', ''True''} then Some True
      else if s \<in> {''0'', ''f'', ''F'', ''false'', ''FALSE'', ''False''} then Some False
      else None)"

definition format_bool :: "bool \<Rightarrow> string" where
  "format_bool b = (if b then ''true'' else ''false'')"

section \<open>Round trips\<close>

lemma nat_text_is_digit: "list_all is_digit (nat_text n)"
  using nat_text_digits by (auto simp: list_all_iff is_digit_def)

lemma nat_text_not_Nil: "nat_text n \<noteq> []"
  by (subst nat_text.simps) simp

lemma atoi_digits_nat_text: "atoi_digits (nat_text n) = Some n"
  by (simp add: atoi_digits_def nat_text_is_digit nat_text_not_Nil digits_value_nat_text)

lemma atoi_int_text:
  assumes "- max_int64 - 1 \<le> i" and "i \<le> max_int64"
  shows "atoi (int_text i) = Some i"
proof (cases "i < 0")
  case True
  then have "int_text i = CHR ''-'' # nat_text (nat (- i))" by (simp add: int_text_def)
  then show ?thesis using assms True by (simp add: atoi_digits_nat_text in_int64_def)
next
  case False
  obtain c cs where n: "nat_text (nat i) = c # cs" using nat_text_not_Nil by (cases "nat_text (nat i)") auto
  have "is_digit c" using nat_text_is_digit [of "nat i"] n by simp
  then have "c \<noteq> CHR ''-'' \<and> c \<noteq> CHR ''+''" by (auto simp: is_digit_def code_def)
  moreover have "int_text i = c # cs" using False n by (simp add: int_text_def)
  ultimately show ?thesis
    using assms False atoi_digits_nat_text [of "nat i"] n by (simp add: in_int64_def)
qed

lemma parse_format_bool: "parse_bool (format_bool b) = Some b"
  by (simp add: parse_bool_def format_bool_def)

lemma atoi_range: "atoi s = Some i \<Longrightarrow> - max_int64 - 1 \<le> i \<and> i \<le> max_int64"
  by (cases s) (auto simp: in_int64_def split: if_splits bind_splits)

end
