(* ===== verification/Buildinfo.thy ===== *)
theory Buildinfo
  imports Prelude
begin

text \<open>
  \<^verbatim>\<open>internal/buildinfo/buildinfo.go\<close>. The variables that the linker may set, the version of the
  runtime and the answer of \<^verbatim>\<open>debug.ReadBuildInfo\<close> are arguments.
\<close>

record Info =
  in_Version :: string
  in_Commit :: string
  in_BuiltAt :: string
  in_GoVersion :: string
  in_Dirty :: bool

record build_details =
  bd_MainVersion :: string
  bd_Settings :: "(string \<times> string) list"

definition apply_setting :: "string \<times> string \<Rightarrow> Info \<Rightarrow> Info" where
  "apply_setting setting r =
     (case setting of (key, v) \<Rightarrow>
        if key = ''vcs.revision'' then (if in_Commit r = ''none'' then r\<lparr>in_Commit := v\<rparr> else r)
        else if key = ''vcs.time'' then (if in_BuiltAt r = ''unknown'' then r\<lparr>in_BuiltAt := v\<rparr> else r)
        else if key = ''vcs.modified'' then r\<lparr>in_Dirty := (v = ''true'')\<rparr>
        else r)"

definition Current :: "string \<Rightarrow> string \<Rightarrow> string \<Rightarrow> string \<Rightarrow> build_details option \<Rightarrow> Info" where
  "Current Version Commit BuiltAt goVersion read =
     (let r = \<lparr>in_Version = Version, in_Commit = Commit, in_BuiltAt = BuiltAt, in_GoVersion = goVersion,
               in_Dirty = False\<rparr>
      in case read of
        None \<Rightarrow> r
      | Some details \<Rightarrow>
          fold apply_setting (bd_Settings details)
            (if in_Version r = ''dev'' \<and> bd_MainVersion details \<noteq> [] \<and> bd_MainVersion details \<noteq> ''(devel)''
             then r\<lparr>in_Version := bd_MainVersion details\<rparr> else r))"

text \<open>What the linker set is never overwritten by what the module records.\<close>

lemma fold_settings_keep:
  "in_Version (fold apply_setting ss r) = in_Version r \<and> in_GoVersion (fold apply_setting ss r) = in_GoVersion r \<and>
   (in_Commit r \<noteq> ''none'' \<longrightarrow> in_Commit (fold apply_setting ss r) = in_Commit r) \<and>
   (in_BuiltAt r \<noteq> ''unknown'' \<longrightarrow> in_BuiltAt (fold apply_setting ss r) = in_BuiltAt r)"
  by (induction ss arbitrary: r) (auto simp: apply_setting_def split: prod.splits)

lemma Current_linker_wins:
  "(Version \<noteq> ''dev'' \<longrightarrow> in_Version (Current Version Commit BuiltAt go read) = Version) \<and>
   (Commit \<noteq> ''none'' \<longrightarrow> in_Commit (Current Version Commit BuiltAt go read) = Commit) \<and>
   (BuiltAt \<noteq> ''unknown'' \<longrightarrow> in_BuiltAt (Current Version Commit BuiltAt go read) = BuiltAt)"
proof (cases read)
  case (Some details)
  then show ?thesis
    using fold_settings_keep [of "bd_Settings details"] by (auto simp: Current_def Let_def)
qed (simp add: Current_def)

end
