(* ===== verification/Api.thy ===== *)
theory Api
  imports Endpoint_Service Event_Service Go_Strconv Buildinfo
begin

text \<open>
  \<^verbatim>\<open>internal/api\<close>: the HTTP server. The three services are the interfaces the code declares, on a state
  of type \<open>'s\<close>. A response is its status, headers and body; a body is the value that is encoded as
  JSON. A request carries the segments of its path (\<^verbatim>\<open>http.ServeMux\<close> redirects a path that is not clean
  before any handler runs) and the headers the code reads. Decoding of JSON bodies and parsing of media
  types are the parameters in \<open>json_env\<close>.
\<close>

section \<open>Requests and responses\<close>

record request =
  rt_Method :: string
  rt_Path :: "string list"
  rt_Authorization :: string
  rt_ContentType :: string
  rt_IdempotencyKey :: string
  rt_Limit :: string
  rt_Body :: bytes

record endpointResponse =
  ew_ID :: string
  ew_Name :: string
  ew_URL :: string
  ew_Secret :: string
  ew_TimeoutMS :: int
  ew_MaxAttempts :: int
  ew_ConsecutiveFailures :: int
  ew_CircuitOpenUntil :: "time option"
  ew_DisabledAt :: "time option"
  ew_CreatedAt :: time
  ew_UpdatedAt :: time

record deliveryResponse =
  dw_ID :: string
  dw_EventID :: string
  dw_EndpointID :: string
  dw_Status :: status
  dw_AttemptCount :: int
  dw_MaxAttempts :: int
  dw_NextAttemptAt :: time
  dw_LockedUntil :: "time option"
  dw_LastStatusCode :: "int option"
  dw_LastError :: string
  dw_LastCompletedAt :: "time option"
  dw_CreatedAt :: time
  dw_UpdatedAt :: time

record eventResponse =
  vw_ID :: string
  vw_EndpointID :: string
  vw_Type :: string
  vw_Payload :: bytes
  vw_IdempotencyKey :: string
  vw_CreatedAt :: time

record attemptResponse =
  aw_ID :: string
  aw_Number :: int
  aw_StatusCode :: "int option"
  aw_ResponseBody :: string
  aw_ErrorMessage :: string
  aw_DurationMS :: int
  aw_StartedAt :: time
  aw_CompletedAt :: time

record deliveryDetailsResponse =
  tw_Delivery :: deliveryResponse
  tw_Event :: eventResponse
  tw_Attempts :: "attemptResponse list"

record publishEventResponse =
  pw_EventID :: string
  pw_DeliveryID :: string
  pw_Status :: status
  pw_Duplicate :: bool

datatype body =
    BError string string | BEndpoint endpointResponse | BEndpoints "endpointResponse list"
  | BPublished publishEventResponse | BDetails deliveryDetailsResponse | BDelivery deliveryResponse
  | BStatus string | BLive string time | BVersion Info | BMetrics | BText string | BNone

record response =
  re_Status :: int
  re_Header :: "(string \<times> string) list"
  re_Body :: body

definition writeJSON :: "int \<Rightarrow> (string \<times> string) list \<Rightarrow> body \<Rightarrow> response" where
  "writeJSON st headers b =
     \<lparr>re_Status = st, re_Header = headers @ [(''Content-Type'', ''application/json'')], re_Body = b\<rparr>"

definition writeError :: "int \<Rightarrow> string \<Rightarrow> string \<Rightarrow> response" where
  "writeError st ecode message = writeJSON st [] (BError ecode message)"

section \<open>Views\<close>

definition endpointView :: "endpoint \<Rightarrow> endpointResponse" where
  "endpointView v =
     \<lparr>ew_ID = ep_ID v, ew_Name = ep_Name v, ew_URL = ep_URL v, ew_Secret = [],
      ew_TimeoutMS = milliseconds (ep_Timeout v), ew_MaxAttempts = ep_MaxAttempts v,
      ew_ConsecutiveFailures = ep_ConsecutiveFailures v, ew_CircuitOpenUntil = ep_CircuitOpenUntil v,
      ew_DisabledAt = ep_DisabledAt v, ew_CreatedAt = ep_CreatedAt v, ew_UpdatedAt = ep_UpdatedAt v\<rparr>"

definition deliveryView :: "delivery \<Rightarrow> deliveryResponse" where
  "deliveryView v =
     \<lparr>dw_ID = dl_ID v, dw_EventID = dl_EventID v, dw_EndpointID = dl_EndpointID v, dw_Status = dl_Status v,
      dw_AttemptCount = dl_AttemptCount v, dw_MaxAttempts = dl_MaxAttempts v,
      dw_NextAttemptAt = dl_NextAttemptAt v, dw_LockedUntil = dl_LockedUntil v,
      dw_LastStatusCode = dl_LastStatusCode v, dw_LastError = dl_LastError v,
      dw_LastCompletedAt = dl_LastCompletedAt v, dw_CreatedAt = dl_CreatedAt v, dw_UpdatedAt = dl_UpdatedAt v\<rparr>"

definition eventView :: "event \<Rightarrow> eventResponse" where
  "eventView v =
     \<lparr>vw_ID = ev_ID v, vw_EndpointID = ev_EndpointID v, vw_Type = ev_Type v, vw_Payload = ev_Payload v,
      vw_IdempotencyKey = ev_IdempotencyKey v, vw_CreatedAt = ev_CreatedAt v\<rparr>"

definition attemptView :: "attempt \<Rightarrow> attemptResponse" where
  "attemptView a =
     \<lparr>aw_ID = at_ID a, aw_Number = at_Number a, aw_StatusCode = at_StatusCode a,
      aw_ResponseBody = at_ResponseBody a, aw_ErrorMessage = at_ErrorMessage a,
      aw_DurationMS = milliseconds (at_Duration a), aw_StartedAt = at_StartedAt a,
      aw_CompletedAt = at_CompletedAt a\<rparr>"

section \<open>Decoding\<close>

record createEndpointRequest =
  cq_Name :: string
  cq_URL :: string
  cq_TimeoutMS :: int
  cq_MaxAttempts :: int

record publishEventRequest =
  pq_EndpointID :: string
  pq_Type :: string
  pq_Payload :: bytes

text \<open>A body behind \<^verbatim>\<open>MaxBytesReader\<close>: its bytes up to the limit, and whether reading on fails.\<close>

type_synonym limited_body = "bytes \<times> bool"

record json_env =
  je_media :: "string \<Rightarrow> (go_error, string) result"
  je_endpoint :: "limited_body \<Rightarrow> (go_error, createEndpointRequest) result"
  je_event :: "limited_body \<Rightarrow> (go_error, publishEventRequest) result"
  je_end :: "limited_body \<Rightarrow> bool"

definition maximumEndpointBody :: nat where
  "maximumEndpointBody = 65536"

definition maximumEventBody :: nat where
  "maximumEventBody = MaximumPayloadBytes + 4096"

definition decodeJSON ::
  "json_env \<Rightarrow> (limited_body \<Rightarrow> (go_error, 'a) result) \<Rightarrow> nat \<Rightarrow> request \<Rightarrow> (go_error, 'a) result" where
  "decodeJSON je decode maximumBytes r =
     (case je_media je (rt_ContentType r) of
        Inl _ \<Rightarrow> Inl (ErrVar ErrUnsupportedMediaType)
      | Inr mediaType \<Rightarrow>
          if mediaType \<noteq> ''application/json'' then Inl (ErrVar ErrUnsupportedMediaType)
          else
            (let b = (take maximumBytes (rt_Body r), maximumBytes < length (rt_Body r)) in
             case decode b of
               Inl err \<Rightarrow> Inl (WrapPrefix ''invalid JSON'' err)
             | Inr v \<Rightarrow>
                 if je_end je b then Inr v
                 else Inl (ErrNew ''request body must contain one JSON object'')))"

definition decode_error :: "go_error \<Rightarrow> response" where
  "decode_error err =
     (if errors_is err ErrUnsupportedMediaType then writeError 415 ''unsupported_media_type'' (error_text err)
      else writeError 400 ''invalid_request'' (error_text err))"

section \<open>Errors of the services\<close>

definition writeEndpointError :: "go_error \<Rightarrow> response" where
  "writeEndpointError err =
     (if errors_is err EndpointErrInvalid then
        writeError 400 ''invalid_request'' (trim_prefix (error_text err) (sentinel_text EndpointErrInvalid @ '': ''))
      else if errors_is err EndpointErrNotFound then writeError 404 ''not_found'' ''endpoint not found''
      else writeError 500 ''internal_error'' ''internal server error'')"

definition writeEventError :: "go_error \<Rightarrow> response" where
  "writeEventError err =
     (if errors_is err EventErrInvalid then
        (let message = trim_prefix (error_text err) ''enqueue event: '' in
         writeError 400 ''invalid_request'' (trim_prefix message (sentinel_text EventErrInvalid @ '': '')))
      else if errors_is err EndpointErrNotFound then writeError 404 ''not_found'' ''endpoint not found''
      else if errors_is err EventErrEndpointDisabled then
        writeError 409 ''endpoint_disabled'' ''endpoint is disabled''
      else if errors_is err EventErrIdempotencyConflict then
        writeError 409 ''idempotency_conflict'' ''idempotency key was already used with a different event''
      else writeError 500 ''internal_error'' ''internal server error'')"

definition writeDeliveryError :: "go_error \<Rightarrow> response" where
  "writeDeliveryError err =
     (if errors_is err DeliveryErrInvalid then
        writeError 400 ''invalid_request'' (trim_prefix (error_text err) (sentinel_text DeliveryErrInvalid @ '': ''))
      else if errors_is err DeliveryErrNotFound then writeError 404 ''not_found'' ''delivery not found''
      else if errors_is err DeliveryErrNotReplayable then
        writeError 409 ''not_replayable'' ''only dead deliveries can be replayed''
      else if errors_is err DeliveryErrEndpointDisabled then
        writeError 409 ''endpoint_disabled'' ''delivery endpoint is disabled''
      else writeError 500 ''internal_error'' ''internal server error'')"

section \<open>Handlers\<close>

record 's Server =
  sv_apiKey :: string
  sv_create :: "CreateInput \<Rightarrow> 's \<Rightarrow> (go_error, Created) result \<times> 's"
  sv_list :: "int \<Rightarrow> 's \<Rightarrow> (go_error, endpoint list) result"
  sv_get :: "string \<Rightarrow> 's \<Rightarrow> (go_error, endpoint) result"
  sv_disable :: "string \<Rightarrow> 's \<Rightarrow> (go_error, endpoint) result \<times> 's"
  sv_publish :: "PublishInput \<Rightarrow> 's \<Rightarrow> (go_error, Enqueued) result \<times> 's"
  sv_details :: "string \<Rightarrow> 's \<Rightarrow> (go_error, Details) result \<times> 's"
  sv_replay :: "string \<Rightarrow> 's \<Rightarrow> (go_error, delivery) result \<times> 's"
  sv_readiness :: "'s \<Rightarrow> go_error option"
  sv_metrics :: bool
  sv_httpObserver :: bool
  sv_buildInfo :: Info
  sv_startedAt :: time

definition createEndpoint :: "'s Server \<Rightarrow> json_env \<Rightarrow> request \<Rightarrow> 's \<Rightarrow> response \<times> 's" where
  "createEndpoint sv je r s =
     (case decodeJSON je (je_endpoint je) maximumEndpointBody r of
        Inl err \<Rightarrow> (decode_error err, s)
      | Inr q \<Rightarrow>
         if cq_TimeoutMS q < 0 \<or> 30000 < cq_TimeoutMS q
           then (writeError 400 ''invalid_request'' ''timeout_ms must be between 0 and 30000'', s)
         else if cq_MaxAttempts q < 0 \<or> 100 < cq_MaxAttempts q
           then (writeError 400 ''invalid_request'' ''max_attempts must be between 0 and 100'', s)
         else case sv_create sv \<lparr>ci_Name = cq_Name q, ci_URL = cq_URL q,
                 ci_Timeout = wrap64 (cq_TimeoutMS q * millisecond), ci_MaxAttempts = cq_MaxAttempts q\<rparr> s of
           (Inl err, s') \<Rightarrow> (writeEndpointError err, s')
         | (Inr created, s') \<Rightarrow>
             (writeJSON 201 [(''Location'', ''/v1/endpoints/'' @ ep_ID (cr_Endpoint created))]
                (BEndpoint ((endpointView (cr_Endpoint created))\<lparr>ew_Secret := cr_Secret created\<rparr>)), s'))"

definition listEndpoints :: "'s Server \<Rightarrow> request \<Rightarrow> 's \<Rightarrow> response" where
  "listEndpoints sv r s =
     (case (if rt_Limit r = [] then Some 50 else atoi (rt_Limit r)) of
        None \<Rightarrow> writeError 400 ''invalid_request'' ''limit must be an integer''
      | Some limit \<Rightarrow>
         (case sv_list sv limit s of
            Inl err \<Rightarrow> writeEndpointError err
          | Inr items \<Rightarrow> writeJSON 200 [] (BEndpoints (map endpointView items))))"

definition getEndpoint :: "'s Server \<Rightarrow> string \<Rightarrow> 's \<Rightarrow> response" where
  "getEndpoint sv endpoint_id s =
     (case sv_get sv endpoint_id s of
        Inl err \<Rightarrow> writeEndpointError err
      | Inr item \<Rightarrow> writeJSON 200 [] (BEndpoint (endpointView item)))"

definition disableEndpoint :: "'s Server \<Rightarrow> string \<Rightarrow> 's \<Rightarrow> response \<times> 's" where
  "disableEndpoint sv endpoint_id s =
     (case sv_disable sv endpoint_id s of
        (Inl err, s') \<Rightarrow> (writeEndpointError err, s')
      | (Inr _, s') \<Rightarrow> (\<lparr>re_Status = 204, re_Header = [], re_Body = BNone\<rparr>, s'))"

definition publishEvent :: "'s Server \<Rightarrow> json_env \<Rightarrow> request \<Rightarrow> 's \<Rightarrow> response \<times> 's" where
  "publishEvent sv je r s =
     (case decodeJSON je (je_event je) maximumEventBody r of
        Inl err \<Rightarrow> (decode_error err, s)
      | Inr q \<Rightarrow>
         (case sv_publish sv \<lparr>pi_EndpointID = pq_EndpointID q, pi_Type = pq_Type q, pi_Payload = pq_Payload q,
                 pi_IdempotencyKey = rt_IdempotencyKey r\<rparr> s of
            (Inl err, s') \<Rightarrow> (writeEventError err, s')
          | (Inr result, s') \<Rightarrow>
              (writeJSON 202 [(''Location'', ''/v1/deliveries/'' @ dl_ID (nq_Delivery result))]
                 (BPublished \<lparr>pw_EventID = ev_ID (nq_Event result), pw_DeliveryID = dl_ID (nq_Delivery result),
                    pw_Status = dl_Status (nq_Delivery result), pw_Duplicate = nq_Duplicate result\<rparr>), s')))"

definition getDelivery :: "'s Server \<Rightarrow> string \<Rightarrow> 's \<Rightarrow> response \<times> 's" where
  "getDelivery sv delivery_id s =
     (case sv_details sv delivery_id s of
        (Inl err, s') \<Rightarrow> (writeDeliveryError err, s')
      | (Inr details, s') \<Rightarrow>
          (writeJSON 200 [] (BDetails
             \<lparr>tw_Delivery = deliveryView (dt_Delivery details), tw_Event = eventView (dt_Event details),
              tw_Attempts = map attemptView (dt_Attempts details)\<rparr>), s'))"

definition replayDelivery :: "'s Server \<Rightarrow> string \<Rightarrow> 's \<Rightarrow> response \<times> 's" where
  "replayDelivery sv delivery_id s =
     (case sv_replay sv delivery_id s of
        (Inl err, s') \<Rightarrow> (writeDeliveryError err, s')
      | (Inr result, s') \<Rightarrow>
          (writeJSON 202 [(''Location'', ''/v1/deliveries/'' @ dl_ID result)] (BDelivery (deliveryView result)), s'))"

definition version :: "'s Server \<Rightarrow> response" where
  "version sv = writeJSON 200 [] (BVersion (sv_buildInfo sv))"

definition live :: "'s Server \<Rightarrow> response" where
  "live sv = writeJSON 200 [] (BLive ''ok'' (sv_startedAt sv))"

definition ready :: "'s Server \<Rightarrow> 's \<Rightarrow> response" where
  "ready sv s =
     (case sv_readiness sv s of
        Some _ \<Rightarrow> writeJSON 503 [] (BStatus ''not_ready'')
      | None \<Rightarrow> writeJSON 200 [] (BStatus ''ready''))"

section \<open>Authentication and routing\<close>

definition cut :: "char \<Rightarrow> string \<Rightarrow> string \<times> string \<times> bool" where
  "cut sep s =
     (case index_byte sep s of None \<Rightarrow> (s, [], False) | Some i \<Rightarrow> (take i s, drop (i + 1) s, True))"

definition authorized :: "string \<Rightarrow> request \<Rightarrow> bool" where
  "authorized apiKey r =
     (case cut (CHR '' '') (rt_Authorization r) of
        (scheme, token, found) \<Rightarrow> found \<and> scheme = ''Bearer'' \<and> token = apiKey)"

datatype segment = Lit string | Any

fun path_match :: "segment list \<Rightarrow> string list \<Rightarrow> string list option" where
  "path_match [] [] = Some []"
| "path_match (Lit l # ps) (x # xs) = (if x = l then path_match ps xs else None)"
| "path_match (Any # ps) (x # xs) = (if x = [] then None else map_option ((#) x) (path_match ps xs))"
| "path_match _ _ = None"

datatype route =
    Live | Ready | VersionRoute | MetricsRoute
  | CreateEndpointRoute | ListEndpointsRoute | GetEndpointRoute | DisableEndpointRoute
  | PublishRoute | GetDeliveryRoute | ReplayRoute

record pattern =
  pt_method :: string
  pt_path :: "segment list"
  pt_text :: string
  pt_route :: route

definition pattern_of :: "string \<Rightarrow> segment list \<Rightarrow> string \<Rightarrow> route \<Rightarrow> pattern" where
  "pattern_of m p t r = \<lparr>pt_method = m, pt_path = p, pt_text = t, pt_route = r\<rparr>"

definition public_patterns :: "'s Server \<Rightarrow> pattern list" where
  "public_patterns sv =
     [pattern_of ''GET'' [Lit ''health'', Lit ''live''] ''GET /health/live'' Live,
      pattern_of ''GET'' [Lit ''health'', Lit ''ready''] ''GET /health/ready'' Ready,
      pattern_of ''GET'' [Lit ''version''] ''GET /version'' VersionRoute] @
     (if sv_metrics sv then [pattern_of ''GET'' [Lit ''metrics''] ''GET /metrics'' MetricsRoute] else [])"

definition private_patterns :: "pattern list" where
  "private_patterns =
     [pattern_of ''POST'' [Lit ''v1'', Lit ''endpoints''] ''POST /v1/endpoints'' CreateEndpointRoute,
      pattern_of ''GET'' [Lit ''v1'', Lit ''endpoints''] ''GET /v1/endpoints'' ListEndpointsRoute,
      pattern_of ''GET'' [Lit ''v1'', Lit ''endpoints'', Any] ''GET /v1/endpoints/{endpoint_id}'' GetEndpointRoute,
      pattern_of ''DELETE'' [Lit ''v1'', Lit ''endpoints'', Any] ''DELETE /v1/endpoints/{endpoint_id}'' DisableEndpointRoute,
      pattern_of ''POST'' [Lit ''v1'', Lit ''events''] ''POST /v1/events'' PublishRoute,
      pattern_of ''GET'' [Lit ''v1'', Lit ''deliveries'', Any] ''GET /v1/deliveries/{delivery_id}'' GetDeliveryRoute,
      pattern_of ''POST'' [Lit ''v1'', Lit ''deliveries'', Any, Lit ''replay''] ''POST /v1/deliveries/{delivery_id}/replay'' ReplayRoute]"

text \<open>A pattern for \<^verbatim>\<open>GET\<close> also matches \<^verbatim>\<open>HEAD\<close>.\<close>

definition method_match :: "string \<Rightarrow> string \<Rightarrow> bool" where
  "method_match pat m \<longleftrightarrow> m = pat \<or> pat = ''GET'' \<and> m = ''HEAD''"

definition mux_find :: "pattern list \<Rightarrow> request \<Rightarrow> (pattern \<times> string list) option" where
  "mux_find ps r =
     (case find (\<lambda>p. method_match (pt_method p) (rt_Method r) \<and> path_match (pt_path p) (rt_Path r) \<noteq> None) ps of
        None \<Rightarrow> None
      | Some p \<Rightarrow> map_option (\<lambda>vs. (p, vs)) (path_match (pt_path p) (rt_Path r)))"

fun join_with :: "string \<Rightarrow> string list \<Rightarrow> string" where
  "join_with sep [] = []"
| "join_with sep [x] = x"
| "join_with sep (x # y # xs) = x @ sep @ join_with sep (y # xs)"

definition plain_text :: "(string \<times> string) list" where
  "plain_text = [(''Content-Type'', ''text/plain; charset=utf-8''), (''X-Content-Type-Options'', ''nosniff'')]"

text \<open>No pattern matches: \<^verbatim>\<open>405\<close> with the allowed methods when only the method is wrong, \<^verbatim>\<open>404\<close> otherwise.\<close>

definition mux_unmatched :: "pattern list \<Rightarrow> request \<Rightarrow> response" where
  "mux_unmatched ps r =
     (let here = filter (\<lambda>p. path_match (pt_path p) (rt_Path r) \<noteq> None) ps;
          allowed = filter (\<lambda>m. list_ex (\<lambda>p. method_match (pt_method p) m) here) [''DELETE'', ''GET'', ''HEAD'', ''POST'']
      in if here = [] then
           \<lparr>re_Status = 404, re_Header = plain_text, re_Body = BText ''404 page not found''\<rparr>
         else
           \<lparr>re_Status = 405, re_Header = (''Allow'', join_with '', '' allowed) # plain_text,
            re_Body = BText ''Method Not Allowed''\<rparr>)"

definition dispatch ::
  "'s Server \<Rightarrow> json_env \<Rightarrow> route \<Rightarrow> string list \<Rightarrow> request \<Rightarrow> 's \<Rightarrow> response \<times> 's" where
  "dispatch sv je rt vs r s =
     (case rt of
        Live \<Rightarrow> (live sv, s)
      | Ready \<Rightarrow> (ready sv s, s)
      | VersionRoute \<Rightarrow> (version sv, s)
      | MetricsRoute \<Rightarrow> (\<lparr>re_Status = 200, re_Header = [], re_Body = BMetrics\<rparr>, s)
      | CreateEndpointRoute \<Rightarrow> createEndpoint sv je r s
      | ListEndpointsRoute \<Rightarrow> (listEndpoints sv r s, s)
      | GetEndpointRoute \<Rightarrow> (getEndpoint sv (hd vs) s, s)
      | DisableEndpointRoute \<Rightarrow> disableEndpoint sv (hd vs) s
      | PublishRoute \<Rightarrow> publishEvent sv je r s
      | GetDeliveryRoute \<Rightarrow> getDelivery sv (hd vs) s
      | ReplayRoute \<Rightarrow> replayDelivery sv (hd vs) s)"

definition unauthorized :: response where
  "unauthorized =
     writeJSON 401 [(''WWW-Authenticate'', ''Bearer'')] (BError ''unauthorized'' ''valid bearer token is required'')"

definition serve :: "'s Server \<Rightarrow> json_env \<Rightarrow> pattern list \<Rightarrow> request \<Rightarrow> 's \<Rightarrow> string \<times> response \<times> 's" where
  "serve sv je ps r s =
     (case mux_find ps r of
        Some (p, vs) \<Rightarrow> (pt_text p, dispatch sv je (pt_route p) vs r s)
      | None \<Rightarrow> ([], mux_unmatched ps r, s))"

definition authenticate :: "'s Server \<Rightarrow> json_env \<Rightarrow> request \<Rightarrow> 's \<Rightarrow> string \<times> response \<times> 's" where
  "authenticate sv je r s =
     (if authorized (sv_apiKey sv) r then serve sv je private_patterns r s
      else (''/v1/'', unauthorized, s))"

text \<open>\<^verbatim>\<open>accessLog\<close> reports the method, the matched route and the status to the observer and passes the
  response on.\<close>

definition accessLog :: "request \<Rightarrow> string \<times> response \<times> 's \<Rightarrow> (string \<times> string \<times> int) \<times> response \<times> 's" where
  "accessLog r next =
     (case next of (matched, resp, s') \<Rightarrow>
        ((rt_Method r, if matched = [] then ''unmatched'' else matched, re_Status resp), resp, s'))"

text \<open>\<^verbatim>\<open>Handler\<close>: the observation of the request, the response and the new state.\<close>

definition Handler ::
  "'s Server \<Rightarrow> json_env \<Rightarrow> request \<Rightarrow> 's \<Rightarrow> (string \<times> string \<times> int) \<times> response \<times> 's" where
  "Handler sv je r s =
     accessLog r
       (if mux_find (public_patterns sv) r = None \<and> 2 \<le> length (rt_Path r) \<and> hd (rt_Path r) = ''v1''
        then authenticate sv je r s
        else serve sv je (public_patterns sv) r s)"

lemmas Handler_unfold = Handler_def accessLog_def

section \<open>The status that is logged\<close>

text \<open>The wrapper of \<^verbatim>\<open>accessLog\<close>; \<open>rw_sent\<close> holds the status lines that reached the connection.\<close>

record responseWriter =
  rw_status :: int
  rw_bytes :: int
  rw_wroteHeader :: bool
  rw_sent :: "int list"

definition fresh_writer :: responseWriter where
  "fresh_writer = \<lparr>rw_status = 200, rw_bytes = 0, rw_wroteHeader = False, rw_sent = []\<rparr>"

definition WriteHeader :: "int \<Rightarrow> responseWriter \<Rightarrow> responseWriter" where
  "WriteHeader st w =
     (if rw_wroteHeader w then w
      else w\<lparr>rw_wroteHeader := True, rw_status := st, rw_sent := rw_sent w @ [st]\<rparr>)"

definition Write :: "int \<Rightarrow> responseWriter \<Rightarrow> responseWriter" where
  "Write written w =
     (let w' = (if rw_wroteHeader w then w else WriteHeader 200 w) in w'\<lparr>rw_bytes := rw_bytes w' + written\<rparr>)"

datatype writer_call = CallWriteHeader int | CallWrite int

fun writer_step :: "writer_call \<Rightarrow> responseWriter \<Rightarrow> responseWriter" where
  "writer_step (CallWriteHeader st) w = WriteHeader st w"
| "writer_step (CallWrite n) w = Write n w"

lemma writer_logs_sent:
  "let w = fold writer_step calls fresh_writer in
   rw_sent w = (if rw_wroteHeader w then [rw_status w] else []) \<and> (calls = [] \<longleftrightarrow> \<not> rw_wroteHeader w)"
proof -
  have "rw_sent (fold writer_step calls w) = (if rw_wroteHeader (fold writer_step calls w)
      then [rw_status (fold writer_step calls w)] else []) \<and>
      rw_wroteHeader (fold writer_step calls w) = (rw_wroteHeader w \<or> calls \<noteq> [])"
    if "rw_sent w = (if rw_wroteHeader w then [rw_status w] else [])" for w
    using that
  proof (induction calls arbitrary: w)
    case (Cons c calls)
    have "rw_sent (writer_step c w) = [rw_status (writer_step c w)]" "rw_wroteHeader (writer_step c w)"
      using Cons.prems by (cases c; simp add: WriteHeader_def Write_def Let_def)+
    then show ?case using Cons.IH [of "writer_step c w"] by simp
  qed simp
  then show ?thesis by (auto simp: fresh_writer_def Let_def)
qed

section \<open>Access control\<close>

lemma public_pattern_routes:
  "p \<in> set (public_patterns sv) \<Longrightarrow> pt_route p \<in> {Live, Ready, VersionRoute, MetricsRoute}"
  by (auto simp: public_patterns_def pattern_of_def split: if_splits)

lemma mux_find_SomeD: "mux_find ps r = Some (p, vs) \<Longrightarrow> p \<in> set ps \<and> path_match (pt_path p) (rt_Path r) = Some vs"
  by (auto simp: mux_find_def find_Some_iff split: option.splits)

lemma serve_public:
  assumes "serve sv je (public_patterns sv) r s = (m, resp, s')"
  shows "s' = s" and "m \<noteq> ''GET /health/ready'' \<Longrightarrow> serve sv je (public_patterns sv) r t = (m, resp, t)"
proof -
  show "s' = s"
    using assms by (auto simp: serve_def dispatch_def dest!: mux_find_SomeD public_pattern_routes split: option.splits)
  show "serve sv je (public_patterns sv) r t = (m, resp, t)" if "m \<noteq> ''GET /health/ready''"
  proof (cases "mux_find (public_patterns sv) r")
    case None
    then show ?thesis using assms by (simp add: serve_def)
  next
    case (Some pv)
    obtain p vs where pv: "pv = (p, vs)" by (cases pv)
    have p: "p \<in> set (public_patterns sv)" using mux_find_SomeD Some pv by blast
    have "pt_route p \<noteq> Ready"
      using p that assms Some pv by (auto simp: public_patterns_def pattern_of_def serve_def split: if_splits)
    then show ?thesis
      using assms Some pv public_pattern_routes [OF p] by (auto simp: serve_def dispatch_def)
  qed
qed


text \<open>A server whose services count their calls.\<close>

definition counting_server :: "nat Server" where
  "counting_server =
     \<lparr>sv_apiKey = ''key'', sv_create = (\<lambda>_ n. (Inl (ErrNew []), n + 1)), sv_list = (\<lambda>_ _. Inl (ErrNew [])),
      sv_get = (\<lambda>_ _. Inl (ErrNew [])), sv_disable = (\<lambda>_ n. (Inl (ErrNew []), n + 1)),
      sv_publish = (\<lambda>_ n. (Inl (ErrNew []), n + 1)), sv_details = (\<lambda>_ n. (Inl (ErrNew []), n + 1)),
      sv_replay = (\<lambda>_ n. (Inl (ErrNew []), n + 1)), sv_readiness = (\<lambda>_. None), sv_metrics = True, sv_httpObserver = True,
      sv_buildInfo = Current ''dev'' ''none'' ''unknown'' ''go'' None, sv_startedAt = 0\<rparr>"

definition sample_replay_request :: "string \<Rightarrow> request" where
  "sample_replay_request auth =
     \<lparr>rt_Method = ''POST'', rt_Path = [''v1'', ''deliveries'', ''dl'', ''replay''], rt_Authorization = auth,
      rt_ContentType = [], rt_IdempotencyKey = [], rt_Limit = [], rt_Body = []\<rparr>"

definition sample_json :: json_env where
  "sample_json =
     \<lparr>je_media = Inr, je_endpoint = (\<lambda>_. Inl (ErrNew [])), je_event = (\<lambda>_. Inl (ErrNew [])), je_end = (\<lambda>_. True)\<rparr>"


section \<open>Secrets\<close>

fun endpoint_views :: "body \<Rightarrow> endpointResponse list" where
  "endpoint_views (BEndpoint v) = [v]"
| "endpoint_views (BEndpoints vs) = vs"
| "endpoint_views _ = []"

lemma endpointView_no_secret [simp]: "ew_Secret (endpointView v) = []"
  by (simp add: endpointView_def)

lemma error_views [simp]:
  "endpoint_views (re_Body (writeError st c m)) = []" "endpoint_views (re_Body (writeEndpointError e)) = []"
  "endpoint_views (re_Body (writeEventError e)) = []" "endpoint_views (re_Body (writeDeliveryError e)) = []"
  "endpoint_views (re_Body (decode_error e)) = []"
  by (simp_all add: writeError_def writeJSON_def writeEndpointError_def writeEventError_def writeDeliveryError_def
      decode_error_def Let_def)

lemma writeJSON_sel [simp]: "re_Body (writeJSON st h b) = b" "re_Status (writeJSON st h b) = st"
  by (simp_all add: writeJSON_def)

lemma dispatch_secrets:
  assumes "dispatch sv je rt vs r s = (resp, s')" and "v \<in> set (endpoint_views (re_Body resp))" and "ew_Secret v \<noteq> []"
  shows "rt = CreateEndpointRoute \<and> re_Status resp = 201 \<and>
    (\<exists>input created. sv_create sv input s = (Inr created, s') \<and> ew_Secret v = cr_Secret created \<and>
       v = (endpointView (cr_Endpoint created))\<lparr>ew_Secret := cr_Secret created\<rparr>)"
proof (cases rt)
  case CreateEndpointRoute
  then show ?thesis
    using assms by (auto simp: dispatch_def createEndpoint_def split: sum.splits prod.splits if_splits) blast
qed (use assms in \<open>auto simp: dispatch_def live_def ready_def version_def listEndpoints_def getEndpoint_def
  disableEndpoint_def publishEvent_def getDelivery_def replayDelivery_def split: option.splits sum.splits prod.splits\<close>)

lemma serve_views:
  assumes "serve sv je ps r s = (m, resp, s')" and "endpoint_views (re_Body resp) \<noteq> []"
  obtains p vs where "mux_find ps r = Some (p, vs)" and "m = pt_text p"
    and "dispatch sv je (pt_route p) vs r s = (resp, s')"
  using assms
  by (cases "mux_find ps r") (auto simp: serve_def mux_unmatched_def Let_def split: if_splits)

lemma pattern_text: "p \<in> set (public_patterns sv) \<union> set private_patterns \<Longrightarrow> pt_text p \<noteq> []"
  by (auto simp: public_patterns_def private_patterns_def pattern_of_def split: if_splits)

lemma Handler_views:
  assumes "Handler sv je r s = (obs, resp, s')" and "endpoint_views (re_Body resp) \<noteq> []"
  obtains p vs where "p \<in> set private_patterns \<and> authorized (sv_apiKey sv) r \<or> p \<in> set (public_patterns sv)"
    and "dispatch sv je (pt_route p) vs r s = (resp, s')" and "obs = (rt_Method r, pt_text p, re_Status resp)"
proof -
  obtain ps m where serve: "serve sv je ps r s = (m, resp, s')"
    and ps: "ps = private_patterns \<and> authorized (sv_apiKey sv) r \<or> ps = public_patterns sv"
    and obs: "obs = (rt_Method r, if m = [] then ''unmatched'' else m, re_Status resp)"
  proof (cases "mux_find (public_patterns sv) r = None \<and> 2 \<le> length (rt_Path r) \<and> hd (rt_Path r) = ''v1''")
    case True
    then have "(case authenticate sv je r s of (matched, resp, s') \<Rightarrow>
        ((rt_Method r, if matched = [] then ''unmatched'' else matched, re_Status resp), resp, s')) = (obs, resp, s')"
      using assms(1) unfolding Handler_unfold by simp
    then show thesis
      using assms(2) that [of private_patterns]
      by (cases "authorized (sv_apiKey sv) r") (auto simp: authenticate_def unauthorized_def split: prod.splits)
  next
    case False
    then show thesis
      using assms(1) that [of "public_patterns sv"] unfolding Handler_unfold if_not_P [OF False]
      by (auto split: prod.splits)
  qed
  from serve assms(2) obtain p vs where p: "mux_find ps r = Some (p, vs)" "m = pt_text p"
    "dispatch sv je (pt_route p) vs r s = (resp, s')" by (rule serve_views)
  have "p \<in> set ps" using mux_find_SomeD [OF p(1)] by simp
  then show thesis using that [OF _ p(3)] p(2) ps obs pattern_text [of p sv] by auto
qed

text \<open>C17. Secrets leave the server once: a response contains the secret of an endpoint only as the answer
  201 to the authorised request that created this endpoint, and it is the secret of that creation. Every other
  answer shows endpoints without their secret, and no answer contains a stored ciphertext, for which
  the views have no field.\<close>

theorem secrets_shown_once:
  assumes "Handler sv je r s = (obs, resp, s')" and "v \<in> set (endpoint_views (re_Body resp))" and "ew_Secret v \<noteq> []"
  shows "authorized (sv_apiKey sv) r \<and> obs = (rt_Method r, ''POST /v1/endpoints'', 201) \<and>
    (\<exists>input created. sv_create sv input s = (Inr created, s') \<and>
       v = (endpointView (cr_Endpoint created))\<lparr>ew_Secret := cr_Secret created\<rparr>)"
proof -
  have "endpoint_views (re_Body resp) \<noteq> []" using assms(2) by auto
  with assms(1) obtain p vs where
    p: "p \<in> set private_patterns \<and> authorized (sv_apiKey sv) r \<or> p \<in> set (public_patterns sv)"
    and d: "dispatch sv je (pt_route p) vs r s = (resp, s')" and obs: "obs = (rt_Method r, pt_text p, re_Status resp)"
    by (rule Handler_views)
  note s = dispatch_secrets [OF d assms(2,3)]
  then have priv: "p \<in> set private_patterns" "authorized (sv_apiKey sv) r"
    using p public_pattern_routes [of p sv] by auto
  then have "pt_text p = ''POST /v1/endpoints''"
    using s by (auto simp: private_patterns_def pattern_of_def)
  then show ?thesis using s priv obs by auto
qed

definition creating_server :: "nat Server" where
  "creating_server = counting_server\<lparr>sv_create := (\<lambda>i n. (Inr \<lparr>cr_Endpoint = endpoint_value ''ep'' (ci_Name i) (ci_URL i) [] second 8,
     cr_Secret = ''s3cret''\<rparr>, n + 1))\<rparr>"

definition sample_create_request :: request where
  "sample_create_request =
     \<lparr>rt_Method = ''POST'', rt_Path = [''v1'', ''endpoints''], rt_Authorization = ''Bearer key'',
      rt_ContentType = ''application/json'', rt_IdempotencyKey = [], rt_Limit = [], rt_Body = ''{}''\<rparr>"

theorem secrets_shown_once_witness:
  "\<exists>obs resp s' v. Handler creating_server (sample_json\<lparr>je_endpoint := (\<lambda>_. Inr \<lparr>cq_Name = ''n'', cq_URL = ''u'', cq_TimeoutMS = 0,
      cq_MaxAttempts = 0\<rparr>)\<rparr>) sample_create_request 0 = (obs, resp, s') \<and> endpoint_views (re_Body resp) = [v] \<and>
    ew_Secret v = ''s3cret'' \<and> authorized (sv_apiKey creating_server) sample_create_request \<and> s' = 1"
proof -
  let ?je = "sample_json\<lparr>je_endpoint := (\<lambda>_. Inr \<lparr>cq_Name = ''n'', cq_URL = ''u'', cq_TimeoutMS = 0, cq_MaxAttempts = 0\<rparr>)\<rparr>"
  obtain obs resp s' v where h: "Handler creating_server ?je sample_create_request 0 = (obs, resp, s')"
    "endpoint_views (re_Body resp) = [v]" "ew_Secret v = ''s3cret''" "s' = 1"
    by (simp add: Handler_unfold authenticate_def authorized_def cut_def creating_server_def counting_server_def
        sample_create_request_def sample_json_def mux_find_def public_patterns_def private_patterns_def pattern_of_def
        method_match_def serve_def dispatch_def createEndpoint_def decodeJSON_def writeJSON_def Let_def)
  with secrets_shown_once [OF h(1), of v] show ?thesis by auto
qed

end
