(* ===== verification/Worker.thy ===== *)
theory Worker
  imports Queue Webhook
begin

text \<open>
  \<^verbatim>\<open>internal/worker/pool.go\<close>: validation of the pool, the worker loop and the processing of one
  job. The queue is the interface the code declares: the loop takes its two operations as
  functions on a state of any type. One entry of type \<open>tick\<close> holds what the environment does
  in one round of the loop (the queue's answers, the dispatcher, the random sample, whether the
  context is cancelled and how the wait ends), so that a list of ticks drives the loop and the loop
  is a function.
\<close>

record Config =
  cf_Concurrency :: int
  cf_PollInterval :: duration
  cf_LeaseDuration :: duration
  cf_FinishTimeout :: duration
  cf_RetryPolicy :: RetryPolicy
  cf_CircuitThreshold :: int
  cf_CircuitCooldown :: duration

record Pool =
  pl_config :: Config
  pl_instanceID :: string

datatype observation =
    ObserveClaim string | ObserveAttempt decision duration | ObserveFinishError | AddInFlight int

record 's tick =
  tk_claim :: "string \<Rightarrow> duration \<Rightarrow> 's \<Rightarrow> (go_error, job option) result \<times> 's"
  tk_deliver :: "Request \<Rightarrow> Result"
  tk_finish :: "AttemptResult \<Rightarrow> 's \<Rightarrow> (go_error, status) result \<times> 's"
  tk_sample :: float64
  tk_claim_cancelled :: bool
  tk_finish_cancelled :: bool
  tk_waited :: bool

definition NewPool :: "string \<Rightarrow> Config \<Rightarrow> (go_error, Pool) result" where
  "NewPool instanceID config =
     (if cf_Concurrency config < 1 then Inl (ErrNew ''worker concurrency must be positive'')
      else if cf_PollInterval config \<le> 0 \<or> cf_LeaseDuration config \<le> 0 \<or> cf_FinishTimeout config \<le> 0
        then Inl (ErrNew ''worker durations must be positive'')
      else if cf_CircuitThreshold config < 1 \<or> cf_CircuitCooldown config \<le> 0
        then Inl (ErrNew ''circuit breaker configuration is invalid'')
      else Inr \<lparr>pl_config = config, pl_instanceID = instanceID\<rparr>)"

text \<open>The identifiers that \<^verbatim>\<open>Run\<close> gives to its workers.\<close>

definition worker_ids :: "Pool \<Rightarrow> string list" where
  "worker_ids p =
     map (\<lambda>current. pl_instanceID p @ ''/'' @ int_text (int current + 1)) [0 ..< nat (cf_Concurrency (pl_config p))]"

definition job_request :: "job \<Rightarrow> Request" where
  "job_request j =
     \<lparr>rq_DeliveryID = dl_ID (jb_Delivery j), rq_EventID = ev_ID (jb_Event j),
      rq_EndpointID = ep_ID (jb_Endpoint j), rq_EventType = ev_Type (jb_Event j),
      rq_TargetURL = ep_URL (jb_Endpoint j), rq_SecretCiphertext = ep_SecretCiphertext (jb_Endpoint j),
      rq_Payload = ev_Payload (jb_Event j), rq_Timeout = ep_Timeout (jb_Endpoint j)\<rparr>"

text \<open>The result that \<^verbatim>\<open>process\<close> hands to the queue.\<close>

definition finish_of :: "(float64 \<Rightarrow> int) \<Rightarrow> Config \<Rightarrow> string \<Rightarrow> job \<Rightarrow> Result \<Rightarrow> float64 \<Rightarrow> bool \<Rightarrow> AttemptResult" where
  "finish_of cvt config workerID j w sample cancelled =
     (let circuit = (if cancelled then CircuitNone
        else case wr_CircuitSignal w of
          SignalFailure \<Rightarrow> CircuitFailure | SignalSuccess \<Rightarrow> CircuitSuccess | SignalNone \<Rightarrow> CircuitNone)
      in \<lparr>rs_DeliveryID = dl_ID (jb_Delivery j), rs_WorkerID = workerID,
          rs_LeaseToken = dl_LeaseToken (jb_Delivery j), rs_AttemptNumber = dl_AttemptCount (jb_Delivery j),
          rs_Decision = wr_Decision w, rs_StatusCode = wr_StatusCode w, rs_ResponseBody = wr_ResponseBody w,
          rs_ErrorMessage = wr_ErrorMessage w, rs_Duration = wr_Duration w, rs_StartedAt = wr_StartedAt w,
          rs_CompletedAt = wr_CompletedAt w,
          rs_NextAttemptAt = (if wr_Decision w = DecisionRetry
            then wr_CompletedAt w + NextDelay cvt (cf_RetryPolicy config) (dl_AttemptCount (jb_Delivery j)) sample
            else 0),
          rs_CircuitOutcome = circuit,
          rs_CircuitThreshold = (if circuit = CircuitFailure then cf_CircuitThreshold config else 0),
          rs_CircuitCooldown = (if circuit = CircuitFailure then cf_CircuitCooldown config else 0)\<rparr>)"

definition process ::
  "(float64 \<Rightarrow> int) \<Rightarrow> Config \<Rightarrow> string \<Rightarrow> job \<Rightarrow> 's tick \<Rightarrow> 's \<Rightarrow> observation list \<times> go_error option \<times> 's" where
  "process cvt config workerID j t s =
     (let w = tk_deliver t (job_request j) in
      case tk_finish t (finish_of cvt config workerID j w (tk_sample t) (tk_finish_cancelled t)) s of
        (Inl err, s') \<Rightarrow> ([ObserveAttempt (wr_Decision w) (wr_Duration w)], Some err, s')
      | (Inr st, s') \<Rightarrow> ([ObserveAttempt (wr_Decision w) (wr_Duration w)], None, s'))"

text \<open>The worker loop: the observations, the state, and whether the worker has returned.\<close>

fun runWorker ::
  "(float64 \<Rightarrow> int) \<Rightarrow> Config \<Rightarrow> string \<Rightarrow> 's tick list \<Rightarrow> 's \<Rightarrow> observation list \<times> 's \<times> bool" where
  "runWorker cvt config workerID [] s = ([], s, False)"
| "runWorker cvt config workerID (t # ts) s =
     (case tk_claim t workerID (cf_LeaseDuration config) s of
        (Inl err, s1) \<Rightarrow>
          if tk_claim_cancelled t then ([], s1, True)
          else if \<not> tk_waited t then ([ObserveClaim ''error''], s1, True)
          else (case runWorker cvt config workerID ts s1 of
                  (obs, r) \<Rightarrow> (ObserveClaim ''error'' # obs, r))
      | (Inr None, s1) \<Rightarrow>
          if \<not> tk_waited t then ([ObserveClaim ''empty''], s1, True)
          else (case runWorker cvt config workerID ts s1 of
                  (obs, r) \<Rightarrow> (ObserveClaim ''empty'' # obs, r))
      | (Inr (Some j), s1) \<Rightarrow>
          (case process cvt config workerID j t s1 of
             (attempt, err, s2) \<Rightarrow>
               (case runWorker cvt config workerID ts s2 of
                  (obs, r) \<Rightarrow>
                    ([ObserveClaim ''claimed'', AddInFlight 1] @ attempt @ [AddInFlight (- 1)] @
                     (if err = None then [] else [ObserveFinishError]) @ obs, r))))"

section \<open>Worker identifiers\<close>

text \<open>The workers of a pool have pairwise different identifiers, so no worker can finish another's
  lease by its name alone.\<close>

theorem worker_ids_distinct: "distinct (worker_ids p)"
  by (auto simp: worker_ids_def distinct_map inj_on_def int_text_inject)

section \<open>The gauges\<close>

definition in_flight :: "observation list \<Rightarrow> int" where
  "in_flight obs = (\<Sum>x\<leftarrow>obs. case x of AddInFlight n \<Rightarrow> n | _ \<Rightarrow> 0)"

definition count_obs :: "(observation \<Rightarrow> bool) \<Rightarrow> observation list \<Rightarrow> nat" where
  "count_obs P obs = length (filter P obs)"

lemma in_flight_append [simp]: "in_flight (a @ b) = in_flight a + in_flight b"
  by (simp add: in_flight_def)

lemma in_flight_simps [simp]:
  "in_flight [] = 0" "in_flight (ObserveClaim c # obs) = in_flight obs"
  "in_flight (ObserveAttempt d t # obs) = in_flight obs" "in_flight (ObserveFinishError # obs) = in_flight obs"
  "in_flight (AddInFlight n # obs) = n + in_flight obs"
  by (simp_all add: in_flight_def)

lemma process_obs:
  "\<exists>d t. fst (process cvt config workerID j tk s) = [ObserveAttempt d t]"
  by (simp add: process_def Let_def split: prod.splits sum.splits)

lemma runWorker_gauges:
  assumes "runWorker cvt config workerID ts s = (obs, r)"
  shows "in_flight obs = 0 \<and>
    count_obs (\<lambda>x. x = ObserveClaim ''claimed'') obs = count_obs (\<lambda>x. \<exists>d t. x = ObserveAttempt d t) obs \<and>
    count_obs (\<lambda>x. x = ObserveFinishError) obs \<le> count_obs (\<lambda>x. \<exists>d t. x = ObserveAttempt d t) obs"
  using assms
proof (induction ts arbitrary: s obs r)
  case Nil
  then show ?case by (simp add: count_obs_def)
next
  case (Cons t ts)
  obtain c s1 where c: "tk_claim t workerID (cf_LeaseDuration config) s = (c, s1)" by fastforce
  obtain obs1 r1 where r1: "runWorker cvt config workerID ts s1 = (obs1, r1)" by (meson surj_pair)
  note IH1 = Cons.IH [OF r1]
  show ?case
  proof (cases c)
    case (Inl e)
    then show ?thesis using Cons.prems c r1 IH1 by (auto simp: count_obs_def split: if_splits)
  next
    case (Inr jo)
    show ?thesis
    proof (cases jo)
      case None
      then show ?thesis using Inr Cons.prems c r1 IH1 by (auto simp: count_obs_def split: if_splits)
    next
      case (Some j)
      obtain d u err s2 where p: "process cvt config workerID j t s1 = ([ObserveAttempt d u], err, s2)"
        using process_obs [of cvt config workerID j t s1] by (metis prod.collapse)
      obtain obs2 r2 where r2: "runWorker cvt config workerID ts s2 = (obs2, r2)" by (meson surj_pair)
      from Cons.IH [OF r2] show ?thesis
        using Inr Some Cons.prems c p r2 by (auto simp: count_obs_def)
    qed
  qed
qed

text \<open>The worker's metrics are consistent at every moment between two rounds: as many jobs have left
  the in-flight gauge as have entered it, every claimed job was attempted exactly once, and a
  finish error is counted at most once per attempt.\<close>

theorem runWorker_metrics:
  "let obs = fst (runWorker cvt config workerID ts s) in
    in_flight obs = 0 \<and>
    count_obs (\<lambda>x. x = ObserveClaim ''claimed'') obs = count_obs (\<lambda>x. \<exists>d t. x = ObserveAttempt d t) obs \<and>
    count_obs (\<lambda>x. x = ObserveFinishError) obs \<le> count_obs (\<lambda>x. \<exists>d t. x = ObserveAttempt d t) obs"
  using runWorker_gauges [OF prod.collapse [symmetric]] by (simp add: Let_def)

section \<open>Stopping\<close>

text \<open>A worker stops after the round in which its context is cancelled: whatever rounds came before, a round
  in which the cancelled claim yields no job and the wait is cut short makes the loop return (unless
  an earlier round already did), and nothing the environment could do afterwards is looked at. A job
  that was claimed before is not abandoned: its round runs to the end first.\<close>

theorem worker_stops_when_cancelled:
  assumes "\<forall>s j s'. tk_claim t workerID (cf_LeaseDuration config) s \<noteq> (Inr (Some j), s')"
    and "tk_claim_cancelled t" and "\<not> tk_waited t"
  shows "runWorker cvt config workerID (before @ t # later) s = runWorker cvt config workerID (before @ [t]) s \<and>
    snd (snd (runWorker cvt config workerID (before @ t # later) s))"
proof (induction before arbitrary: s)
  case Nil
  obtain c s1 where c: "tk_claim t workerID (cf_LeaseDuration config) s = (c, s1)" by fastforce
  then show ?case
    using assms by (cases c) (auto split: option.split)
next
  case (Cons u before)
  have "runWorker cvt config workerID (before @ t # later) s = runWorker cvt config workerID (before @ [t]) s"
    and "snd (snd (runWorker cvt config workerID (before @ [t]) s))" for s
    using Cons by metis+
  then show ?case by (simp add: case_prod_beta split: sum.split option.split)
qed

theorem worker_stops_when_cancelled_witness:
  "let t = \<lparr>tk_claim = (\<lambda>_ _ s. (Inl (ErrNew ''context canceled''), s)), tk_deliver = (\<lambda>_. failed 1 1 DecisionRetry SignalNone (ErrNew ''context canceled'')),
            tk_finish = (\<lambda>_ s. (Inl (ErrNew ''context canceled''), s)), tk_sample = Fin 0, tk_claim_cancelled = True,
            tk_finish_cancelled = True, tk_waited = False\<rparr>
   in snd (snd (runWorker (\<lambda>_. 0) \<lparr>cf_Concurrency = 1, cf_PollInterval = second, cf_LeaseDuration = 45 * second,
        cf_FinishTimeout = second, cf_RetryPolicy = \<lparr>rp_base = second, rp_max = second, rp_jitter = Fin 0\<rparr>, cf_CircuitThreshold = 5,
        cf_CircuitCooldown = second\<rparr> ''w/1'' [t\<lparr>tk_claim_cancelled := False, tk_waited := True\<rparr>, t, t] (7::nat)))"
  unfolding Let_def
  by (rule worker_stops_when_cancelled [where before = "[u]" for u, simplified append_Cons append_Nil, THEN conjunct2]) simp_all

section \<open>Results the queue accepts\<close>

lemma finish_of_sel [simp]:
  "rs_DeliveryID (finish_of cvt cf w j r x b) = dl_ID (jb_Delivery j)"
  "rs_WorkerID (finish_of cvt cf w j r x b) = w"
  "rs_LeaseToken (finish_of cvt cf w j r x b) = dl_LeaseToken (jb_Delivery j)"
  "rs_AttemptNumber (finish_of cvt cf w j r x b) = dl_AttemptCount (jb_Delivery j)"
  by (simp_all add: finish_of_def Let_def)

text \<open>The result that the worker builds from a result of the dispatcher passes validation.\<close>

lemma finish_of_valid:
  assumes w: "w = snd (Deliver env d t u (job_request j))" and lim: "0 < ds_responseLimit d"
    and clock: "0 < t" "t \<le> u"
    and st: "\<forall>c. wr_StatusCode w = Some c \<longrightarrow> 100 \<le> c \<and> c \<le> 599"
    and job: "trim_space (dl_ID (jb_Delivery j)) \<noteq> []" "trim_space (dl_LeaseToken (jb_Delivery j)) \<noteq> []"
      "1 \<le> dl_AttemptCount (jb_Delivery j)" "dl_AttemptCount (jb_Delivery j) \<le> max_int32"
    and wid: "trim_space workerID \<noteq> []"
    and pol: "NewRetryPolicy base mx (Fin jit) = Inr (cf_RetryPolicy config)" "mx \<le> 2 ^ 61" "sample \<noteq> NaN"
      "k \<le> 51" "2 ^ k \<le> base" "jit \<le> 1 - pow2 (- int k)"
    and cir: "1 \<le> cf_CircuitThreshold config" "millisecond \<le> cf_CircuitCooldown config"
  shows "validateAttemptResult (finish_of cvt config workerID j w sample cancelled) = None"
proof -
  have c: "consistent_result (ds_responseLimit d) t u w" unfolding w by (rule Deliver_consistent [OF lim])
  have delay: "1 \<le> NextDelay cvt (cf_RetryPolicy config) (dl_AttemptCount (jb_Delivery j)) sample"
    using NextDelay_bounds_aux(3) [OF pol(1-3)] pol(4-6) by blast
  have dur: "0 \<le> wr_Duration w" using c time_sub_nonneg [OF clock(2)] by (simp add: consistent_result_def)
  have dec: "wr_Decision w \<in> {DecisionSucceed, DecisionRetry, DecisionDiscard}"
    using c by (cases "wr_StatusCode w") (auto simp: consistent_result_def Evaluate_def)
  have times: "wr_StartedAt w = t" "wr_CompletedAt w = u" using c by (auto simp: consistent_result_def)
  have code: "wr_StatusCode w = None \<Longrightarrow> trim_space (wr_ErrorMessage w) \<noteq> [] \<and> wr_Decision w \<noteq> DecisionSucceed"
    "\<And>x. wr_StatusCode w = Some x \<Longrightarrow> wr_Decision w = Evaluate x None"
    using c by (auto simp: consistent_result_def)
  show ?thesis
    using job wid delay dur dec times clock code st cir
    by (cases "wr_StatusCode w"; cases "wr_CircuitSignal w")
      (auto simp: validateAttemptResult_def finish_of_def Let_def)
qed

end
