(* ===== verification/Queue_Properties.thy ===== *)
theory Queue_Properties
  imports Scenario
begin

text \<open>
  The queue's promises about one call: what a claim hands out and when it must hand something
  out, which results are accepted and what accepting one does, the endpoint's circuit, and
  atomicity.
\<close>

section \<open>Results of stale leases\<close>

text \<open>An attempt of a delivery is over once a later one has begun or none is in progress.\<close>

definition attempt_over :: "db \<Rightarrow> uuid \<Rightarrow> int \<Rightarrow> bool" where
  "attempt_over db k n \<longleftrightarrow>
     (\<exists>d. tfind dr_id k (deliveries db) = Some d \<and>
        (n < dr_attempt_count d \<or> n = dr_attempt_count d \<and> dr_status d \<noteq> StatusProcessing))"

definition life_over :: "life option \<Rightarrow> int \<Rightarrow> bool" where
  "life_over x n \<longleftrightarrow>
     (case x of None \<Rightarrow> False
      | Some l \<Rightarrow> n < lf_count l \<or> n = lf_count l \<and> lf_status l \<noteq> StatusProcessing)"

lemma attempt_over_life: "attempt_over db k n = life_over (life_abs k db) n"
  by (auto simp: attempt_over_def life_over_def life_abs_def life_of_def split: option.splits)

lemma life_over_step: "life_step x y \<Longrightarrow> life_over x n \<Longrightarrow> life_over y n"
  by (induction rule: life_step.induct) (auto simp: life_over_def)

lemma life_over_steps: "life_step\<^sup>*\<^sup>* x y \<Longrightarrow> life_over x n \<Longrightarrow> life_over y n"
  by (induction rule: rtranclp_induct) (auto intro: life_over_step)

lemma attempt_over_steps:
  assumes "canonical_uuid pg" and "store_inv pg db" and "(store_step pg)\<^sup>*\<^sup>* db db'" and "attempt_over db k n"
  shows "attempt_over db' k n"
  using lifecycle.steps_sim [OF assms(3), of k] assms life_over_steps by (simp add: attempt_over_life)

lemma finish_needs_lease:
  assumes "store_inv pg db" and "FinishAttempt pg io gen now r db = (x, db')" and "db' \<noteq> db \<or> (\<exists>st. x = Inr st)"
    and "pg_uuid pg (rs_DeliveryID r) = Some k"
  shows "\<not> attempt_over db k (rs_AttemptNumber r)"
proof -
  obtain st where b: "finish_body pg io gen now r db = Inr (st, db')"
    using assms(2,3) by (auto simp: FinishAttempt_def split: option.splits elim: run_tx_cases dest: run_tx_InrE)
  from assms(1) b assms(4) show ?thesis by (auto simp: attempt_over_def elim!: finish_body_rows)
qed

text \<open>C6. Fencing: once an attempt of a delivery is over (its lease was recovered, its result was
  recorded, or a later attempt began), no result for it is accepted at any later time, whoever
  sends it, and the refused call changes nothing.\<close>

theorem stale_result_refused:
  assumes "canonical_uuid pg" and "store_inv pg db" and "attempt_over db k n" and "(store_step pg)\<^sup>*\<^sup>* db db1"
    and "pg_uuid pg (rs_DeliveryID r) = Some k" and "rs_AttemptNumber r = n"
    and "FinishAttempt pg io gen now r db1 = (x, db2)"
  shows "(\<exists>e. x = Inl e) \<and> db2 = db1"
proof -
  have over: "attempt_over db1 k n" by (rule attempt_over_steps [OF assms(1,2,4,3)])
  have inv: "store_inv pg db1" using store.steps_inv [OF assms(4)] assms(1,2) by simp
  show ?thesis using finish_needs_lease [OF inv assms(7) _ assms(5)] over assms(6) by (cases x) auto
qed

theorem stale_result_refused_witness:
  "attempt_over sample_failed ''dl'' 1 \<and>
   (\<exists>e. fst (FinishAttempt sample_pg sample_io (sample_gen 5) 5000000000 sample_result sample_failed) = Inl e) \<and>
   snd (FinishAttempt sample_pg sample_io (sample_gen 5) 5000000000 sample_result sample_failed) = sample_failed"
proof -
  have over: "attempt_over sample_failed ''dl'' 1"
    by (simp add: attempt_over_def sample_failed_eq(2) tfind_Cons sample_failed_row_def)
  with stale_result_refused [OF canonical_sample sample_inv(4) over rtranclp.rtrancl_refl _ _ surjective_pairing]
  show ?thesis by simp
qed

text \<open>A result from a worker that does not hold the lease (wrong worker, token, attempt, or a
  delivery that is not being processed) is answered with \<^verbatim>\<open>ErrLeaseLost\<close> and changes nothing.\<close>

theorem FinishAttempt_lease_lost:
  assumes "validateAttemptResult r = None" and "io ''begin attempt transaction'' = Works"
    and "io ''finish delivery'' = Works"
    and "pg_uuid pg (rs_DeliveryID r) = Some k" and "pg_uuid pg (rs_LeaseToken r) = Some token"
    and "pg_text pg (rs_WorkerID r)" and "pg_text pg (rs_ErrorMessage r)"
    and "\<forall>d \<in> set (deliveries db). \<not> holds_lease k (rs_WorkerID r) token (rs_AttemptNumber r) d"
  shows "FinishAttempt pg io gen now r db = (Inl (ErrVar ErrLeaseLost), db)"
proof -
  have "find (holds_lease k (rs_WorkerID r) token (rs_AttemptNumber r)) (deliveries db) = None"
    using assms(8) by (simp add: find_None_iff)
  with assms show ?thesis
    by (simp add: FinishAttempt_def finish_body_def finish_update_def stmt_def run_tx_body_error)
qed

theorem FinishAttempt_lease_lost_witness:
  "FinishAttempt sample_pg sample_io (sample_gen 1) 4000000000 sample_result sample_failed =
    (Inl (ErrVar ErrLeaseLost), sample_failed)"
  by (rule FinishAttempt_lease_lost [OF sample_result_valid, where k = "''dl''" and token = "''x''"])
    (simp_all add: sample_failed_eq(2) holds_lease_def sample_failed_row_def)

section \<open>Accepted results\<close>

text \<open>C19. An accepted result comes from the holder of the lease and is applied exactly once: the
  delivery leaves processing with the status its decision and its budget call for, the lease is
  cleared, one attempt is appended to the log, and no other delivery and no event changes.\<close>

theorem FinishAttempt_accepted:
  assumes "store_inv pg db" and "FinishAttempt pg io gen now r db = (Inr st, db')"
  shows "\<exists>k d d' i. pg_uuid pg (rs_DeliveryID r) = Some k \<and> tfind dr_id k (deliveries db) = Some d \<and>
    dr_status d = StatusProcessing \<and> dr_locked_by d = Some (rs_WorkerID r) \<and>
    dr_lease_token d = pg_uuid pg (rs_LeaseToken r) \<and> dr_attempt_count d = rs_AttemptNumber r \<and>
    tfind dr_id k (deliveries db') = Some d' \<and> dr_status d' = st \<and>
    st = (case rs_Decision r of DecisionSucceed \<Rightarrow> StatusSucceeded
      | DecisionRetry \<Rightarrow> if rs_AttemptNumber r < dr_max_attempts d then StatusRetrying else StatusDead
      | _ \<Rightarrow> StatusDead) \<and>
    (st = StatusRetrying \<longrightarrow> dr_next_attempt_at d' = pg_time pg (rs_NextAttemptAt r)) \<and>
    dr_locked_by d' = None \<and> dr_lease_token d' = None \<and>
    dr_attempt_count d' = dr_attempt_count d \<and> dr_last_status_code d' = rs_StatusCode r \<and>
    (\<forall>j. j \<noteq> k \<longrightarrow> tfind dr_id j (deliveries db') = tfind dr_id j (deliveries db)) \<and>
    events db' = events db \<and> attempts db' = attempts db @ [result_attempt pg i k r]"
proof -
  have "finish_body pg io gen now r db = Inr (st, db')"
    using assms(2) by (auto simp: FinishAttempt_def split: option.splits dest: run_tx_InrE)
  with assms(1) obtain j d where j: "pg_uuid pg (rs_DeliveryID r) = Some j"
    and d: "tfind dr_id j (deliveries db) = Some d" "dr_status d = StatusProcessing"
      "dr_attempt_count d = rs_AttemptNumber r" "dr_locked_by d = Some (rs_WorkerID r)"
      "dr_lease_token d = pg_uuid pg (rs_LeaseToken r)"
    and st: "st = dr_status (finish_row pg now r d)"
    and tf: "\<And>k. tfind dr_id k (deliveries db') =
      (if k = j then map_option (finish_row pg now r) (tfind dr_id k (deliveries db))
       else tfind dr_id k (deliveries db))"
    and ev: "events db' = events db" and at: "\<exists>i. attempts db' = attempts db @ [result_attempt pg i j r]"
    by (rule finish_body_rows) blast
  obtain i where i: "attempts db' = attempts db @ [result_attempt pg i j r]" using at by blast
  show ?thesis
    by (intro exI [of _ j] exI [of _ d] exI [of _ "finish_row pg now r d"] exI [of _ i])
      (use j d st tf ev i in \<open>auto simp: finish_row_def split: decision.splits\<close>)
qed

theorem FinishAttempt_accepted_witness:
  "\<exists>k d d'. tfind dr_id k (deliveries sample_claimed) = Some d \<and> dr_status d = StatusProcessing \<and>
    tfind dr_id k (deliveries sample_failed) = Some d' \<and> dr_status d' = StatusRetrying"
  using FinishAttempt_accepted [OF sample_inv(3) sample_failed_eq(1)] by blast

text \<open>The rows a valid result leads to satisfy the constraints.\<close>

lemma validateAttemptResultD:
  assumes "validateAttemptResult r = None"
  shows "1 \<le> rs_AttemptNumber r" "rs_AttemptNumber r \<le> max_int32"
    "case rs_StatusCode r of None \<Rightarrow> True | Some c \<Rightarrow> 100 \<le> c \<and> c \<le> 599"
    "rs_StatusCode r = None \<Longrightarrow> rs_ErrorMessage r \<noteq> []"
    "0 \<le> rs_Duration r" "rs_StartedAt r \<le> rs_CompletedAt r"
    "rs_CircuitOutcome r = CircuitFailure \<Longrightarrow> 1 \<le> rs_CircuitThreshold r \<and> millisecond \<le> rs_CircuitCooldown r"
    "rs_CircuitOutcome r \<in> {CircuitNone, CircuitFailure, CircuitSuccess}"
  using assms by (auto simp: validateAttemptResult_def split: if_splits option.splits)

lemma durationMilliseconds_bounds:
  assumes "0 \<le> d"
  shows "0 \<le> durationMilliseconds d" and "durationMilliseconds d \<le> max_int32"
  using milliseconds_nonneg [OF assms] by (auto simp: durationMilliseconds_def Let_def)

lemma check_finish_row:
  assumes "check_delivery d" and "validateAttemptResult r = None"
  shows "check_delivery (finish_row pg now r d)"
  using assms validateAttemptResultD(3) [OF assms(2)]
  by (simp add: check_delivery_def finish_row_def)

lemma check_result_attempt:
  assumes "validateAttemptResult r = None" and "mono (pg_time pg)"
  shows "check_attempt (result_attempt pg i k r)"
  using validateAttemptResultD [OF assms(1)] durationMilliseconds_bounds monoD [OF assms(2)]
  by (auto simp: check_attempt_def result_attempt_def)

lemma finish_update_ok:
  assumes ok: "rows_ok pg {} db" and v: "validateAttemptResult r = None"
    and d: "d \<in> set (deliveries db)" "holds_lease k (rs_WorkerID r) token (rs_AttemptNumber r) d"
    and ids: "pg_uuid pg (rs_DeliveryID r) = Some k" "pg_uuid pg (rs_LeaseToken r) = Some token"
    and tx: "pg_text pg (rs_WorkerID r)" "pg_text pg (rs_ErrorMessage r)"
  obtains db1 where "update_delivery k (finish_row pg now r) db = Some db1"
    and "finish_update pg now r db = Some (Some (dr_status (finish_row pg now r d), dr_endpoint_id d), db1)"
proof -
  have dk: "tfind dr_id k (deliveries db) = Some d"
    using d tfind_key [OF rows_ok_dist [OF ok] d(1)] by (simp add: holds_lease_def)
  have "check_delivery (finish_row pg now r d)"
    using ok d(1) v by (intro check_finish_row) (auto simp: rows_ok_def schema_ok_def list_all_iff)
  then obtain db1 where u: "update_delivery k (finish_row pg now r) db = Some db1"
    using dk by (simp add: update_delivery_def)
  have "find (holds_lease k (rs_WorkerID r) token (rs_AttemptNumber r)) (deliveries db) \<noteq> None"
    using d unfolding find_None_iff by blast
  then obtain x where x: "find (holds_lease k (rs_WorkerID r) token (rs_AttemptNumber r)) (deliveries db) = Some x"
    by blast
  have "x = d" using find_holds_lease [OF x] tfind_unique [OF rows_ok_dist [OF ok] dk]
    by (simp add: holds_lease_def)
  with x u ids tx show ?thesis by (intro that [OF u]) (simp add: finish_update_def del: finish_row_sel)
qed

lemma insert_result_ok:
  assumes ok: "rows_ok pg {} db" and u: "update_delivery k (finish_row pg now r) db = Some db1"
    and d: "tfind dr_id k (deliveries db) = Some d" "dr_status d = StatusProcessing"
      "dr_attempt_count d = rs_AttemptNumber r"
    and v: "validateAttemptResult r = None" and mono: "mono (pg_time pg)"
    and ids: "pg_uuid pg (rs_DeliveryID r) = Some k" "pg_uuid pg newid = Some a" "a \<notin> ar_id ` set (attempts db)"
    and tx: "pg_text pg (rs_ResponseBody r)" "pg_text pg (rs_ErrorMessage r)"
  obtains db2 where "insert_result pg newid r db1 = Some db2"
    and "endpoints db2 = endpoints db"
proof -
  let ?a = "result_attempt pg a k r"
  have "attempt_numbers db k = {1 .. rs_AttemptNumber r - 1}"
    using ok d tfind_SomeD [OF d(1)] by (auto simp: rows_ok_def log_ok_def expected_log_def)
  then have key: "attempt_key ?a \<notin> attempt_key ` set (attempts db)"
    by (auto simp: attempt_key_def attempt_numbers_def result_attempt_def)
  have "tfind dr_id k (deliveries db1) \<noteq> None"
    using d(1) by (simp add: tfind_update_delivery [OF u])
  then have "k \<in> dr_id ` set (deliveries db1)" unfolding tfind_None_iff by blast
  with key ids check_result_attempt [OF v mono] update_delivery_frame [OF u]
  have "insert_attempt ?a db1 = Some (db1\<lparr>attempts := attempts db1 @ [?a]\<rparr>)"
    by (simp add: insert_attempt_def) (simp add: result_attempt_def)
  then show ?thesis
    using ids tx update_delivery_frame [OF u]
    by (intro that [of "db1\<lparr>attempts := attempts db1 @ [?a]\<rparr>"]) (simp_all add: insert_result_def)
qed

lemma circuit_ok:
  assumes e: "tfind er_id k (endpoints db) = Some e" "pg_uuid pg k = Some k" "check_endpoint e"
    and "rs_CircuitOutcome r = CircuitFailure \<Longrightarrow>
      rs_CircuitThreshold r \<le> max_int32 \<and> er_consecutive_failures e < max_int32"
    and "rs_CircuitOutcome r \<in> {CircuitNone, CircuitFailure, CircuitSuccess}"
  shows "\<exists>db'. circuit_step pg now r k db db'"
  using assms
  by (auto simp: circuit_step_def circuit_failure_def circuit_success_def update_endpoint_def
      check_endpoint_def circuit_failure_row_def circuit_success_row_def)

lemma finish_completes:
  assumes inv: "store_inv pg db" and v: "validateAttemptResult r = None" and io: "io = (\<lambda>_. Works)"
    and mono: "mono (pg_time pg)"
    and d: "d \<in> set (deliveries db)" "holds_lease k (rs_WorkerID r) token (rs_AttemptNumber r) d"
    and ids: "pg_uuid pg (rs_DeliveryID r) = Some k" "pg_uuid pg (rs_LeaseToken r) = Some token"
      "pg_uuid pg (gen 0) = Some a" "a \<notin> ar_id ` set (attempts db)"
    and tx: "pg_text pg (rs_WorkerID r)" "pg_text pg (rs_ErrorMessage r)" "pg_text pg (rs_ResponseBody r)"
    and cir: "rs_CircuitOutcome r = CircuitFailure \<longrightarrow> rs_CircuitThreshold r \<le> max_int32 \<and>
      (\<forall>e \<in> set (endpoints db). er_consecutive_failures e < max_int32)"
  shows "\<exists>st db'. FinishAttempt pg io gen now r db = (Inr st, db')"
proof -
  have ok: "rows_ok pg {} db" using inv by (simp add: store_inv_def)
  have dk: "tfind dr_id k (deliveries db) = Some d" "dr_status d = StatusProcessing"
      "dr_attempt_count d = rs_AttemptNumber r"
    using d tfind_key [OF rows_ok_dist [OF ok] d(1)] by (simp_all add: holds_lease_def)
  obtain db1 where u: "update_delivery k (finish_row pg now r) db = Some db1"
    and fu: "finish_update pg now r db = Some (Some (dr_status (finish_row pg now r d), dr_endpoint_id d), db1)"
    by (rule finish_update_ok [OF ok v d ids(1,2) tx(1,2)])
  obtain db2 where ir: "insert_result pg (gen 0) r db1 = Some db2" and ep: "endpoints db2 = endpoints db"
    by (rule insert_result_ok [OF ok u dk v mono ids(1,3,4) tx(3,2)])
  have "dr_endpoint_id d \<in> er_id ` set (endpoints db2)"
    using ok d(1) ep by (auto simp: rows_ok_def schema_ok_def list_all_iff)
  then obtain e where e: "tfind er_id (dr_endpoint_id d) (endpoints db2) = Some e"
    using tfind_None_iff [of er_id "dr_endpoint_id d" "endpoints db2"] by fastforce
  from tfind_SomeD [OF e] ep ok have "check_endpoint e" "pg_uuid pg (dr_endpoint_id d) = Some (dr_endpoint_id d)"
    by (auto simp: rows_ok_def schema_ok_def list_all_iff ids_ok_def)
  then have "\<exists>db3. circuit_step pg now r (dr_endpoint_id d) db2 db3"
    using e cir tfind_SomeD [OF e] ep validateAttemptResultD(8) [OF v] by (intro circuit_ok [OF e]) auto
  then obtain db3 where c: "circuit_step pg now r (dr_endpoint_id d) db2 db3" by blast
  have "finish_body pg io gen now r db = Inr (dr_status (finish_row pg now r d), db3)"
    using fu ir c io by (simp add: finish_body_def stmt_def circuit_step_def del: finish_row_sel
        split: CircuitOutcome.splits)
  then show ?thesis using io v by (simp add: FinishAttempt_def run_tx_ok del: finish_row_sel)
qed

text \<open>A valid result from the holder of the lease is never refused: when the driver's calls
  work, the texts are ones the database accepts and the new identifier is unused,
  \<open>FinishAttempt\<close> records it. In particular its insert into the attempt log never
  conflicts.\<close>

theorem FinishAttempt_completes:
  assumes inv: "store_inv pg db" and v: "validateAttemptResult r = None" and io: "io = (\<lambda>_. Works)"
    and mono: "mono (pg_time pg)"
    and d: "d \<in> set (deliveries db)" "holds_lease k (rs_WorkerID r) token (rs_AttemptNumber r) d"
    and ids: "pg_uuid pg (rs_DeliveryID r) = Some k" "pg_uuid pg (rs_LeaseToken r) = Some token"
      "pg_uuid pg (gen 0) = Some a" "a \<notin> ar_id ` set (attempts db)"
    and tx: "pg_text pg (rs_WorkerID r)" "pg_text pg (rs_ErrorMessage r)" "pg_text pg (rs_ResponseBody r)"
    and cir: "rs_CircuitOutcome r = CircuitFailure \<longrightarrow> rs_CircuitThreshold r \<le> max_int32 \<and>
      (\<forall>e \<in> set (endpoints db). er_consecutive_failures e < max_int32)"
  shows "\<exists>st db'. FinishAttempt pg io gen now r db = (Inr st, db')"
  by (rule finish_completes [where gen = gen, OF inv v io mono d ids tx cir])

lemma mono_sample: "mono (pg_time sample_pg)"
  by (simp add: mono_def zdiv_mono1)

theorem FinishAttempt_completes_witness:
  "\<exists>st db'. FinishAttempt sample_pg sample_io (sample_gen 1) 4000000000 sample_result sample_claimed = (Inr st, db')"
  by (rule FinishAttempt_completes [OF sample_inv(3) sample_result_valid _ mono_sample,
        where d = sample_claimed_row and k = "''dl''" and token = "''x''" and a = "sample_gen 1 0"])
    (simp_all add: sample_io_def [abs_def] sample_claimed_eq(2) holds_lease_def sample_gen_def)

section \<open>Claims\<close>

lemma ClaimDelivery_body:
  assumes "ClaimDelivery pg io gen now skipR skipC w lease db = (Inr j, db')"
  shows "claim_body pg io gen now skipR skipC (trim_space w) lease db = Inr (j, db')"
    and "millisecond \<le> lease" and "trim_space w \<noteq> []"
  using assms by (auto simp: ClaimDelivery_def Let_def split: if_splits dest: run_tx_InrE)

text \<open>A claimed row before the claim, after the recovery of expired leases.\<close>

lemma recovered_row_cases:
  assumes ok: "rows_ok pg {} db" and r: "recoverExpiredLeases pg io gen now skip db = Inr (n, db1)"
    and c: "tfind dr_id k (deliveries db1) = Some c"
  obtains (same) "tfind dr_id k (deliveries db) = Some c"
  | (recovered) d where "tfind dr_id k (deliveries db) = Some d" "c = recover_row now d"
      "lease_expired now skip d"
proof -
  note tf = recoverExpiredLeases_ok(6) [OF ok r, of k]
  show thesis
  proof (cases "k \<in> dr_id ` set (expired_rows now skip db)")
    case True
    then obtain x where x: "x \<in> set (deliveries db)" "dr_id x = k" "lease_expired now skip x"
      using expired_rowsD by blast
    then have "tfind dr_id k (deliveries db) = Some x" using tfind_key [OF rows_ok_dist [OF ok]] by blast
    with tf True c x that(2) show ?thesis by simp
  qed (use tf c that(1) in simp)
qed

text \<open>Rows waiting before the recovery are untouched by it.\<close>

lemma waiting_after_recovery:
  assumes ok: "rows_ok pg {} db" and r: "recoverExpiredLeases pg io gen now skip db = Inr (n, db1)"
    and x: "x \<in> set (deliveries db)" "claimable now skipC db x"
  shows "x \<in> set (deliveries db1)" and "claimable now skipC db1 x"
proof -
  note rec = recoverExpiredLeases_ok [OF ok r]
  have tx: "tfind dr_id (dr_id x) (deliveries db) = Some x" by (rule tfind_key [OF rows_ok_dist [OF ok] x(1)])
  have "dr_id x \<notin> dr_id ` set (expired_rows now skip db)"
  proof
    assume "dr_id x \<in> dr_id ` set (expired_rows now skip db)"
    then obtain y where y: "y \<in> set (deliveries db)" "dr_id y = dr_id x" and "lease_expired now skip y"
      using expired_rowsD by (metis imageE)
    with tfind_unique [OF rows_ok_dist [OF ok] tx y] x(2) show False
      by (auto simp: claimable_def lease_expired_def)
  qed
  with rec(6) [of "dr_id x"] tx have "tfind dr_id (dr_id x) (deliveries db1) = Some x" by simp
  then show "x \<in> set (deliveries db1)" using tfind_SomeD by metis
  show "claimable now skipC db1 x" using x(2) rec(3) by (simp add: claimable_def endpoint_open_def)
qed

text \<open>The row of a claimed job.\<close>

lemma claimed_job_row:
  assumes inv: "store_inv pg db" and c: "ClaimDelivery pg io gen now skipR skipC w lease db = (Inr (Some j), db')"
  obtains d' tok where "d' \<in> set (deliveries db')" and "jb_Delivery j = scanDelivery d'"
    and "dr_status d' = StatusProcessing" and "dr_locked_by d' = Some (trim_space w)"
    and "dr_lease_token d' = Some tok" and "endpoints db' = endpoints db"
proof -
  have ok: "rows_ok pg {} db" using inv by (simp add: store_inv_def)
  from ClaimDelivery_body(1) [OF c] obtain n db1 row where
    r: "recoverExpiredLeases pg io gen now skipR db = Inr (n, db1)"
    and q: "claim_query pg (trim_space w) (gen n) (milliseconds lease) now skipC db1 = Some (row, db')"
    and row: "case row of None \<Rightarrow> Some j = None
      | Some (d, v, e) \<Rightarrow> (\<exists>x. scanJob d v e = Inr x \<and> Some j = Some x)"
    by (rule claim_bodyE)
  note rec = recoverExpiredLeases_ok [OF ok r]
  from rec(1) q show ?thesis
  proof (cases rule: claim_queryE)
    case none
    with row show ?thesis by simp
  next
    case (some x tok v e)
    let ?d' = "claim_row (trim_space w) tok (milliseconds lease) now x"
    have "tfind dr_id (dr_id x) (deliveries db') = Some ?d'"
      using some(3) by (simp add: tfind_update_delivery [OF some(4)])
    then have "?d' \<in> set (deliveries db')" using tfind_SomeD by metis
    moreover have "jb_Delivery j = scanDelivery ?d'" using row some(7) by (auto simp: scanJob_def)
    ultimately show ?thesis
      using update_delivery_frame [OF some(4)] rec(3) by (intro that [of ?d' tok]) simp_all
  qed
qed

lemma claim_hands_out:
  assumes inv: "store_inv pg db" and c: "ClaimDelivery pg io gen now skipR skipC w lease db = (Inr (Some j), db')"
  shows "\<exists>k d d' v e. tfind dr_id k (deliveries db) = Some d \<and> tfind dr_id k (deliveries db') = Some d' \<and>
    (waiting d \<and> dr_next_attempt_at d \<le> now \<or>
     dr_status d = StatusProcessing \<and> (\<exists>u. dr_locked_until d = Some u \<and> u \<le> now)) \<and>
    dr_status d' = StatusProcessing \<and> dr_locked_by d' = Some (trim_space w) \<and>
    dr_locked_until d' = Some (now + milliseconds lease * millisecond) \<and>
    dr_attempt_count d' = dr_attempt_count d + 1 \<and> dr_attempt_count d' \<le> dr_max_attempts d' \<and>
    jb_Delivery j = scanDelivery d' \<and>
    tfind vr_id (dr_event_id d') (events db) = Some v \<and> jb_Event j = scan_event v \<and>
    tfind er_id (dr_endpoint_id d') (endpoints db) = Some e \<and> jb_Endpoint j = scanEndpoint e \<and>
    er_disabled_at e = None \<and> (\<forall>u. er_circuit_open_until e = Some u \<longrightarrow> u \<le> now) \<and>
    (\<forall>x \<in> set (deliveries db). claimable now skipC db x \<longrightarrow>
      (dr_next_attempt_at d', dr_created_at d') \<le> (dr_next_attempt_at x, dr_created_at x))"
proof -
  have ok: "rows_ok pg {} db" using inv by (simp add: store_inv_def)
  from ClaimDelivery_body(1) [OF c] obtain n db1 row where
    r: "recoverExpiredLeases pg io gen now skipR db = Inr (n, db1)"
    and q: "claim_query pg (trim_space w) (gen n) (milliseconds lease) now skipC db1 = Some (row, db')"
    and row: "case row of None \<Rightarrow> Some j = None
      | Some (d, v, e) \<Rightarrow> (\<exists>x. scanJob d v e = Inr x \<and> Some j = Some x)"
    by (rule claim_bodyE)
  note rec = recoverExpiredLeases_ok [OF ok r]
  from rec(1) q show ?thesis
  proof (cases rule: claim_queryE)
    case none
    with row show ?thesis by simp
  next
    case (some x tok v e)
    note cd = claim_candidate_SomeD [OF some(1)]
    let ?d' = "claim_row (trim_space w) tok (milliseconds lease) now x"
    have j: "jb_Delivery j = scanDelivery ?d'" "jb_Event j = scan_event v" "jb_Endpoint j = scanEndpoint e"
      using row some(7) by (auto simp: scanJob_def)
    have e: "er_disabled_at e = None" "\<forall>u. er_circuit_open_until e = Some u \<longrightarrow> u \<le> now"
      using cd(2) some(6) by (auto simp: claimable_def endpoint_open_def)
    have d': "tfind dr_id (dr_id x) (deliveries db') = Some ?d'"
      using some(3) by (simp add: tfind_update_delivery [OF some(4)])
    have least: "\<forall>y \<in> set (deliveries db). claimable now skipC db y \<longrightarrow>
        (dr_next_attempt_at ?d', dr_created_at ?d') \<le> (dr_next_attempt_at y, dr_created_at y)"
      using cd(3) waiting_after_recovery [OF ok r] by (auto simp: claim_row_def)
    have budget: "dr_attempt_count x + 1 \<le> dr_max_attempts x" using cd(2) by (simp add: claimable_def)
    from ok r some(3) show ?thesis
    proof (cases rule: recovered_row_cases)
      case same
      show ?thesis
        by (intro exI [of _ "dr_id x"] exI [of _ x] exI [of _ ?d'] exI [of _ v] exI [of _ e])
          (use same d' j e least some(5,6) cd(2) rec(2,3) budget in
            \<open>auto simp: waiting_def claimable_def claim_row_def\<close>)
    next
      case (recovered d)
      show ?thesis
        by (intro exI [of _ "dr_id x"] exI [of _ d] exI [of _ ?d'] exI [of _ v] exI [of _ e])
          (use recovered d' j e least some(5,6) rec(2,3) budget in
            \<open>auto simp: lease_expired_def claim_row_def split: option.splits\<close>)
    qed
  qed
qed

text \<open>C8. A claim hands out one delivery under a fresh lease: the delivery was waiting and due, or
  its previous lease had expired, so no delivery is ever taken from a live lease; its endpoint is
  enabled and its circuit closed; the attempt counter goes up by one within the budget; the
  lease runs to \<^verbatim>\<open>now + lease\<close>; and no due delivery is older.\<close>

theorem ClaimDelivery_hands_out:
  assumes inv: "store_inv pg db" and c: "ClaimDelivery pg io gen now skipR skipC w lease db = (Inr (Some j), db')"
  shows "\<exists>k d d' v e. tfind dr_id k (deliveries db) = Some d \<and> tfind dr_id k (deliveries db') = Some d' \<and>
    (waiting d \<and> dr_next_attempt_at d \<le> now \<or>
     dr_status d = StatusProcessing \<and> (\<exists>u. dr_locked_until d = Some u \<and> u \<le> now)) \<and>
    dr_status d' = StatusProcessing \<and> dr_locked_by d' = Some (trim_space w) \<and>
    dr_locked_until d' = Some (now + milliseconds lease * millisecond) \<and>
    dr_attempt_count d' = dr_attempt_count d + 1 \<and> dr_attempt_count d' \<le> dr_max_attempts d' \<and>
    jb_Delivery j = scanDelivery d' \<and>
    tfind vr_id (dr_event_id d') (events db) = Some v \<and> jb_Event j = scan_event v \<and>
    tfind er_id (dr_endpoint_id d') (endpoints db) = Some e \<and> jb_Endpoint j = scanEndpoint e \<and>
    er_disabled_at e = None \<and> (\<forall>u. er_circuit_open_until e = Some u \<longrightarrow> u \<le> now) \<and>
    (\<forall>x \<in> set (deliveries db). claimable now skipC db x \<longrightarrow>
      (dr_next_attempt_at d', dr_created_at d') \<le> (dr_next_attempt_at x, dr_created_at x))"
  using assms by (rule claim_hands_out)

theorem ClaimDelivery_hands_out_witness:
  "\<exists>k d d'. tfind dr_id k (deliveries sample_enqueued) = Some d \<and> tfind dr_id k (deliveries sample_claimed) = Some d' \<and>
    dr_status d' = StatusProcessing \<and> dr_attempt_count d' = dr_attempt_count d + 1"
  using ClaimDelivery_hands_out [OF sample_inv(2) sample_claimed_eq(1)] by blast

section \<open>A claim does not get stuck\<close>

lemma check_recover_row:
  "check_delivery d \<Longrightarrow> dr_status d = StatusProcessing \<Longrightarrow> check_delivery (recover_row now d)"
  by (simp add: check_delivery_def recover_row_def)

lemma check_claim_row:
  assumes "check_delivery d" and "dr_attempt_count d < dr_max_attempts d" and "0 < l"
  shows "check_delivery (claim_row w t l now d)"
  using assms by (simp add: check_delivery_def claim_row_def)

lemma update_deliveries_ok:
  assumes "distinct ks" and "\<And>k d. k \<in> set ks \<Longrightarrow> tfind dr_id k (deliveries db) = Some d \<Longrightarrow>
    check_delivery (recover_row now d)"
  shows "\<exists>db'. update_deliveries ks (recover_row now) db = Some db'"
  using assms
proof (induction ks arbitrary: db)
  case (Cons k ks)
  obtain db1 where u: "update_delivery k (recover_row now) db = Some db1"
    using Cons.prems(2) [of k] by (cases "tfind dr_id k (deliveries db)") (auto simp: update_delivery_def)
  have "\<exists>db'. update_deliveries ks (recover_row now) db1 = Some db'"
    using Cons.prems by (intro Cons.IH) (auto simp: tfind_update_delivery [OF u] split: if_splits)
  with u show ?case by simp
qed simp

lemma scan_recovered_ok:
  "(\<And>d. d \<in> set ds \<Longrightarrow> dr_locked_at d \<noteq> None) \<Longrightarrow> \<exists>items. scan_recovered now ds = Some items"
proof (induction ds)
  case (Cons d ds)
  obtain items where "scan_recovered now ds = Some items" using Cons by auto
  moreover obtain t where "dr_locked_at d = Some t" using Cons.prems [of d] by auto
  ultimately show ?case by simp
qed simp

text \<open>A supply of unused identifiers.\<close>

definition fresh_ids :: "pg \<Rightarrow> new_uuids \<Rightarrow> nat \<Rightarrow> db \<Rightarrow> bool" where
  "fresh_ids pg gen n db \<longleftrightarrow>
     (\<forall>m. pg_uuid pg (gen m) \<noteq> None) \<and> inj (\<lambda>m. the (pg_uuid pg (gen m))) \<and>
     (\<forall>m \<ge> n. the (pg_uuid pg (gen m)) \<notin> ar_id ` set (attempts db))"

definition recordable :: "pg \<Rightarrow> db \<Rightarrow> recoveredLease \<Rightarrow> bool" where
  "recordable pg db item \<longleftrightarrow>
     (\<forall>i. check_attempt (expired_attempt pg i (rl_deliveryID item) item)) \<and>
     pg_uuid pg (rl_deliveryID item) = Some (rl_deliveryID item) \<and>
     rl_deliveryID item \<in> dr_id ` set (deliveries db)"

lemma insert_expired_ok:
  assumes "fresh_ids pg gen n db" and "recordable pg db item" and "pg_text pg ''delivery lease expired''"
  obtains db' where "insert_expired pg (gen n) item db = Some db'" and "fresh_ids pg gen (Suc n) db'"
    and "deliveries db' = deliveries db"
proof -
  obtain i where i: "pg_uuid pg (gen n) = Some i" using assms(1) unfolding fresh_ids_def by blast
  have inj: "the (pg_uuid pg (gen m)) = i \<Longrightarrow> m = n" for m
    using assms(1) i by (auto simp: fresh_ids_def dest: injD [where y = n])
  have new: "i \<notin> ar_id ` set (attempts db)" using assms(1) i unfolding fresh_ids_def by force
  let ?a = "expired_attempt pg i (rl_deliveryID item) item"
  have sel: "ar_id ?a = i" "ar_delivery_id ?a = rl_deliveryID item"
    "ar_error_message ?a = ''delivery lease expired''" by (simp_all add: expired_attempt_def)
  show thesis
  proof (cases "attempt_key ?a \<in> attempt_key ` set (attempts db)")
    case True
    then have "insert_expired pg (gen n) item db = Some db"
      using assms(2,3) i sel by (simp add: insert_expired_def recordable_def)
    moreover have "fresh_ids pg gen (Suc n) db" using assms(1) by (simp add: fresh_ids_def)
    ultimately show ?thesis by (intro that) simp_all
  next
    case False
    let ?db = "db\<lparr>attempts := attempts db @ [?a]\<rparr>"
    have "insert_attempt ?a db = Some ?db"
      using False new assms(2) sel by (simp add: insert_attempt_def recordable_def)
    then have "insert_expired pg (gen n) item db = Some ?db"
      using False i assms(2,3) sel by (simp add: insert_expired_def recordable_def)
    moreover have "fresh_ids pg gen (Suc n) ?db"
      using assms(1) inj sel(1) by (auto simp: fresh_ids_def)
    ultimately show ?thesis by (rule that) simp
  qed
qed

lemma record_expired_ok:
  assumes "fresh_ids pg gen n db" and "\<And>item. item \<in> set items \<Longrightarrow> recordable pg db item"
    and "pg_text pg ''delivery lease expired''"
  shows "\<exists>m db'. record_expired pg (\<lambda>_. Works) gen n items db = Inr (m, db')"
  using assms
proof (induction items arbitrary: n db)
  case (Cons item items)
  obtain db1 where i: "insert_expired pg (gen n) item db = Some db1" and "fresh_ids pg gen (Suc n) db1"
    and fr: "deliveries db1 = deliveries db"
    using insert_expired_ok [of pg gen n db item] Cons.prems by auto
  then have "\<exists>m db'. record_expired pg (\<lambda>_. Works) gen (Suc n) items db1 = Inr (m, db')"
    using Cons.prems by (intro Cons.IH) (auto simp: recordable_def fr)
  with i show ?case by (simp add: stmt_def)
qed simp

lemma expired_item_recordable:
  assumes ok: "rows_ok pg {} db" and mono: "mono (pg_time pg)" and d: "d \<in> set (deliveries db)"
    and e: "lease_expired now skip d" and it: "item_of now d item"
    and ids: "dr_id ` set (deliveries db1) = dr_id ` set (deliveries db)"
  shows "recordable pg db1 item"
proof -
  have cd: "check_delivery d" using ok d by (auto simp: rows_ok_def schema_ok_def list_all_iff)
  have n: "1 \<le> dr_attempt_count d" "pg_uuid pg (dr_id d) = Some (dr_id d)"
    using ok d e by (auto simp: rows_ok_def claim_ok_def lease_expired_def ids_ok_def)
  obtain t u where "dr_locked_at d = Some t" "dr_locked_until d = Some u" "t < u" "u \<le> now"
    using cd e by (auto simp: lease_expired_def check_delivery_def split: option.splits)
  then have t: "rl_startedAt item \<le> rl_completedAt item" using it by (simp add: item_of_def)
  have "check_attempt (expired_attempt pg i (rl_deliveryID item) item)" for i
    using n cd it monoD [OF mono t] durationMilliseconds_bounds [OF time_sub_nonneg [OF t]]
    by (auto simp: check_attempt_def expired_attempt_def item_of_def check_delivery_def)
  then show ?thesis using n it d ids by (auto simp: recordable_def item_of_def)
qed

lemma recoverExpiredLeases_completes:
  assumes ok: "rows_ok pg {} db" and mono: "mono (pg_time pg)" and gen: "fresh_ids pg gen 0 db"
    and tx: "pg_text pg ''delivery lease expired''"
  shows "\<exists>n db'. recoverExpiredLeases pg (\<lambda>_. Works) gen now skip db = Inr (n, db')"
proof -
  let ?rows = "expired_rows now skip db"
  have rows: "d \<in> set (deliveries db)" "lease_expired now skip d" "check_delivery d" if "d \<in> set ?rows" for d
    using expired_rowsD [OF that] ok by (auto simp: rows_ok_def schema_ok_def list_all_iff)
  have "dr_locked_at d \<noteq> None" if "d \<in> set ?rows" for d
    using rows [OF that] by (auto simp: lease_expired_def check_delivery_def)
  then obtain items where items: "scan_recovered now ?rows = Some items" using scan_recovered_ok by blast
  have dist: "distinct (map dr_id ?rows)"
    unfolding expired_rows_def by (rule distinct_map_select_limit [OF rows_ok_dist [OF ok]])
  have chk: "check_delivery (recover_row now d)"
    if "k \<in> set (map dr_id ?rows)" "tfind dr_id k (deliveries db) = Some d" for k d
  proof -
    obtain x where x: "x \<in> set ?rows" "dr_id x = k"
      using \<open>k \<in> set (map dr_id ?rows)\<close> by auto
    have "x = d" using tfind_unique [OF rows_ok_dist [OF ok] that(2) rows(1) [OF x(1)] x(2)] .
    with rows [OF x(1)] show ?thesis by (auto simp: lease_expired_def intro: check_recover_row)
  qed
  obtain db1 where up: "update_deliveries (map dr_id ?rows) (recover_row now) db = Some db1"
    using update_deliveries_ok [OF dist, of db now] chk by blast
  have proc: "processing_row db k" if "k \<in> set (map dr_id ?rows)" for k
    using that rows tfind_key [OF rows_ok_dist [OF ok]] by (force simp: processing_row_def lease_expired_def)
  note up1 = rows_ok_update_deliveries [OF ok up dist proc]
  have "tfind dr_id k (deliveries db1) = None \<longleftrightarrow> tfind dr_id k (deliveries db) = None" for k
    by (simp add: update_deliveries_tfind [OF up dist])
  then have ids: "dr_id ` set (deliveries db1) = dr_id ` set (deliveries db)"
    unfolding tfind_None_iff by blast
  have "recordable pg db1 item" if "item \<in> set items" for item
    using list_all2_in_set2 [OF scan_recovered_items [OF items] that] rows ids
    by (auto intro: expired_item_recordable [OF ok mono])
  moreover have "fresh_ids pg gen 0 db1" using gen up1 by (simp add: fresh_ids_def)
  ultimately obtain n db2 where "record_expired pg (\<lambda>_. Works) gen 0 items db1 = Inr (n, db2)"
    using record_expired_ok tx by blast
  with items up show ?thesis by (simp add: recoverExpiredLeases_def stmt_def scanned_def)
qed

lemma claim_progress:
  assumes inv: "store_inv pg db" and io: "io = (\<lambda>_. Works)" and mono: "mono (pg_time pg)"
    and gen: "fresh_ids pg gen 0 db" and tx: "pg_text pg ''delivery lease expired''" "pg_text pg (trim_space w)"
    and w: "trim_space w \<noteq> []" and lease: "millisecond \<le> lease"
    and due: "x \<in> set (deliveries db)" "claimable now skipC db x"
  shows "\<exists>j db'. ClaimDelivery pg io gen now skipR skipC w lease db = (Inr (Some j), db')"
proof -
  have ok: "rows_ok pg {} db" using inv by (simp add: store_inv_def)
  obtain n db1 where r: "recoverExpiredLeases pg io gen now skipR db = Inr (n, db1)"
    using recoverExpiredLeases_completes [OF ok mono gen tx(1)] io by blast
  note rec = recoverExpiredLeases_ok [OF ok r]
  have "claim_candidate now skipC db1 \<noteq> None"
    unfolding claim_candidate_None_iff using waiting_after_recovery [OF ok r due] by blast
  then obtain c where c: "claim_candidate now skipC db1 = Some c" by blast
  note cd = claim_candidate_SomeD [OF c]
  obtain tok where tok: "pg_uuid pg (gen n) = Some tok" using gen unfolding fresh_ids_def by blast
  have tf: "tfind dr_id (dr_id c) (deliveries db1) = Some c" by (rule tfind_key [OF rows_ok_dist [OF rec(1)] cd(1)])
  have "check_delivery (claim_row (trim_space w) tok (milliseconds lease) now c)"
    using rec(1) cd lease by (intro check_claim_row)
      (auto simp: rows_ok_def schema_ok_def list_all_iff claimable_def intro: milliseconds_pos)
  then obtain db2 where u: "update_delivery (dr_id c) (claim_row (trim_space w) tok (milliseconds lease) now) db1 = Some db2"
    using tf by (simp add: update_delivery_def)
  have "tfind vr_id (dr_event_id c) (events db1) \<noteq> None" "tfind er_id (dr_endpoint_id c) (endpoints db1) \<noteq> None"
    using rec(1) cd(1) by (auto simp: rows_ok_def schema_ok_def list_all_iff tfind_None_iff)
  then obtain v e where "tfind vr_id (dr_event_id c) (events db1) = Some v"
    "tfind er_id (dr_endpoint_id c) (endpoints db1) = Some e" by blast
  then have "claim_query pg (trim_space w) (gen n) (milliseconds lease) now skipC db1 =
      Some (Some (claim_row (trim_space w) tok (milliseconds lease) now c, v, e), db2)"
    using tok tx c u by (simp add: claim_query_def)
  then have "\<exists>j. claim_body pg io gen now skipR skipC (trim_space w) lease db = Inr (Some j, db2)"
    using r io by (simp add: claim_body_def stmt_def scanJob_def)
  then show ?thesis using io w lease by (auto simp: ClaimDelivery_def Let_def run_tx_ok)
qed

text \<open>C9. Progress: when some delivery is due, not locked by another transaction, and its endpoint
  is enabled with a closed circuit, a claim returns a job. Expired leases, however many and for
  however long, cannot make the claim fail.\<close>

theorem ClaimDelivery_progress:
  assumes inv: "store_inv pg db" and io: "io = (\<lambda>_. Works)" and mono: "mono (pg_time pg)"
    and gen: "fresh_ids pg gen 0 db" and tx: "pg_text pg ''delivery lease expired''" "pg_text pg (trim_space w)"
    and w: "trim_space w \<noteq> []" and lease: "millisecond \<le> lease"
    and due: "x \<in> set (deliveries db)" "claimable now skipC db x"
  shows "\<exists>j db'. ClaimDelivery pg io gen now skipR skipC w lease db = (Inr (Some j), db')"
  by (rule claim_progress [OF assms])

lemma sample_fresh_ids: "attempts db = [] \<Longrightarrow> fresh_ids sample_pg (sample_gen k) 0 db"
proof -
  have "inj (\<lambda>m. sample_gen k m)"
    by (rule injI) (auto simp: sample_gen_def dest!: arg_cong [where f = length])
  then show "attempts db = [] \<Longrightarrow> fresh_ids sample_pg (sample_gen k) 0 db"
    by (simp add: fresh_ids_def sample_gen_def)
qed

theorem ClaimDelivery_progress_witness:
  "\<exists>j db'. ClaimDelivery sample_pg sample_io (sample_gen 0) 3000000000 (\<lambda>_. False) (\<lambda>_. False) ''w1''
    10000000000 sample_enqueued = (Inr (Some j), db')"
  by (rule ClaimDelivery_progress [OF sample_inv(2) _ mono_sample sample_fresh_ids, where x = sample_dl_row])
    (simp_all add: sample_io_def [abs_def] sample_enqueued_eq claimable_def sample_dl_row_def new_delivery_def endpoint_open_def tfind_Cons)

section \<open>The circuit breaker\<close>

lemma finish_body_circuit:
  assumes inv: "store_inv pg db" and b: "finish_body pg io gen now r db = Inr (st, db')"
    and k: "pg_uuid pg (rs_DeliveryID r) = Some k" and d: "tfind dr_id k (deliveries db) = Some d"
  obtains db2 where "endpoints db2 = endpoints db" and "circuit_step pg now r (dr_endpoint_id d) db2 db'"
proof -
  from b obtain j tok x db1 db2 where j: "pg_uuid pg (rs_DeliveryID r) = Some j"
    and "pg_uuid pg (rs_LeaseToken r) = Some tok"
    and hold: "find (holds_lease j (rs_WorkerID r) tok (rs_AttemptNumber r)) (deliveries db) = Some x"
    and u: "update_delivery j (finish_row pg now r) db = Some db1"
    and i: "insert_result pg (gen 0) r db1 = Some db2"
    and c: "circuit_step pg now r (dr_endpoint_id x) db2 db'"
    by (rule finish_bodyE)
  have ok: "rows_ok pg {} db" using inv by (simp add: store_inv_def)
  have "x = d" using find_holds_lease [OF hold] tfind_unique [OF rows_ok_dist [OF ok] d] k j
    by (simp add: holds_lease_def)
  moreover have "endpoints db2 = endpoints db"
    using insert_resultE [OF i j] insert_attempt_frame update_delivery_frame [OF u] by metis
  ultimately show ?thesis using c that by blast
qed

lemma tfind_update_endpoint:
  assumes "update_endpoint k f db = Some db'" and "keeps_endpoint_id f"
  shows "tfind er_id j (endpoints db') =
    (if j = k then map_option f (tfind er_id j (endpoints db)) else tfind er_id j (endpoints db))"
proof -
  have "er_id (f r) = er_id r" for r using assms(2) by (simp add: keeps_endpoint_id_def)
  then show ?thesis using update_endpoint_eq [OF assms(1)] by (simp add: tfind_tupdate)
qed

lemma finish_circuit_cases:
  assumes inv: "store_inv pg db" and f: "FinishAttempt pg io gen now r db = (Inr st, db')"
    and k: "pg_uuid pg (rs_DeliveryID r) = Some k" and d: "tfind dr_id k (deliveries db) = Some d"
    and e: "tfind er_id (dr_endpoint_id d) (endpoints db) = Some e"
  obtains (none) "rs_CircuitOutcome r = CircuitNone" "endpoints db' = endpoints db"
  | (failure) "rs_CircuitOutcome r = CircuitFailure"
      "\<And>j. tfind er_id j (endpoints db') = (if j = dr_endpoint_id d
        then Some (circuit_failure_row (rs_CircuitThreshold r) (milliseconds (rs_CircuitCooldown r)) now e)
        else tfind er_id j (endpoints db))"
  | (success) "rs_CircuitOutcome r = CircuitSuccess"
      "\<And>j. tfind er_id j (endpoints db') = (if j = dr_endpoint_id d
        then Some (circuit_success_row now e) else tfind er_id j (endpoints db))"
proof -
  have b: "finish_body pg io gen now r db = Inr (st, db')" and v: "validateAttemptResult r = None"
    using f by (auto simp: FinishAttempt_def split: option.splits dest: run_tx_InrE)
  obtain db2 where ep: "endpoints db2 = endpoints db" and c: "circuit_step pg now r (dr_endpoint_id d) db2 db'"
    by (rule finish_body_circuit [OF inv b k d])
  have "pg_uuid pg (dr_endpoint_id d) = Some (dr_endpoint_id d)"
    using inv tfind_SomeD [OF e] by (auto simp: store_inv_def rows_ok_def ids_ok_def)
  note step = c [unfolded circuit_step_def circuit_failure_def circuit_success_def this]
  show thesis
  proof (cases "rs_CircuitOutcome r")
    case CircuitNone
    then show ?thesis using step ep by (intro none) auto
  next
    case CircuitFailure
    then have "update_endpoint (dr_endpoint_id d) (circuit_failure_row (rs_CircuitThreshold r)
        (milliseconds (rs_CircuitCooldown r)) now) db2 = Some db'" using step by (simp split: if_splits)
    from tfind_update_endpoint [OF this] show ?thesis
      using CircuitFailure ep e by (intro failure) simp_all
  next
    case CircuitSuccess
    then have "update_endpoint (dr_endpoint_id d) (circuit_success_row now) db2 = Some db'" using step by simp
    from tfind_update_endpoint [OF this] show ?thesis
      using CircuitSuccess ep e by (intro success) simp_all
  next
    case (CircuitOther s)
    then show ?thesis using validateAttemptResultD(8) [OF v] by simp
  qed
qed

lemma claimed_endpoint_open:
  assumes inv: "store_inv pg db" and c: "ClaimDelivery pg io gen now skipR skipC w lease db = (Inr (Some j), db')"
  obtains e where "tfind er_id (ep_ID (jb_Endpoint j)) (endpoints db) = Some e"
    and "\<And>u. er_circuit_open_until e = Some u \<Longrightarrow> u \<le> now" and "jb_Endpoint j = scanEndpoint e"
proof -
  have ok: "rows_ok pg {} db" using inv by (simp add: store_inv_def)
  from ClaimDelivery_body(1) [OF c] obtain n db1 row where
    r: "recoverExpiredLeases pg io gen now skipR db = Inr (n, db1)"
    and q: "claim_query pg (trim_space w) (gen n) (milliseconds lease) now skipC db1 = Some (row, db')"
    and row: "case row of None \<Rightarrow> Some j = None
      | Some (d, v, e) \<Rightarrow> (\<exists>x. scanJob d v e = Inr x \<and> Some j = Some x)"
    by (rule claim_bodyE)
  note rec = recoverExpiredLeases_ok [OF ok r]
  from rec(1) q show ?thesis
  proof (cases rule: claim_queryE)
    case none
    with row show ?thesis by simp
  next
    case (some x tok v e)
    have j: "jb_Endpoint j = scanEndpoint e" using row some(7) by (auto simp: scanJob_def)
    then have "tfind er_id (ep_ID (jb_Endpoint j)) (endpoints db) = Some e"
      using some(6) rec(3) tfind_SomeD [OF some(6)] by (simp add: scanEndpoint_def)
    then show ?thesis
      using claim_candidate_SomeD(2) [OF some(1)] some(6) j
      by (intro that [of e]) (auto simp: claimable_def endpoint_open_def)
  qed
qed

text \<open>C26. The circuit of an endpoint: a recorded failure adds one to its consecutive failures and, from
  the threshold on, opens the circuit for at least the cooldown without ever shortening it; a
  recorded success closes it and resets the count; any other result leaves it alone; no other
  endpoint is touched.\<close>

theorem FinishAttempt_circuit:
  assumes inv: "store_inv pg db" and f: "FinishAttempt pg io gen now r db = (Inr st, db')"
    and k: "pg_uuid pg (rs_DeliveryID r) = Some k" and d: "tfind dr_id k (deliveries db) = Some d"
    and e: "tfind er_id (dr_endpoint_id d) (endpoints db) = Some e"
  shows "\<exists>e'. tfind er_id (dr_endpoint_id d) (endpoints db') = Some e' \<and>
    (rs_CircuitOutcome r = CircuitFailure \<longrightarrow>
      er_consecutive_failures e' = er_consecutive_failures e + 1 \<and>
      (rs_CircuitThreshold r \<le> er_consecutive_failures e + 1 \<longrightarrow>
        (\<exists>u. er_circuit_open_until e' = Some u \<and>
          now + milliseconds (rs_CircuitCooldown r) * millisecond \<le> u \<and>
          (\<forall>u0. er_circuit_open_until e = Some u0 \<longrightarrow> u0 \<le> u))) \<and>
      (er_consecutive_failures e + 1 < rs_CircuitThreshold r \<longrightarrow>
        er_circuit_open_until e' = er_circuit_open_until e)) \<and>
    (rs_CircuitOutcome r = CircuitSuccess \<longrightarrow>
      er_consecutive_failures e' = 0 \<and> er_circuit_open_until e' = None) \<and>
    (rs_CircuitOutcome r = CircuitNone \<longrightarrow> e' = e) \<and>
    er_disabled_at e' = er_disabled_at e \<and>
    (\<forall>j. j \<noteq> dr_endpoint_id d \<longrightarrow> tfind er_id j (endpoints db') = tfind er_id j (endpoints db))"
  using inv f k d e
proof (cases rule: finish_circuit_cases)
  case failure
  then show ?thesis by (auto simp: circuit_failure_row_def)
next
  case success
  then show ?thesis by (auto simp: circuit_success_row_def)
qed (use e in simp)

theorem FinishAttempt_circuit_witness:
  "\<exists>e' u. tfind er_id ''ep'' (endpoints sample_failed) = Some e' \<and> er_consecutive_failures e' = 1 \<and>
    er_circuit_open_until e' = Some u \<and> 34000000000 \<le> u"
proof -
  have "tfind dr_id ''dl'' (deliveries sample_claimed) = Some sample_claimed_row"
    "tfind er_id (dr_endpoint_id sample_claimed_row) (endpoints sample_claimed) = Some sample_ep_row"
    by (simp_all add: sample_claimed_eq(2) tfind_Cons)
  from FinishAttempt_circuit [OF sample_inv(3) sample_failed_eq(1) _ this] show ?thesis
    by (auto simp: milliseconds_def sdiv_nonneg_eq_div)
qed



end
