(* ===== verification/Worker_Store.thy ===== *)
theory Worker_Store
  imports Worker Queue_Properties
begin

text \<open>
  The worker pool on the store. The contract between them is the locale \<open>lease_queue\<close>: what a
  client of \<^verbatim>\<open>worker.Queue\<close> may rely on, whoever else uses the queue. It is interpreted on
  \<open>ClaimDelivery\<close> and \<open>FinishAttempt\<close>; its lemmas are the exactly-once recording of results
  and the fencing of old leases. The last part composes claim, dispatch and finish into one round
  of a worker.
\<close>

section \<open>The contract\<close>

locale lease_queue = invariant_system init moves inv
  for init :: "'s \<Rightarrow> bool" and moves :: "'s \<Rightarrow> 's \<Rightarrow> bool" and inv :: "'s \<Rightarrow> bool" +
  fixes claims :: "'s \<Rightarrow> job \<Rightarrow> 's \<Rightarrow> bool"
    and finishes :: "string \<Rightarrow> int \<Rightarrow> 's \<Rightarrow> 's \<Rightarrow> bool"
    and over :: "'s \<Rightarrow> string \<Rightarrow> int \<Rightarrow> bool"
  assumes claims_moves: "claims s j t \<Longrightarrow> moves s t"
    and finishes_moves: "finishes k n s t \<Longrightarrow> moves s t"
    and over_moves: "inv s \<Longrightarrow> moves s t \<Longrightarrow> over s k n \<Longrightarrow> over t k n"
    and claim_ends_older: "inv s \<Longrightarrow> claims s j t \<Longrightarrow> n < dl_AttemptCount (jb_Delivery j) \<Longrightarrow>
      over t (dl_ID (jb_Delivery j)) n"
    and finish_open: "inv s \<Longrightarrow> finishes k n s t \<Longrightarrow> \<not> over s k n"
    and finish_over: "inv s \<Longrightarrow> finishes k n s t \<Longrightarrow> over t k n"
begin

lemma over_steps: "moves\<^sup>*\<^sup>* s t \<Longrightarrow> inv s \<Longrightarrow> over s k n \<Longrightarrow> over t k n"
  by (induction rule: rtranclp_induct) (auto intro: over_moves steps_inv)

lemma one_result:
  assumes "inv s" and "finishes k n s t" and "moves\<^sup>*\<^sup>* t u" and "finishes k' n' u v"
  shows "k' \<noteq> k \<or> n' \<noteq> n"
proof -
  have t: "inv t" "over t k n"
    using assms(1,2) by (auto intro: step_inv finishes_moves finish_over)
  then have "over u k n" by (rule over_steps [OF assms(3)])
  moreover have "inv u" by (rule steps_inv [OF assms(3) t(1)])
  ultimately show ?thesis using finish_open [OF _ assms(4)] by blast
qed

lemma fenced:
  assumes "inv s" and "claims s j t" and "moves\<^sup>*\<^sup>* t u" and "finishes (dl_ID (jb_Delivery j)) n u v"
  shows "dl_AttemptCount (jb_Delivery j) \<le> n"
proof (rule ccontr)
  assume "\<not> dl_AttemptCount (jb_Delivery j) \<le> n"
  then have "over t (dl_ID (jb_Delivery j)) n" using claim_ends_older [OF assms(1,2)] by simp
  moreover have "inv t" using assms(1,2) by (blast intro: step_inv claims_moves)
  ultimately have "inv u \<and> over u (dl_ID (jb_Delivery j)) n"
    using over_steps [OF assms(3)] steps_inv [OF assms(3)] by blast
  then show False using finish_open [OF _ assms(4)] by blast
qed

end

section \<open>The store meets the contract\<close>

definition store_claims :: "pg \<Rightarrow> db \<Rightarrow> job \<Rightarrow> db \<Rightarrow> bool" where
  "store_claims pg db j db' \<longleftrightarrow>
     (\<exists>io gen now skipR skipC w lease.
        ClaimDelivery pg io gen now skipR skipC w lease db = (Inr (Some j), db'))"

definition store_finishes :: "pg \<Rightarrow> uuid \<Rightarrow> int \<Rightarrow> db \<Rightarrow> db \<Rightarrow> bool" where
  "store_finishes pg k n db db' \<longleftrightarrow>
     (\<exists>io gen now r st. pg_uuid pg (rs_DeliveryID r) = Some k \<and> rs_AttemptNumber r = n \<and>
        FinishAttempt pg io gen now r db = (Inr st, db'))"

lemma attempt_over_step:
  assumes "canonical_uuid pg" and "store_inv pg db" and "store_step pg db db'" and "attempt_over db k n"
  shows "attempt_over db' k n"
  using attempt_over_steps [OF assms(1,2) r_into_rtranclp [of "store_step pg", OF assms(3)] assms(4)] .

lemma claim_ends_older_attempts:
  assumes inv: "store_inv pg db" and inv': "store_inv pg db'" and c: "store_claims pg db j db'"
    and n: "n < dl_AttemptCount (jb_Delivery j)"
  shows "attempt_over db' (dl_ID (jb_Delivery j)) n"
proof -
  from c obtain io gen now skipR skipC w lease where
    "ClaimDelivery pg io gen now skipR skipC w lease db = (Inr (Some j), db')"
    by (auto simp: store_claims_def)
  from claimed_job_row [OF inv this] obtain d' where d': "d' \<in> set (deliveries db')" "jb_Delivery j = scanDelivery d'"
    by blast
  have "rows_ok pg {} db'" using inv' by (simp add: store_inv_def)
  from tfind_key [OF rows_ok_dist [OF this] d'(1)] n d'(2) show ?thesis
    by (simp add: attempt_over_def scanDelivery_def)
qed

lemma finish_is_over:
  assumes "store_inv pg db" and "store_finishes pg k n db db'"
  shows "\<not> attempt_over db k n" and "attempt_over db' k n"
proof -
  from assms(2) obtain io gen now r st where r: "pg_uuid pg (rs_DeliveryID r) = Some k" "rs_AttemptNumber r = n"
    and f: "FinishAttempt pg io gen now r db = (Inr st, db')" by (auto simp: store_finishes_def)
  show "\<not> attempt_over db k n" using finish_needs_lease [OF assms(1) f _ r(1)] r(2) by blast
  have b: "finish_body pg io gen now r db = Inr (st, db')"
    using f by (auto simp: FinishAttempt_def split: option.splits dest: run_tx_InrE)
  from assms(1) b r show "attempt_over db' k n"
    by (auto simp: attempt_over_def finish_row_def elim!: finish_body_rows)
qed

lemma store_claims_step: "store_claims pg db j db' \<Longrightarrow> store_step pg db db'"
  by (auto simp: store_claims_def intro: store_step.intros)

lemma store_finishes_step: "store_finishes pg k n db db' \<Longrightarrow> store_step pg db db'"
  by (auto simp: store_finishes_def intro: store_step.intros)

interpretation lq: lease_queue fresh_store "store_step pg" "\<lambda>db. canonical_uuid pg \<longrightarrow> store_inv pg db"
    "\<lambda>db j db'. canonical_uuid pg \<and> store_claims pg db j db'"
    "\<lambda>k n db db'. canonical_uuid pg \<and> store_finishes pg k n db db'"
    "\<lambda>db k n. canonical_uuid pg \<and> attempt_over db k n" for pg
  by unfold_locales
    (auto intro: store_claims_step store_finishes_step attempt_over_step finish_is_over(2)
        claim_ends_older_attempts store_inv_step dest: finish_is_over(1))

section \<open>Exactly one result per attempt\<close>

text \<open>Every attempt gets at most one result: after a result for an attempt was accepted, and
  whatever any number of workers and servers do in between, every other result for the same
  attempt is refused and changes nothing.\<close>

theorem one_result_per_attempt:
  assumes can: "canonical_uuid pg" and inv: "store_inv pg db"
    and first: "FinishAttempt pg io gen now r db = (Inr st, db1)" and run: "(store_step pg)\<^sup>*\<^sup>* db1 db2"
    and same: "pg_uuid pg (rs_DeliveryID r') = pg_uuid pg (rs_DeliveryID r)" "rs_AttemptNumber r' = rs_AttemptNumber r"
    and again: "FinishAttempt pg io' gen' now' r' db2 = (x, db3)"
  shows "(\<exists>e. x = Inl e) \<and> db3 = db2"
proof -
  have "finish_body pg io gen now r db = Inr (st, db1)"
    using first by (auto simp: FinishAttempt_def split: option.splits dest: run_tx_InrE)
  with inv obtain k where k: "pg_uuid pg (rs_DeliveryID r) = Some k" by (auto elim: finish_body_rows)
  have fin: "store_finishes pg k (rs_AttemptNumber r) db db1"
    using first k unfolding store_finishes_def by blast
  have not_again: "\<not> store_finishes pg k (rs_AttemptNumber r) db2 db4" for db4
    using lq.one_result [of pg db k "rs_AttemptNumber r" db1 db2] can inv fin run by blast
  have "x \<noteq> Inr st'" for st'
    using not_again again k same unfolding store_finishes_def by metis
  then obtain e where e: "x = Inl e" by (cases x) auto
  have inv1: "store_inv pg db1" using store_inv_step [OF can inv] store_finishes_step [OF fin] .
  have inv2: "store_inv pg db2" using store.steps_inv [OF run] can inv1 by blast
  have "attempt_over db2 k (rs_AttemptNumber r')"
    using attempt_over_steps [OF can inv1 run] finish_is_over(2) [OF inv fin] same(2) by simp
  then have "db3 = db2"
    using finish_needs_lease [OF inv2 again, of k] k same(1) by auto
  with e show ?thesis by simp
qed

theorem one_result_per_attempt_witness:
  "(\<exists>e. fst (FinishAttempt sample_pg sample_io (sample_gen 5) 5000000000 sample_result sample_failed) = Inl e) \<and>
   snd (FinishAttempt sample_pg sample_io (sample_gen 5) 5000000000 sample_result sample_failed) = sample_failed"
  using one_result_per_attempt [OF canonical_sample sample_inv(3) sample_failed_eq(1) rtranclp.rtrancl_refl
      refl refl surjective_pairing] by simp

text \<open>C7. Once a delivery was handed out for attempt \<open>n\<close>, every result that is accepted for it
  later belongs to attempt \<open>n\<close> or a later one: a worker that was slow or cut off can never overwrite
  what a newer attempt does.\<close>

theorem newer_claim_fences_older:
  assumes can: "canonical_uuid pg" and inv: "store_inv pg db"
    and claim: "ClaimDelivery pg io gen now skipR skipC w lease db = (Inr (Some j), db1)"
    and run: "(store_step pg)\<^sup>*\<^sup>* db1 db2"
    and r: "pg_uuid pg (rs_DeliveryID r) = Some (dl_ID (jb_Delivery j))"
    and accepted: "FinishAttempt pg io' gen' now' r db2 = (Inr st, db3)"
  shows "dl_AttemptCount (jb_Delivery j) \<le> rs_AttemptNumber r"
proof -
  have "store_claims pg db j db1" using claim unfolding store_claims_def by blast
  moreover have "store_finishes pg (dl_ID (jb_Delivery j)) (rs_AttemptNumber r) db2 db3"
    using r accepted unfolding store_finishes_def by blast
  ultimately show ?thesis using lq.fenced [of pg db j db1 db2 "rs_AttemptNumber r" db3] can inv run by blast
qed

theorem newer_claim_fences_older_witness:
  "dl_AttemptCount (scanDelivery sample_claimed_row) \<le> rs_AttemptNumber sample_result"
  using newer_claim_fences_older [OF canonical_sample sample_inv(2) sample_claimed_eq(1) rtranclp.rtrancl_refl
      _ sample_failed_eq(1)] by (simp add: scanDelivery_def)

section \<open>One round of a worker on the store\<close>

text \<open>A round in which the queue is the store and the dispatcher is the one of \<open>Webhook\<close>; the driver
  works while the attempt is finished, the context is not cancelled.\<close>

definition store_tick ::
  "pg \<Rightarrow> io \<Rightarrow> new_uuids \<Rightarrow> time \<Rightarrow> locked \<Rightarrow> locked \<Rightarrow> web_env \<Rightarrow> Dispatcher \<Rightarrow> time \<Rightarrow> time \<Rightarrow> new_uuids \<Rightarrow> time
    \<Rightarrow> float64 \<Rightarrow> db tick" where
  "store_tick pg io gen now skipR skipC env d t u gen' now' sample =
     \<lparr>tk_claim = ClaimDelivery pg io gen now skipR skipC, tk_deliver = (\<lambda>rq. snd (Deliver env d t u rq)),
      tk_finish = FinishAttempt pg (\<lambda>_. Works) gen' now', tk_sample = sample, tk_claim_cancelled = False,
      tk_finish_cancelled = False, tk_waited = True\<rparr>"

lemma claimed_job_lease:
  assumes can: "canonical_uuid pg" and inv: "store_inv pg db"
    and c: "ClaimDelivery pg io gen now skipR skipC w lease db = (Inr (Some j), db')"
  obtains d' where "d' \<in> set (deliveries db')" and "dr_id d' = dl_ID (jb_Delivery j)"
    and "holds_lease (dl_ID (jb_Delivery j)) (trim_space w) (dl_LeaseToken (jb_Delivery j)) (dl_AttemptCount (jb_Delivery j)) d'"
    and "pg_uuid pg (dl_ID (jb_Delivery j)) = Some (dl_ID (jb_Delivery j))"
    and "pg_uuid pg (dl_LeaseToken (jb_Delivery j)) = Some (dl_LeaseToken (jb_Delivery j))"
    and "1 \<le> dl_AttemptCount (jb_Delivery j)" and "dl_AttemptCount (jb_Delivery j) \<le> max_int32"
    and "store_inv pg db'"
proof -
  from claimed_job_row [OF inv c] obtain d' tok where d': "d' \<in> set (deliveries db')"
    "jb_Delivery j = scanDelivery d'" "dr_status d' = StatusProcessing" "dr_locked_by d' = Some (trim_space w)"
    "dr_lease_token d' = Some tok" by blast
  have inv': "store_inv pg db'" using store_inv_step [OF can inv store_step.claim [OF c]] .
  then have ok: "rows_ok pg {} db'" by (simp add: store_inv_def)
  have tf: "tfind dr_id (dr_id d') (deliveries db') = Some d'" by (rule tfind_key [OF rows_ok_dist [OF ok] d'(1)])
  have "pg_uuid pg (dr_id d') = Some (dr_id d')" "check_delivery d'" "pg_uuid pg tok = Some tok"
    using ok d'(1,5) by (auto simp: rows_ok_def schema_ok_def ids_ok_def list_all_iff)
  moreover have "1 \<le> dr_attempt_count d'" using processing_count [OF ok tf d'(3)] .
  moreover have "dr_attempt_count d' \<le> dr_max_attempts d'"
    using ok d'(1) calculation(2) by (auto simp: check_delivery_def)
  ultimately show ?thesis
    by (intro that [of d']) (use d' inv' in \<open>auto simp: scanDelivery_def holds_lease_def check_delivery_def\<close>)
qed

text \<open>A round whose result the store accepts.\<close>

lemma finished_round:
  assumes inv: "store_inv pg db'" and claim: "ClaimDelivery pg io gen now skipR skipC w (cf_LeaseDuration config) db = (Inr (Some j), db1)"
    and t: "tk_claim t = ClaimDelivery pg io gen now skipR skipC \<and> tk_deliver t (job_request j) = r \<and> \<not> tk_finish_cancelled t \<and>
      tk_finish t (finish_of cvt config w j r (tk_sample t) False) db1 =
      FinishAttempt pg (\<lambda>_. Works) gen' now' (finish_of cvt config w j r (tk_sample t) False) db'"
    and f: "FinishAttempt pg (\<lambda>_. Works) gen' now' (finish_of cvt config w j r (tk_sample t) False) db' = (Inr s, db2)"
    and id: "pg_uuid pg (dl_ID (jb_Delivery j)) = Some (dl_ID (jb_Delivery j))"
    and x: "tfind dr_id (dl_ID (jb_Delivery j)) (deliveries db') = Some x"
  shows "\<exists>db2 att d2. runWorker cvt config w [t] db =
      ([ObserveClaim ''claimed'', AddInFlight 1, ObserveAttempt (wr_Decision r) (wr_Duration r), AddInFlight (- 1)], db2, False) \<and>
    attempts db2 = attempts db' @ [att] \<and> ar_delivery_id att = dl_ID (jb_Delivery j) \<and>
    ar_attempt_number att = dl_AttemptCount (jb_Delivery j) \<and> ar_status_code att = wr_StatusCode r \<and>
    ar_response_body att = wr_ResponseBody r \<and> ar_error_message att = wr_ErrorMessage r \<and>
    tfind dr_id (dl_ID (jb_Delivery j)) (deliveries db2) = Some d2 \<and> dr_status d2 \<noteq> StatusProcessing"
proof -
  let ?f = "finish_of cvt config w j r (tk_sample t) False"
  have sel: "rs_ErrorMessage ?f = wr_ErrorMessage r" "rs_ResponseBody ?f = wr_ResponseBody r" "rs_StatusCode ?f = wr_StatusCode r"
    by (simp_all add: finish_of_def Let_def)
  from f have "finish_body pg (\<lambda>_. Works) gen' now' ?f db' = Inr (s, db2)"
    by (auto simp: FinishAttempt_def split: option.splits dest: run_tx_InrE)
  with inv obtain k' where k': "pg_uuid pg (rs_DeliveryID ?f) = Some k'"
    and tf: "\<And>k. tfind dr_id k (deliveries db2) = (if k = k' then map_option (finish_row pg now' ?f) (tfind dr_id k (deliveries db'))
       else tfind dr_id k (deliveries db'))"
    and at: "\<exists>i. attempts db2 = attempts db' @ [result_attempt pg i k' ?f]"
    by (rule finish_body_rows) blast
  have k: "k' = dl_ID (jb_Delivery j)" using k' id by simp
  obtain i where i: "attempts db2 = attempts db' @ [result_attempt pg i k' ?f]" using at by blast
  have run: "runWorker cvt config w [t] db =
      ([ObserveClaim ''claimed'', AddInFlight 1, ObserveAttempt (wr_Decision r) (wr_Duration r), AddInFlight (- 1)], db2, False)"
    using claim f t by (simp add: process_def Let_def)
  show ?thesis
    by (intro exI [of _ db2] exI [of _ "result_attempt pg i k' ?f"] exI [of _ "finish_row pg now' ?f x"])
      (use run i k x tf sel in \<open>simp add: result_attempt_def finish_row_def\<close>)
qed

text \<open>One round of a worker on the store: a worker that claims a delivery, sends the webhook and
  finishes within its lease gets its result recorded, whatever the endpoint answered. The
  result it builds always passes the store's validation; exactly one attempt is appended, with the
  status and the texts of the dispatcher's result, the delivery is no longer being processed, and no
  finish error is counted. (The clock does not run backwards during the call, statuses are in the range
  of HTTP, the texts can be stored, identifiers are not blank, and the retry policy was validated with a jitter below one.)\<close>

theorem worker_round_records_attempt:
  assumes can: "canonical_uuid pg" and inv: "store_inv pg db" and mono: "mono (pg_time pg)"
    and claim: "ClaimDelivery pg io gen now skipR skipC w (cf_LeaseDuration config) db = (Inr (Some j), db1)"
    and w: "trim_space w = w" "w \<noteq> []" "pg_text pg w"
    and blank: "trim_space (dl_ID (jb_Delivery j)) \<noteq> []" "trim_space (dl_LeaseToken (jb_Delivery j)) \<noteq> []"
    and res: "r = snd (Deliver env d t u (job_request j))" and lim: "0 < ds_responseLimit d"
    and clock: "0 < t" "t \<le> u"
    and st: "\<forall>c. wr_StatusCode r = Some c \<longrightarrow> 100 \<le> c \<and> c \<le> 599"
    and tx: "pg_text pg (wr_ErrorMessage r)" "pg_text pg (wr_ResponseBody r)"
    and pol: "NewRetryPolicy base mx (Fin jit) = Inr (cf_RetryPolicy config)" "mx \<le> 2 ^ 61" "sample \<noteq> NaN"
      "k \<le> 51" "2 ^ k \<le> base" "jit \<le> 1 - pow2 (- int k)"
    and cir: "1 \<le> cf_CircuitThreshold config" "cf_CircuitThreshold config \<le> max_int32"
      "millisecond \<le> cf_CircuitCooldown config"
      "\<forall>e \<in> set (endpoints db1). er_consecutive_failures e < max_int32"
    and fresh: "pg_uuid pg (gen' 0) = Some a" "a \<notin> ar_id ` set (attempts db1)"
  shows "\<exists>db2 att d2. runWorker cvt config w [store_tick pg io gen now skipR skipC env d t u gen' now' sample] db =
      ([ObserveClaim ''claimed'', AddInFlight 1, ObserveAttempt (wr_Decision r) (wr_Duration r), AddInFlight (- 1)], db2, False) \<and>
    attempts db2 = attempts db1 @ [att] \<and> ar_delivery_id att = dl_ID (jb_Delivery j) \<and>
    ar_attempt_number att = dl_AttemptCount (jb_Delivery j) \<and> ar_status_code att = wr_StatusCode r \<and>
    ar_response_body att = wr_ResponseBody r \<and> ar_error_message att = wr_ErrorMessage r \<and>
    tfind dr_id (dl_ID (jb_Delivery j)) (deliveries db2) = Some d2 \<and> dr_status d2 \<noteq> StatusProcessing"
proof -
  let ?f = "finish_of cvt config w j r sample False"
  from can inv claim obtain d' where d': "d' \<in> set (deliveries db1)" "dr_id d' = dl_ID (jb_Delivery j)"
    "holds_lease (dl_ID (jb_Delivery j)) (trim_space w) (dl_LeaseToken (jb_Delivery j)) (dl_AttemptCount (jb_Delivery j)) d'"
    and ids: "pg_uuid pg (dl_ID (jb_Delivery j)) = Some (dl_ID (jb_Delivery j))"
      "pg_uuid pg (dl_LeaseToken (jb_Delivery j)) = Some (dl_LeaseToken (jb_Delivery j))"
    and n: "1 \<le> dl_AttemptCount (jb_Delivery j)" "dl_AttemptCount (jb_Delivery j) \<le> max_int32"
    and inv1: "store_inv pg db1"
    by (rule claimed_job_lease)
  have v: "validateAttemptResult ?f = None"
    by (rule finish_of_valid [OF res lim clock st blank n _ pol cir(1,3)]) (simp add: w)
  have sel: "rs_ErrorMessage ?f = wr_ErrorMessage r" "rs_ResponseBody ?f = wr_ResponseBody r"
    "rs_StatusCode ?f = wr_StatusCode r" "rs_CircuitOutcome ?f = CircuitFailure \<Longrightarrow> rs_CircuitThreshold ?f = cf_CircuitThreshold config"
    by (auto simp: finish_of_def Let_def)
  obtain s db2 where f: "FinishAttempt pg (\<lambda>_. Works) gen' now' ?f db1 = (Inr s, db2)"
    using finish_completes [where r = ?f and gen = gen', OF inv1 v refl mono d'(1) _ _ _ fresh] d'(3) ids w tx sel cir by force
  have x: "tfind dr_id (dl_ID (jb_Delivery j)) (deliveries db1) = Some d'"
    using tfind_key [OF rows_ok_dist d'(1)] inv1 d'(2) by (auto simp: store_inv_def)
  show ?thesis
    by (rule finished_round [OF inv1 claim _ _ ids(1) x]) (use res f in \<open>simp_all add: store_tick_def\<close>)
qed

definition sample_config :: Config where
  "sample_config =
     \<lparr>cf_Concurrency = 1, cf_PollInterval = second, cf_LeaseDuration = 10000000000, cf_FinishTimeout = second,
      cf_RetryPolicy = \<lparr>rp_base = second, rp_max = 300 * second, rp_jitter = Fin (1 / 4)\<rparr>,
      cf_CircuitThreshold = 5, cf_CircuitCooldown = 30 * second\<rparr>"

lemma sample_delivered:
  "snd (Deliver sample_env (NewDispatcher False 0) 3000000000 4000000000 (job_request
     \<lparr>jb_Delivery = scanDelivery sample_claimed_row, jb_Event = scan_event sample_ev_row,
      jb_Endpoint = scanEndpoint sample_ep_row\<rparr>)) =
   \<lparr>wr_Decision = DecisionSucceed, wr_StatusCode = Some 204, wr_ResponseBody = [], wr_ErrorMessage = [],
    wr_CircuitSignal = SignalSuccess, wr_Duration = second, wr_StartedAt = 3000000000, wr_CompletedAt = 4000000000\<rparr>"
proof -
  have "er_timeout_ms sample_ep_row = 5000"
    by (simp add: sample_ep_row_def new_endpoint_def sample_endpoint_def milliseconds_def sdiv_nonneg_eq_div)
  then show ?thesis
    by (simp add: Deliver_def sample_env_def job_request_def scanEndpoint_def NewDispatcher_def read_limited_def
        validText_def Evaluate_def circuitSignal_def time_sub_def Let_def)
qed

theorem worker_round_records_attempt_witness:
  "\<exists>db2 att d2. runWorker (\<lambda>_. 0) sample_config ''w1'' [store_tick sample_pg sample_io (sample_gen 0) 3000000000
      (\<lambda>_. False) (\<lambda>_. False) sample_env (NewDispatcher False 0) 3000000000 4000000000 (sample_gen 1) 4000000000 (Fin 0)]
      sample_enqueued =
      ([ObserveClaim ''claimed'', AddInFlight 1, ObserveAttempt DecisionSucceed second, AddInFlight (- 1)], db2, False) \<and>
    attempts db2 = [att] \<and> ar_attempt_number att = 1 \<and> ar_status_code att = Some 204 \<and>
    tfind dr_id ''dl'' (deliveries db2) = Some d2 \<and> dr_status d2 \<noteq> StatusProcessing"
proof -
  let ?j = "\<lparr>jb_Delivery = scanDelivery sample_claimed_row, jb_Event = scan_event sample_ev_row,
      jb_Endpoint = scanEndpoint sample_ep_row\<rparr>"
  let ?r = "snd (Deliver sample_env (NewDispatcher False 0) 3000000000 4000000000 (job_request ?j))"
  have claim: "ClaimDelivery sample_pg sample_io (sample_gen 0) 3000000000 (\<lambda>_. False) (\<lambda>_. False) ''w1''
      (cf_LeaseDuration sample_config) sample_enqueued = (Inr (Some ?j), sample_claimed)"
    using sample_claimed_eq(1) by (simp add: sample_config_def)
  have j: "dl_ID (jb_Delivery ?j) = ''dl''" "dl_LeaseToken (jb_Delivery ?j) = ''x''" "dl_AttemptCount (jb_Delivery ?j) = 1"
    by (simp_all add: scanDelivery_def)
  have empty: "pg_text sample_pg []" by (simp add: sample_text)
  have lim: "0 < ds_responseLimit (NewDispatcher False 0)" by (simp add: NewDispatcher_def)
  have pol: "NewRetryPolicy second (300 * second) (Fin (1 / 4)) = Inr (cf_RetryPolicy sample_config)"
    by (simp add: NewRetryPolicy_def sample_config_def)
  have "\<exists>db2 att d2. runWorker (\<lambda>_. 0) sample_config ''w1'' [store_tick sample_pg sample_io (sample_gen 0) 3000000000
      (\<lambda>_. False) (\<lambda>_. False) sample_env (NewDispatcher False 0) 3000000000 4000000000 (sample_gen 1) 4000000000 (Fin 0)]
      sample_enqueued =
      ([ObserveClaim ''claimed'', AddInFlight 1, ObserveAttempt (wr_Decision ?r) (wr_Duration ?r), AddInFlight (- 1)], db2, False) \<and>
    attempts db2 = attempts sample_claimed @ [att] \<and> ar_delivery_id att = dl_ID (jb_Delivery ?j) \<and>
    ar_attempt_number att = dl_AttemptCount (jb_Delivery ?j) \<and> ar_status_code att = wr_StatusCode ?r \<and>
    ar_response_body att = wr_ResponseBody ?r \<and> ar_error_message att = wr_ErrorMessage ?r \<and>
    tfind dr_id (dl_ID (jb_Delivery ?j)) (deliveries db2) = Some d2 \<and> dr_status d2 \<noteq> StatusProcessing"
    by (rule worker_round_records_attempt [OF canonical_sample sample_inv(2) mono_sample claim, where k = 1 and a = "''xy''", OF _ _ _ _ _ refl _ _ _ _ _ _ pol])
      (use j empty lim in \<open>simp_all add: sample_delivered sample_config_def pow2_def sample_claimed_eq(2) sample_gen_def\<close>)
  then show ?thesis
    unfolding sample_delivered j sample_claimed_eq(2) by (simp only: Result.simps db.simps append_Nil) blast
qed

end
