(* ===== verification/Endpoint_Secrets.thy ===== *)
theory Endpoint_Secrets
  imports Endpoint_Service Worker_Store
begin

text \<open>
  Endpoint creation, storage, the worker and the dispatcher together: what identifies an endpoint
  (its name, target, secret, timeout and budget) never changes, so the secret that creation
  returns to the caller is the one that signs every later request to that endpoint.
\<close>

section \<open>The identity of an endpoint is permanent\<close>

definition identity :: "endpoint_row \<Rightarrow> uuid \<times> string \<times> string \<times> bytes \<times> int \<times> int" where
  "identity e = (er_id e, er_name e, er_url e, er_secret_ciphertext e, er_timeout_ms e, er_max_attempts e)"

definition identities :: "db \<Rightarrow> (uuid \<times> string \<times> string \<times> bytes \<times> int \<times> int) set" where
  "identities db = identity ` set (endpoints db)"

lemma identity_rows [simp]:
  "identity (circuit_failure_row n c now e) = identity e" "identity (circuit_success_row now e) = identity e"
  "identity (disable_row now e) = identity e"
  by (simp_all add: identity_def circuit_failure_row_def circuit_success_row_def disable_row_def)

lemma identities_update:
  assumes "update_endpoint k f db = Some db'" and "\<And>e. identity (f e) = identity e"
  shows "identities db' = identities db"
proof -
  have "map identity (endpoints db') = map identity (endpoints db)"
    unfolding update_endpoint_eq [OF assms(1)] by (simp add: map_tupdate_frame assms(2))
  then show ?thesis unfolding identities_def by (metis set_map)
qed

lemma identities_circuit: "circuit_step pg now r k db db' \<Longrightarrow> identities db' = identities db"
  by (cases "rs_CircuitOutcome r")
    (auto simp: circuit_step_def circuit_failure_def circuit_success_def
      split: option.splits if_splits dest!: identities_update)

lemma identities_finish:
  assumes "finish_body pg io gen now r db = Inr (st, db')"
  shows "identities db' = identities db"
proof -
  from assms obtain k tok d db1 db2 where k: "pg_uuid pg (rs_DeliveryID r) = Some k"
    and "pg_uuid pg (rs_LeaseToken r) = Some tok"
    and "find (holds_lease k (rs_WorkerID r) tok (rs_AttemptNumber r)) (deliveries db) = Some d"
    and u: "update_delivery k (finish_row pg now r) db = Some db1"
    and i: "insert_result pg (gen 0) r db1 = Some db2"
    and c: "circuit_step pg now r (dr_endpoint_id d) db2 db'"
    by (rule finish_bodyE)
  have "endpoints db2 = endpoints db1" using insert_resultE [OF i k] insert_attempt_frame by metis
  then show ?thesis using identities_circuit [OF c] update_delivery_frame [OF u] by (simp add: identities_def)
qed

lemma identities_step:
  assumes can: "canonical_uuid pg" and inv: "store_inv pg db" and step: "store_step pg db db'"
  shows "identities db \<subseteq> identities db'"
proof -
  have ok: "rows_ok pg {} db" using inv by (simp add: store_inv_def)
  from step show ?thesis
  proof (cases rule: store_step_bodies)
    case (claim io gen now skipR skipC w lease j)
    from claim(1) obtain n db1 row where r: "recoverExpiredLeases pg io gen now skipR db = Inr (n, db1)"
      and q: "claim_query pg w (gen n) (milliseconds lease) now skipC db1 = Some (row, db')"
      by (rule claim_bodyE)
    note rec = recoverExpiredLeases_ok [OF ok r]
    show ?thesis using rec rows_ok_claim [OF can rec(1) q] by (simp add: identities_def)
  next
    case (finish io gen now r st)
    then show ?thesis using identities_finish by simp
  next
    case (enqueue io now p q)
    then have "endpoints db' = endpoints db"
      by (auto elim!: enqueue_bodyE upsert_eventE upsert_deliveryE dest!: insert_event_frame insert_delivery_frame)
    then show ?thesis by (simp add: identities_def)
  next
    case (replay io now i x)
    then have "endpoints db' = endpoints db" by (auto elim!: replay_bodyE dest!: update_delivery_frame)
    then show ?thesis by (simp add: identities_def)
  next
    case (create now ep x)
    then show ?thesis
      by (auto simp: create_query_def insert_endpoint_def identities_def Let_def split: option.splits if_splits)
  next
    case (disable now i x)
    then show ?thesis
      by (auto simp: disable_query_def split: option.splits dest!: identities_update)
  next
    case rows_move
    then show ?thesis by (simp add: identities_def reorder_sets)
  qed simp
qed

interpretation endpoint_identity: history_system
  fresh_store "store_step pg" "\<lambda>db. canonical_uuid pg \<longrightarrow> store_inv pg db"
  "\<lambda>db db'. canonical_uuid pg \<longrightarrow> identities db \<subseteq> identities db'" for pg
  by unfold_locales (auto dest: identities_step)

section \<open>The secret of an endpoint\<close>

lemma Create_store_row:
  assumes "Create env options rnd encrypt newid (CreateEndpoint pg io now) input db = (Inr c, db1)"
    and "pg_uuid pg newid = Some newid"
  obtains secretBytes e where "rnd 32 = Inr secretBytes" and "cr_Secret c = raw_url_encode secretBytes"
    and "encrypt (cr_Secret c) (SecretContext newid) = Inr (er_secret_ciphertext e)"
    and "e \<in> set (endpoints db1)" and "er_id e = newid" and "check_endpoint e" and "cr_Endpoint c = scanEndpoint e"
proof (cases rule: Create_cases [of env options rnd encrypt newid "CreateEndpoint pg io now" input db])
  case (refused err)
  then show ?thesis using assms(1) by simp
next
  case (called target b ct timeout m)
  let ?v = "endpoint_value newid (trim_space (ci_Name input)) target ct timeout m"
  from assms(1) have r: "CreateEndpoint pg io now ?v db = (Inr (cr_Endpoint c), db1)"
    and s: "cr_Secret c = raw_url_encode b"
    unfolding called(10) by (auto split: prod.splits sum.splits)
  then have q: "create_query pg now ?v db = Some (cr_Endpoint c, db1)"
    by (auto simp: CreateEndpoint_def run_auto_def split: option.splits call.splits)
  show ?thesis
    by (rule that [of b "new_endpoint newid ?v now"])
      (use called q s assms(2) in \<open>auto simp: create_query_def insert_endpoint_def endpoint_value_def new_endpoint_def
        Let_def split: if_splits\<close>)
qed

lemma identity_in_run:
  assumes can: "canonical_uuid pg" and inv: "store_inv pg db" and run: "(store_step pg)\<^sup>*\<^sup>* db db'"
    and e: "e \<in> set (endpoints db)" and e': "tfind er_id (er_id e) (endpoints db') = Some e'"
  shows "identity e' = identity e"
proof -
  have "identity e \<in> identities db'"
    using endpoint_identity.steps_later [OF run] can inv e by (auto simp: identities_def)
  then obtain x where x: "x \<in> set (endpoints db')" "identity x = identity e" by (auto simp: identities_def)
  then have "er_id x = er_id e" by (simp add: identity_def)
  moreover have "store_inv pg db'" using store.steps_inv [OF run] can inv by blast
  ultimately have "tfind er_id (er_id e) (endpoints db') = Some x"
    using x(1) tfind_key [of er_id "endpoints db'" x] by (simp add: store_inv_def rows_ok_def schema_ok_def)
  then show ?thesis using e' x(2) by simp
qed

text \<open>C15. End to end: the secret that creating an endpoint returns to its caller is the key of the
  signature on every request that is later sent to that endpoint, whatever happened to the store
  in between; the request goes to the normalised URL of the endpoint and carries the event's payload,
  and no delivery of the endpoint fails because its secret cannot be read. (The cipher has its
  documented behaviour, and identifiers of the service are canonical.)\<close>

theorem created_secret_signs_deliveries:
  assumes can: "canonical_uuid pg" and inv: "store_inv pg db" and sound: "aead_ok (bx_aead b)"
    and rnd: "full_reads rnd'" and newid: "pg_uuid pg newid = Some newid"
    and created: "Create env options rnd (Encrypt b rnd') newid (CreateEndpoint pg io now) input db = (Inr c, db1)"
    and run: "(store_step pg)\<^sup>*\<^sup>* db1 db2"
    and claim: "ClaimDelivery pg io' gen now' skipR skipC w lease db2 = (Inr (Some j), db3)"
    and ep: "ep_ID (jb_Endpoint j) = newid"
    and web: "we_decrypt web = Decrypt b" "we_scheme web (ep_URL (cr_Endpoint c)) = Inr ''https''"
  shows "\<exists>req. fst (Deliver web d t u (job_request j)) = [req] \<and>
    hq_url req = ep_URL (cr_Endpoint c) \<and> hq_body req = ev_Payload (jb_Event j) \<and>
    map_of (hq_header req) ''X-RelayForge-Signature'' =
      Some (Sign (we_hmac web) (cr_Secret c) (unix_seconds t) (dl_ID (jb_Delivery j)) (ev_Payload (jb_Event j)))"
proof -
  from created newid obtain sb e where "rnd 32 = Inr sb" and "cr_Secret c = raw_url_encode sb"
    and enc: "Encrypt b rnd' (cr_Secret c) (SecretContext newid) = Inr (er_secret_ciphertext e)"
    and e: "e \<in> set (endpoints db1)" "er_id e = newid" "check_endpoint e" "cr_Endpoint c = scanEndpoint e"
    by (rule Create_store_row)
  have step: "store_step pg db db1"
    using created by (cases rule: Create_cases [of env options rnd "Encrypt b rnd'" newid "CreateEndpoint pg io now" input db])
      (auto split: prod.splits sum.splits intro: store_step.create)
  have inv1: "store_inv pg db1" by (rule store_inv_step [OF can inv step])
  have inv2: "store_inv pg db2" using store.steps_inv [OF run] can inv1 by blast
  from claimed_endpoint_open [OF inv2 claim] obtain e' where
    e': "tfind er_id newid (endpoints db2) = Some e'" "jb_Endpoint j = scanEndpoint e'" using ep by metis
  have same: "identity e' = identity e" using identity_in_run [OF can inv1 run e(1)] e(2) e'(1) by simp
  have dec: "we_decrypt web (er_secret_ciphertext e) (SecretContext newid) = Inr (cr_Secret c)"
    using box.opens [OF sound rnd enc] web(1) by simp
  have "0 < wrap64 (er_timeout_ms e * millisecond)" using e(3) by (simp add: check_endpoint_def)
  then show ?thesis
    using same dec e e' web(2)
    by (simp add: Deliver_def job_request_def scanEndpoint_def identity_def webhook_request_def Let_def)
qed

text \<open>The endpoint of the sample run, created through the service.\<close>

abbreviation sample_options :: Options where
  "sample_options \<equiv> \<lparr>op_AllowHTTP = False, op_AllowPrivateTargets = False\<rparr>"

definition orders_urls :: url_env where
  "orders_urls = sample_urls\<lparr>ue_string := (\<lambda>_. ''https://example.com/hook'')\<rparr>"

definition orders_input :: CreateInput where
  "orders_input = \<lparr>ci_Name = ''orders'', ci_URL = ''https://example.com/hook'', ci_Timeout = 0, ci_MaxAttempts = 3\<rparr>"

definition sample_nonce :: random where
  "sample_nonce = (\<lambda>n. if n = 2 then Inr ''xy'' else Inl (ErrNew []))"

abbreviation sample_box :: Box where
  "sample_box \<equiv> \<lparr>bx_aead = plain_aead\<rparr>"

lemma orders_create:
  obtains c where "Create orders_urls sample_options (\<lambda>_. Inr ''abc'') (Encrypt sample_box sample_nonce) ''ep''
      (CreateEndpoint sample_pg sample_io second) orders_input empty_db = (Inr c, sample_created)"
    and "cr_Secret c = ''YWJj''" and "cr_Endpoint c = scanEndpoint sample_ep_row"
proof -
  have name: "trim_space ''orders'' = ''orders''" "rune_count ''orders'' = 6"
    by (simp_all add: trim_space_graphic graphic_def code_def rune_count_def decode_rune.simps)
  have target: "normalizeTarget orders_urls sample_options (ci_URL orders_input) = Inr ''https://example.com/hook''"
    by (simp add: normalizeTarget_def orders_urls_def sample_urls_def sample_url_def Hostname_def Port_def split_port_def
        last_index_byte_def code_def trim_suffix_def has_suffix_def isPrivateHost_def parse_ip_def JoinHostPort_def Let_def)
  have secret: "raw_url_encode ''abc'' = ''YWJj''"
    by (simp add: raw_url_encode_def code_def url_alphabet_def)
  have enc: "Encrypt sample_box sample_nonce ''YWJj'' d = Inr (CHR 0x01 # ''xyYWJjt'')" for d
    by (simp add: Encrypt_def sample_nonce_def plain_aead_def envelopeVersion_def)
  have ep: "endpoint_value ''ep'' ''orders'' ''https://example.com/hook'' (CHR 0x01 # ''xyYWJjt'') 5000000000 3 =
      sample_endpoint"
    by (simp add: endpoint_value_def sample_endpoint_def)
  show thesis
    by (rule that [of "\<lparr>cr_Endpoint = scanEndpoint sample_ep_row, cr_Secret = ''YWJj''\<rparr>"])
      (use name target secret enc ep sample_created_eq(1) in
        \<open>simp_all add: Create_def orders_input_def ValidateMaxAttempts_def Let_def\<close>)
qed

theorem created_secret_signs_deliveries_witness:
  "\<exists>req. fst (Deliver (sample_env\<lparr>we_decrypt := Decrypt sample_box\<rparr>) (NewDispatcher False 0) 5000000000 6000000000
      (job_request \<lparr>jb_Delivery = scanDelivery sample_claimed_row, jb_Event = scan_event sample_ev_row,
         jb_Endpoint = scanEndpoint sample_ep_row\<rparr>)) = [req] \<and>
    map_of (hq_header req) ''X-RelayForge-Signature'' =
      Some (Sign (we_hmac sample_env) ''YWJj'' (unix_seconds 5000000000) ''dl'' ''{}'')"
proof -
  obtain c where c: "Create orders_urls sample_options (\<lambda>_. Inr ''abc'') (Encrypt sample_box sample_nonce) ''ep''
      (CreateEndpoint sample_pg sample_io second) orders_input empty_db = (Inr c, sample_created)"
    "cr_Secret c = ''YWJj''" "cr_Endpoint c = scanEndpoint sample_ep_row"
    by (rule orders_create)
  have run: "(store_step sample_pg)\<^sup>*\<^sup>* sample_created sample_enqueued" using sample_steps(2) by blast
  have reads: "full_reads sample_nonce" by (simp add: full_reads_def sample_nonce_def)
  let ?j = "\<lparr>jb_Delivery = scanDelivery sample_claimed_row, jb_Event = scan_event sample_ev_row,
         jb_Endpoint = scanEndpoint sample_ep_row\<rparr>"
  have "ep_ID (jb_Endpoint ?j) = ''ep''" "dl_ID (jb_Delivery ?j) = ''dl''" "ev_Payload (jb_Event ?j) = ''{}''"
    by (simp_all add: scanEndpoint_def scanDelivery_def scan_event_def sample_ev_row_def)
  with created_secret_signs_deliveries [where b = sample_box and web = "sample_env\<lparr>we_decrypt := Decrypt sample_box\<rparr>",
      OF canonical_sample store_inv_empty _ reads _ c(1) run sample_claimed_eq(1), of "NewDispatcher False 0" 5000000000 6000000000]
  show ?thesis using c(2) aead_ok_plain by (auto simp: sample_env_def)
qed

end
