(* ===== verification/Store_Properties.thy ===== *)
theory Store_Properties
  imports Scenario
begin

text \<open>
  Ingestion, replay, listing and statistics: \<^verbatim>\<open>events.go\<close>, \<^verbatim>\<open>deliveries.go\<close>, \<^verbatim>\<open>endpoints.go\<close> and
  \<^verbatim>\<open>stats.go\<close>. The main results are that publishing is idempotent under its key and that only a
  dead delivery can be replayed, which makes it claimable again.
\<close>

section \<open>Idempotent publishing\<close>

lemma enqueue_body_ok:
  assumes io: "io = (\<lambda>_. Works)" and k: "pg_uuid pg (pm_EndpointID p) = Some k"
    and e: "tfind er_id k (endpoints db) = Some e" "er_disabled_at e = None"
    and ue: "upsert_event pg now p db = Some ((v, m), db1)"
  shows "enqueue_body pg io now p db =
    (if m then bind_ok (stmt io ''upsert delivery''
        (upsert_delivery pg now (pm_DeliveryID p) (vr_id v) (pm_EndpointID p) (er_max_attempts e) db1))
        (\<lambda>(d, db2). Inr (\<lparr>nq_Event = scan_event v, nq_Delivery = scanDelivery d,
          nq_Duplicate = (vr_id v \<noteq> pm_EventID p)\<rparr>, db2))
     else Inl (ErrVar EventErrIdempotencyConflict))"
  using assms by (simp add: enqueue_body_def stmt_def)

lemma upsert_event_again:
  assumes "pg_uuid pg (pm_EventID p) = Some i" and "pg_uuid pg (pm_EndpointID p) = Some k"
    and "pg_jsonb pg (pm_Payload p) = Some doc" and "pg_text pg (pm_Type p)" and "pg_text pg (pm_IdempotencyKey p)"
    and "tfind event_key (k, pm_IdempotencyKey p) (events db) = Some v"
  shows "upsert_event pg now p db = Some ((v, vr_event_type v = pm_Type p \<and> vr_payload v = doc), db)"
  using assms by (simp add: upsert_event_def)

text \<open>What publishing leaves behind: the event under its key, and its delivery.\<close>

lemma enqueue_body_result:
  assumes "store_inv pg db" and "enqueue_body pg io now p db = Inr (q, db')" and can: "canonical_uuid pg"
  obtains k doc v d where "pg_uuid pg (pm_EndpointID p) = Some k" and "pg_jsonb pg (pm_Payload p) = Some doc"
    and "v \<in> set (events db')" and "event_key v = (k, pm_IdempotencyKey p)"
    and "vr_event_type v = pm_Type p" and "vr_payload v = doc"
    and "d \<in> set (deliveries db')" and "dr_event_id d = vr_id v"
    and "nq_Event q = scan_event v" and "nq_Delivery q = scanDelivery d"
    and "nq_Duplicate q \<longleftrightarrow> vr_id v \<noteq> pm_EventID p"
    and "pg_text pg (pm_Type p)" and "pg_text pg (pm_IdempotencyKey p)"
proof -
  from assms(2) obtain k e v d db1 where k: "pg_uuid pg (pm_EndpointID p) = Some k"
    and "tfind er_id k (endpoints db) = Some e" and "er_disabled_at e = None"
    and ue: "upsert_event pg now p db = Some ((v, True), db1)"
    and ud: "upsert_delivery pg now (pm_DeliveryID p) (vr_id v) (pm_EndpointID p) (er_max_attempts e) db1 = Some (d, db')"
    and q: "q = \<lparr>nq_Event = scan_event v, nq_Delivery = scanDelivery d, nq_Duplicate = (vr_id v \<noteq> pm_EventID p)\<rparr>"
    by (rule enqueue_bodyE)
  from ue obtain doc where doc: "pg_jsonb pg (pm_Payload p) = Some doc"
    and tx: "pg_text pg (pm_Type p)" "pg_text pg (pm_IdempotencyKey p)" by (rule upsert_event_SomeD)
  have v: "v \<in> set (events db1)" "event_key v = (k, pm_IdempotencyKey p)" "vr_event_type v = pm_Type p"
    "vr_payload v = doc" "pg_uuid pg (vr_id v) = Some (vr_id v)"
    using ue
    by (cases rule: upsert_eventE; use k doc assms(1) can in \<open>auto simp: event_key_def store_inv_def rows_ok_def ids_ok_def
      canonical_uuid_def dest!: tfind_SomeD insert_event_frame\<close>)+
  have d: "d \<in> set (deliveries db') \<and> dr_event_id d = vr_id v \<and> events db' = events db1"
    using ud
    by (cases rule: upsert_deliveryE; use v(5) in \<open>auto simp: new_delivery_def dest!: tfind_SomeD insert_delivery_frame\<close>)
  show ?thesis by (rule that [OF k doc]) (use v d q tx in auto)
qed

text \<open>The second call finds the event under its key and the delivery of the event.\<close>

lemma enqueued_event_stays:
  assumes "canonical_uuid pg" and "store_inv pg db" and "EnqueueEvent pg io now p db = (Inr q, db1)"
    and "(store_step pg)\<^sup>*\<^sup>* db1 db2"
  shows "\<exists>v \<in> set (events db2). nq_Event q = scan_event v"
proof -
  have body: "enqueue_body pg io now p db = Inr (q, db1)"
    using run_tx_InrE(1) [OF assms(3) [unfolded EnqueueEvent_def]] .
  from assms(2) body assms(1) obtain v where v: "v \<in> set (events db1)" "nq_Event q = scan_event v"
    by (rule enqueue_body_result)
  have "store_inv pg db1" by (rule store_inv_enqueue_body [OF assms(1,2) body])
  then have "grows db1 db2" using records.steps_later [OF assms(4)] assms(1) by simp
  with v show ?thesis by (auto simp: grows_def)
qed

lemma enqueue_again:
  assumes can: "canonical_uuid pg" and inv: "store_inv pg db"
    and first: "EnqueueEvent pg io now p db = (Inr q, db1)" and run: "(store_step pg)\<^sup>*\<^sup>* db1 db2"
    and same: "pm_EndpointID p' = pm_EndpointID p" "pm_IdempotencyKey p' = pm_IdempotencyKey p"
      "pm_Type p' = pm_Type p" "pg_jsonb pg (pm_Payload p') = pg_jsonb pg (pm_Payload p)"
    and ids: "pg_uuid pg (pm_EventID p') \<noteq> None" "pg_uuid pg (pm_DeliveryID p') \<noteq> None"
      "pm_EventID p' \<noteq> ev_ID (nq_Event q)"
    and enabled: "\<forall>e \<in> set (endpoints db2). er_id e = ev_EndpointID (nq_Event q) \<longrightarrow> er_disabled_at e = None"
  shows "\<exists>q'. EnqueueEvent pg (\<lambda>_. Works) now' p' db2 = (Inr q', db2) \<and> nq_Duplicate q' \<and>
    nq_Event q' = nq_Event q \<and> dl_ID (nq_Delivery q') = dl_ID (nq_Delivery q)"
proof -
  have body: "enqueue_body pg io now p db = Inr (q, db1)"
    using run_tx_InrE(1) [OF first [unfolded EnqueueEvent_def]] .
  from inv body can obtain k doc v d where k: "pg_uuid pg (pm_EndpointID p) = Some k"
    and doc: "pg_jsonb pg (pm_Payload p) = Some doc" and v: "v \<in> set (events db1)"
      "event_key v = (k, pm_IdempotencyKey p)" "vr_event_type v = pm_Type p" "vr_payload v = doc"
    and d: "d \<in> set (deliveries db1)" "dr_event_id d = vr_id v"
    and q: "nq_Event q = scan_event v" "nq_Delivery q = scanDelivery d" "nq_Duplicate q \<longleftrightarrow> vr_id v \<noteq> pm_EventID p"
    and tx: "pg_text pg (pm_Type p)" "pg_text pg (pm_IdempotencyKey p)"
    by (rule enqueue_body_result)
  have inv1: "store_inv pg db1" by (rule store_inv_enqueue_body [OF can inv body])
  then have inv2: "store_inv pg db2" using store.steps_inv [OF run] can by simp
  then have sch: "schema_ok db2" by (simp add: store_inv_def rows_ok_def)
  have gr: "grows db1 db2" using records.steps_later [OF run] can inv1 by simp
  have v2: "v \<in> set (events db2)" using gr v(1) by (auto simp: grows_def)
  have tv: "tfind event_key (k, pm_IdempotencyKey p') (events db2) = Some v"
    using tfind_key [of event_key "events db2" v] v2 v(2) same(2) sch by (simp add: schema_ok_def)
  obtain d2 where d2: "d2 \<in> set (deliveries db2)" "dr_id d2 = dr_id d" "dr_event_id d2 = vr_id v"
    using gr d by (force simp: grows_def delivery_keys_def)
  have td: "tfind dr_event_id (vr_id v) (deliveries db2) = Some d2"
    using tfind_key [of dr_event_id "deliveries db2" d2] d2 sch by (simp add: schema_ok_def)
  have ep: "vr_endpoint_id v = k" using v(2) by (simp add: event_key_def)
  then have "k \<in> er_id ` set (endpoints db2)" using sch v2 by (auto simp: schema_ok_def list_all_iff)
  then obtain e where e: "tfind er_id k (endpoints db2) = Some e"
    using tfind_None_iff [of er_id k "endpoints db2"] by fastforce
  have en: "er_disabled_at e = None"
    using enabled tfind_SomeD [OF e] q(1) ep by (simp add: scan_event_def)
  obtain i j where i: "pg_uuid pg (pm_EventID p') = Some i" "pg_uuid pg (pm_DeliveryID p') = Some j"
    using ids by auto
  have vid: "pg_uuid pg (vr_id v) = Some (vr_id v)"
    using inv2 v2 by (auto simp: store_inv_def rows_ok_def ids_ok_def)
  have "upsert_event pg now' p' db2 = Some ((v, True), db2)"
    using upsert_event_again [OF i(1) _ _ _ _ tv, of doc] k doc tx same v by simp
  moreover have "upsert_delivery pg now' (pm_DeliveryID p') (vr_id v) (pm_EndpointID p') (er_max_attempts e) db2 =
      Some (d2, db2)"
    using i(2) vid k same(1) td by (simp add: upsert_delivery_def)
  ultimately have "enqueue_body pg (\<lambda>_. Works) now' p' db2 = Inr (\<lparr>nq_Event = scan_event v,
      nq_Delivery = scanDelivery d2, nq_Duplicate = (vr_id v \<noteq> pm_EventID p')\<rparr>, db2)"
    using enqueue_body_ok [OF refl _ e en] k same(1) by (simp add: stmt_def)
  then show ?thesis
    using q d2 ids(3) by (auto simp: EnqueueEvent_def run_tx_ok scanDelivery_def scan_event_def)
qed

text \<open>Publishing is idempotent: after a successful publish, and whatever happened since (claims,
  attempts, other events), publishing again with the same endpoint, key, type and payload returns
  the same event and the same delivery, marked as a duplicate, and changes nothing, as long as the
  endpoint is enabled.\<close>

theorem EnqueueEvent_idempotent:
  assumes can: "canonical_uuid pg" and inv: "store_inv pg db"
    and first: "EnqueueEvent pg io now p db = (Inr q, db1)" and run: "(store_step pg)\<^sup>*\<^sup>* db1 db2"
    and same: "pm_EndpointID p' = pm_EndpointID p" "pm_IdempotencyKey p' = pm_IdempotencyKey p"
      "pm_Type p' = pm_Type p" "pg_jsonb pg (pm_Payload p') = pg_jsonb pg (pm_Payload p)"
    and ids: "pg_uuid pg (pm_EventID p') \<noteq> None" "pg_uuid pg (pm_DeliveryID p') \<noteq> None"
      "pm_EventID p' \<noteq> ev_ID (nq_Event q)"
    and enabled: "\<forall>e \<in> set (endpoints db2). er_id e = ev_EndpointID (nq_Event q) \<longrightarrow> er_disabled_at e = None"
  shows "\<exists>q'. EnqueueEvent pg (\<lambda>_. Works) now' p' db2 = (Inr q', db2) \<and> nq_Duplicate q' \<and>
    nq_Event q' = nq_Event q \<and> dl_ID (nq_Delivery q') = dl_ID (nq_Delivery q)"
  by (rule enqueue_again [OF assms])

definition sample_retry_params :: EnqueueParams where
  "sample_retry_params = sample_params\<lparr>pm_EventID := ''ev2'', pm_DeliveryID := ''dl2''\<rparr>"

lemma sample_enqueue_call:
  obtains q where "EnqueueEvent sample_pg sample_io 2000000000 sample_params sample_created = (Inr q, sample_enqueued)"
    and "ev_ID (nq_Event q) = ''ev''" and "ev_EndpointID (nq_Event q) = ''ep''" and "dl_ID (nq_Delivery q) = ''dl''"
  by (simp add: sample_enqueued_def EnqueueEvent_def run_tx_def enqueue_body_def sample_params_def
      sample_created_eq(2) empty_db_def tfind_Cons upsert_event_def Let_def insert_event_def event_key_def
      upsert_delivery_def insert_delivery_def sample_dl_row_def sample_ev_row_def check_delivery_def
      new_delivery_def scan_event_def scanDelivery_def)

theorem EnqueueEvent_idempotent_witness:
  "\<exists>q'. EnqueueEvent sample_pg (\<lambda>_. Works) 9000000000 sample_retry_params sample_failed = (Inr q', sample_failed) \<and>
    nq_Duplicate q' \<and> ev_ID (nq_Event q') = ''ev'' \<and> dl_ID (nq_Delivery q') = ''dl''"
proof -
  obtain q where q: "EnqueueEvent sample_pg sample_io 2000000000 sample_params sample_created = (Inr q, sample_enqueued)"
    "ev_ID (nq_Event q) = ''ev''" "ev_EndpointID (nq_Event q) = ''ep''" "dl_ID (nq_Delivery q) = ''dl''"
    by (rule sample_enqueue_call)
  have run: "(store_step sample_pg)\<^sup>*\<^sup>* sample_enqueued sample_failed"
    using sample_steps(3,4) by (meson rtranclp.simps)
  have "\<forall>e \<in> set (endpoints sample_failed). er_id e = ev_EndpointID (nq_Event q) \<longrightarrow> er_disabled_at e = None"
    by (simp add: sample_failed_eq(2) sample_failed_ep_row_def circuit_failure_row_def)
  from EnqueueEvent_idempotent [OF canonical_sample sample_inv(1) q(1) run _ _ _ _ _ _ _ this,
      of sample_retry_params 9000000000] q
  show ?thesis by (auto simp: sample_retry_params_def)
qed



section \<open>Replay\<close>

lemma ReplayDelivery_body:
  "ReplayDelivery pg io now i db = (Inr x, db') \<Longrightarrow> replay_body pg io now i db = Inr (x, db')"
  unfolding ReplayDelivery_def by (rule run_tx_InrE(1))

text \<open>C33. Replaying: only a dead delivery of an enabled endpoint is replayed; it becomes pending and
  due at once, its budget grows by the endpoint's maximum without leaving the 32-bit range, so
  that at least one more attempt fits, and its counter and its log stay.\<close>

theorem ReplayDelivery_revives:
  assumes inv: "store_inv pg db" and r: "ReplayDelivery pg io now i db = (Inr x, db')"
  shows "\<exists>k d d' e. pg_uuid pg i = Some k \<and> tfind dr_id k (deliveries db) = Some d \<and> dr_status d = StatusDead \<and>
    e \<in> set (endpoints db) \<and> er_id e = dr_endpoint_id d \<and> er_disabled_at e = None \<and>
    tfind dr_id k (deliveries db') = Some d' \<and> x = scanDelivery d' \<and>
    dr_status d' = StatusPending \<and> dr_next_attempt_at d' = now \<and>
    dr_attempt_count d' = dr_attempt_count d \<and> dr_max_attempts d' = dr_max_attempts d + er_max_attempts e \<and>
    dr_attempt_count d' < dr_max_attempts d' \<and> dr_max_attempts d' \<le> max_int32 \<and>
    attempts db' = attempts db \<and> events db' = events db \<and>
    (\<forall>j. j \<noteq> k \<longrightarrow> tfind dr_id j (deliveries db') = tfind dr_id j (deliveries db))"
proof -
  from ReplayDelivery_body [OF r] obtain k d e where k: "pg_uuid pg i = Some k"
    and d: "tfind dr_id k (deliveries db) = Some d" and e: "tfind er_id (dr_endpoint_id d) (endpoints db) = Some e"
    and en: "er_disabled_at e = None" and dead: "dr_status d = StatusDead"
    and lim: "dr_max_attempts d \<le> max_int32 - er_max_attempts e"
    and u: "update_delivery k (replay_row (dr_max_attempts d + er_max_attempts e) now) db = Some db'"
    and x: "x = scanDelivery (replay_row (dr_max_attempts d + er_max_attempts e) now d)"
    by (rule replay_bodyE)
  have ok: "rows_ok pg {} db" using inv by (simp add: store_inv_def)
  have cd: "check_delivery d" and ce: "check_endpoint e"
    using ok tfind_SomeD [OF d] tfind_SomeD [OF e] by (auto simp: rows_ok_def schema_ok_def list_all_iff)
  note tf = tfind_update_delivery [OF u] update_delivery_frame [OF u]
  show ?thesis
    by (intro exI [of _ k] exI [of _ d] exI [of _ "replay_row (dr_max_attempts d + er_max_attempts e) now d"] exI [of _ e])
      (use k d e en dead lim x tf cd ce tfind_SomeD [OF e] in
        \<open>auto simp: replay_row_def check_delivery_def check_endpoint_def\<close>)
qed

theorem ReplayDelivery_revives_witness:
  "\<exists>d'. tfind dr_id ''dl'' (deliveries sample_replayed) = Some d' \<and> dr_status d' = StatusPending \<and>
    dr_max_attempts d' = 6"
proof -
  obtain x where r: "ReplayDelivery sample_pg sample_io 9000000000 ''dl'' sample_dead = (Inr x, sample_replayed)"
    using sample_replayed_eq by blast
  from ReplayDelivery_revives [OF sample_inv_dead r] show ?thesis
    by (auto simp: sample_dead_eq(2) sample_claimed_eq(2) tfind_Cons sample_dead_row_def split: if_splits)
qed

text \<open>A delivery that is not dead (in particular a delivered one, or one being processed) cannot
  be replayed: the call fails as not replayable, or as an unknown or disabled one, and changes
  nothing.\<close>

theorem ReplayDelivery_only_dead:
  assumes "store_inv pg db" and "pg_uuid pg i = Some k" and "tfind dr_id k (deliveries db) = Some d"
    and "dr_status d \<noteq> StatusDead"
  shows "ReplayDelivery pg (\<lambda>_. Works) now i db =
    (Inl (if \<exists>e \<in> set (endpoints db). er_id e = dr_endpoint_id d \<and> er_disabled_at e \<noteq> None
          then ErrVar DeliveryErrEndpointDisabled else ErrVar DeliveryErrNotReplayable), db)"
proof -
  have sch: "schema_ok db" using assms(1) by (simp add: store_inv_def rows_ok_def)
  have "dr_endpoint_id d \<in> er_id ` set (endpoints db)"
    using sch tfind_SomeD [OF assms(3)] by (auto simp: schema_ok_def list_all_iff)
  then obtain e where e: "tfind er_id (dr_endpoint_id d) (endpoints db) = Some e"
    using tfind_None_iff [of er_id "dr_endpoint_id d" "endpoints db"] by fastforce
  have uniq: "x = e" if "x \<in> set (endpoints db)" "er_id x = dr_endpoint_id d" for x
    using tfind_unique [OF _ e that] sch by (simp add: schema_ok_def)
  have "replay_body pg (\<lambda>_. Works) now i db = Inl (if er_disabled_at e \<noteq> None
      then ErrVar DeliveryErrEndpointDisabled else ErrVar DeliveryErrNotReplayable)"
    using assms e by (simp add: replay_body_def stmt_def)
  moreover have "(\<exists>x \<in> set (endpoints db). er_id x = dr_endpoint_id d \<and> er_disabled_at x \<noteq> None) \<longleftrightarrow>
      er_disabled_at e \<noteq> None"
    using uniq tfind_SomeD [OF e] by blast
  ultimately show ?thesis by (simp add: ReplayDelivery_def run_tx_body_error)
qed

theorem ReplayDelivery_only_dead_witness:
  "ReplayDelivery sample_pg (\<lambda>_. Works) 9000000000 ''dl'' sample_failed =
    (Inl (ErrVar DeliveryErrNotReplayable), sample_failed)"
proof -
  have "tfind dr_id ''dl'' (deliveries sample_failed) = Some sample_failed_row"
    by (simp add: sample_failed_eq(2) tfind_Cons sample_failed_row_def)
  with ReplayDelivery_only_dead [OF sample_inv(4), of "''dl''" "''dl''" sample_failed_row 9000000000]
  show ?thesis
    by (simp add: sample_failed_row_def sample_failed_eq(2) sample_failed_ep_row_def circuit_failure_row_def)
qed

section \<open>Statistics and listing\<close>

lemma count_rows_sum:
  assumes "\<And>d. d \<in> set ds \<Longrightarrow>
    dr_status d \<in> {StatusPending, StatusProcessing, StatusRetrying, StatusSucceeded, StatusDead}"
  shows "count_rows (\<lambda>d. dr_status d = StatusPending) ds + count_rows (\<lambda>d. dr_status d = StatusProcessing) ds +
    count_rows (\<lambda>d. dr_status d = StatusRetrying) ds + count_rows (\<lambda>d. dr_status d = StatusSucceeded) ds +
    count_rows (\<lambda>d. dr_status d = StatusDead) ds = int (length ds)"
  using assms by (induction ds) (auto simp: count_rows_def)

text \<open>The operational statistics account for every delivery exactly once: the five status counts
  of a reachable store add up to the number of deliveries, and no count is negative.\<close>

theorem GetOperationalStats_total:
  assumes "store_inv pg db" and "GetOperationalStats io now db = Inr s"
  shows "os_Pending s + os_Processing s + os_Retrying s + os_Succeeded s + os_Dead s =
      int (length (deliveries db)) \<and>
    0 \<le> os_OpenCircuits s \<and> os_OpenCircuits s \<le> int (length (endpoints db))"
proof -
  have "\<forall>d \<in> set (deliveries db). check_delivery d"
    using assms(1) by (auto simp: store_inv_def rows_ok_def schema_ok_def list_all_iff)
  then have "\<And>d. d \<in> set (deliveries db) \<Longrightarrow>
      dr_status d \<in> {StatusPending, StatusProcessing, StatusRetrying, StatusSucceeded, StatusDead}"
    unfolding check_delivery_def by blast
  from count_rows_sum [OF this] assms(2) show ?thesis
    by (auto simp: GetOperationalStats_def stmt_Inr_iff count_rows_def)
qed

theorem GetOperationalStats_total_witness:
  "\<exists>s. GetOperationalStats sample_io 5000000000 sample_failed = Inr s \<and> os_Retrying s = 1 \<and>
    os_Pending s + os_Processing s + os_Retrying s + os_Succeeded s + os_Dead s = 1"
proof -
  obtain s where s: "GetOperationalStats sample_io 5000000000 sample_failed = Inr s" "os_Retrying s = 1"
    by (simp add: GetOperationalStats_def count_rows_def sample_failed_eq(2) sample_failed_row_def)
  from GetOperationalStats_total [OF sample_inv(4) s(1)] s show ?thesis by (simp add: sample_failed_eq(2))
qed

text \<open>Listing returns the newest endpoints first: at most \<open>limit\<close> of them, ordered by creation
  time and identifier, and nothing left out is newer than anything listed.\<close>

theorem ListEndpoints_newest_first:
  assumes "ListEndpoints io limit db = Inr es"
  shows "\<exists>rows rest. es = map scanEndpoint rows \<and> mset (rows @ rest) = mset (endpoints db) \<and>
    length rows = min (nat limit) (length (endpoints db)) \<and> 0 \<le> limit \<and>
    sorted_wrt (\<lambda>a b. (er_created_at b, er_id b) \<le> (er_created_at a, er_id a)) (rows @ rest)"
proof -
  let ?key = "\<lambda>e. (er_created_at e, er_id e)"
  let ?all = "rev (sort_key ?key (endpoints db))"
  have lim: "0 \<le> limit" and es: "es = map scanEndpoint (take (nat limit) ?all)"
    using assms by (auto simp: ListEndpoints_def bind_ok_Inr_iff stmt_Inr_iff list_query_def split: if_splits)
  have "sorted_wrt (\<lambda>a b. ?key b \<le> ?key a) ?all"
    using sorted_sort_key [of ?key "endpoints db"] by (simp add: sorted_wrt_rev sorted_map)
  then show ?thesis
    using lim es by (intro exI [of _ "take (nat limit) ?all"] exI [of _ "drop (nat limit) ?all"]) (auto simp: min.commute)
qed

theorem ListEndpoints_newest_first_witness:
  "\<exists>rows rest. ListEndpoints sample_io 10 sample_created = Inr (map scanEndpoint rows) \<and>
    mset (rows @ rest) = mset (endpoints sample_created)"
proof -
  obtain es where "ListEndpoints sample_io 10 sample_created = Inr es"
    by (simp add: ListEndpoints_def list_query_def)
  with ListEndpoints_newest_first [OF this] show ?thesis by blast
qed

section \<open>Atomicity\<close>

definition clean_failure :: "db \<Rightarrow> (go_error, 'a) result \<times> db \<Rightarrow> bool" where
  "clean_failure db out \<longleftrightarrow> (case fst out of Inl e \<Rightarrow> snd out = db | Inr x \<Rightarrow> True)"

lemma clean_failure_same [simp]: "clean_failure db (r, db)"
  by (simp add: clean_failure_def split: sum.splits)

lemma clean_run_tx:
  "(\<And>l m. io l \<noteq> BreaksApplied m) \<Longrightarrow> clean_failure db (run_tx io beg com body db)"
  by (auto simp: clean_failure_def run_tx_def split: sum.splits call.splits)

lemma clean_run_auto:
  "(\<And>l m. io l \<noteq> BreaksApplied m) \<Longrightarrow> clean_failure db (run_auto io label q db)"
  by (auto simp: clean_failure_def run_auto_def split: option.splits call.splits)

lemma disable_unknown:
  "disable_query pg now i db = Some (None, db') \<Longrightarrow> db' = db"
  by (auto simp: disable_query_def update_endpoint_def split: option.splits)

lemma clean_disable:
  assumes "\<And>l m. io l \<noteq> BreaksApplied m"
  shows "clean_failure db (DisableEndpoint pg io now i db)"
proof -
  obtain r db' where r: "run_auto io ''disable endpoint'' (disable_query pg now i db) db = (r, db')"
    by (meson surj_pair)
  have "db' = db" if "r = Inr None"
    using r that disable_unknown by (auto simp: run_auto_def split: option.splits call.splits)
  then show ?thesis
    using clean_run_auto [where io = io, OF assms, of db "''disable endpoint''" "disable_query pg now i db"] r
    by (auto simp: DisableEndpoint_def clean_failure_def split: sum.splits option.splits)
qed



end
