(* ===== verification/Api_Store.thy ===== *)
theory Api_Store
  imports Api Endpoint_Secrets Store_Properties
begin

text \<open>
  The API server on the store: \<^verbatim>\<open>cmd/relayforge\<close> gives the services the store as their repository. What
  the server relies on is the locale \<open>api_services\<close>; it is interpreted on the services over the
  store, so that every request, authorised or not, makes a run of the store's step relation.
\<close>

section \<open>The contract of the services\<close>

locale api_services =
  fixes sv :: "'s Server" and moves :: "'s \<Rightarrow> 's \<Rightarrow> bool"
  assumes stays: "moves s s"
    and create_moves: "sv_create sv i s = (x, t) \<Longrightarrow> moves s t"
    and disable_moves: "sv_disable sv k s = (y, t) \<Longrightarrow> moves s t"
    and publish_moves: "sv_publish sv p s = (z, t) \<Longrightarrow> moves s t"
    and details_moves: "sv_details sv k s = (u, t) \<Longrightarrow> moves s t"
    and replay_moves: "sv_replay sv k s = (v, t) \<Longrightarrow> moves s t"
begin

lemma dispatch_moves: "dispatch sv je rt vs r s = (resp, t) \<Longrightarrow> moves s t"
  by (cases rt)
    (auto simp: dispatch_def createEndpoint_def disableEndpoint_def publishEvent_def getDelivery_def replayDelivery_def
      split: sum.splits prod.splits if_splits
      intro: stays create_moves disable_moves publish_moves details_moves replay_moves)

lemma serve_moves: "serve sv je ps r s = (m, resp, t) \<Longrightarrow> moves s t"
  by (auto simp: serve_def stays dest: dispatch_moves split: option.splits)

lemma Handler_moves:
  assumes "Handler sv je r s = (obs, resp, t)"
  shows "moves s t"
proof -
  have "\<exists>m resp. authenticate sv je r s = (m, resp, t) \<or> serve sv je (public_patterns sv) r s = (m, resp, t)"
    using assms by (auto simp: Handler_unfold split: prod.splits if_splits)
  then show ?thesis by (auto simp: authenticate_def stays dest: serve_moves split: if_splits)
qed

end

section \<open>The services on the store\<close>

text \<open>What one request meets outside the repository: the identifiers and the randomness it draws, the clock
  of the database and the behaviour of the driver.\<close>

record request_env =
  qe_url :: url_env
  qe_uuid_ok :: "string \<Rightarrow> bool"
  qe_endpoint_id :: string
  qe_event_id :: string
  qe_delivery_id :: string
  qe_secret :: random
  qe_nonce :: random
  qe_io :: io
  qe_now :: time

definition store_server :: "pg \<Rightarrow> Box \<Rightarrow> Options \<Rightarrow> string \<Rightarrow> Info \<Rightarrow> time \<Rightarrow> request_env \<Rightarrow> db Server" where
  "store_server pg b options apiKey info startedAt q =
     \<lparr>sv_apiKey = apiKey,
      sv_create = Create (qe_url q) options (qe_secret q) (Encrypt b (qe_nonce q)) (qe_endpoint_id q)
        (CreateEndpoint pg (qe_io q) (qe_now q)),
      sv_list = Endpoint_List (ListEndpoints (qe_io q)),
      sv_get = Endpoint_Get (qe_uuid_ok q) (GetEndpoint pg (qe_io q)),
      sv_disable = Endpoint_Disable (qe_uuid_ok q) (DisableEndpoint pg (qe_io q) (qe_now q)),
      sv_publish = Publish (qe_uuid_ok q) (qe_event_id q) (qe_delivery_id q) (EnqueueEvent pg (qe_io q) (qe_now q)),
      sv_details = Delivery_Get (qe_uuid_ok q) (GetDelivery pg (qe_io q)),
      sv_replay = Delivery_Replay (qe_uuid_ok q) (ReplayDelivery pg (qe_io q) (qe_now q)),
      sv_readiness = (\<lambda>_. case qe_io q ''ping'' of Works \<Rightarrow> None | Breaks m \<Rightarrow> Some (ErrNew m) | BreaksApplied m \<Rightarrow> Some (ErrNew m)),
      sv_metrics = True, sv_httpObserver = True, sv_buildInfo = info, sv_startedAt = startedAt\<rparr>"

lemma get_body_same:
  assumes "get_body pg io i db = Inr (x, db')"
  shows "db' = db"
proof -
  obtain k row where "(case row of None \<Rightarrow> Inl (ErrVar DeliveryErrNotFound)
     | Some d \<Rightarrow>
        (case tfind vr_id (dr_event_id d) (events db) of
           None \<Rightarrow> Inl (ErrVar DeliveryErrNotFound)
         | Some v \<Rightarrow>
             bind_ok (stmt io ''query delivery attempts'' (Some (attempts_of k db))) (\<lambda>rows.
             bind_ok (stmt io ''iterate delivery attempts'' (Some ())) (\<lambda>_.
             Inr (\<lparr>dt_Delivery = scanDelivery d, dt_Event = scan_event v,
               dt_Attempts = map scan_attempt rows\<rparr>, db))))) = Inr (x, db')"
    using assms unfolding get_body_def by (elim bind_okE) (auto split: prod.splits)
  then show ?thesis by (cases row; cases "tfind vr_id (dr_event_id (the row)) (events db)") (auto simp: bind_ok_Inr_iff)
qed

lemma GetDelivery_same: "GetDelivery pg io i db = (x, db') \<Longrightarrow> db' = db"
  unfolding GetDelivery_def by (cases rule: run_tx_cases) (auto dest: get_body_same)

interpretation store_services: api_services "store_server pg b options apiKey info startedAt q" "(store_step pg)\<^sup>*\<^sup>*"
  for pg b options apiKey info startedAt q
proof unfold_locales
  show "(store_step pg)\<^sup>*\<^sup>* s t" if "sv_create (store_server pg b options apiKey info startedAt q) i s = (x, t)" for i s x t
    using that unfolding store_server_def
    by (cases rule: Create_cases [of "qe_url q" options "qe_secret q" "Encrypt b (qe_nonce q)" "qe_endpoint_id q"
          "CreateEndpoint pg (qe_io q) (qe_now q)" i s])
      (auto split: prod.splits sum.splits intro: store_step.create)
  show "(store_step pg)\<^sup>*\<^sup>* s t" if "sv_publish (store_server pg b options apiKey info startedAt q) p s = (z, t)" for p s z t
    using that
    by (auto simp: store_server_def Publish_def split: if_splits prod.splits sum.splits intro: store_step.enqueue)
qed (auto simp: store_server_def Endpoint_Disable_def Delivery_Get_def Delivery_Replay_def
    split: if_splits prod.splits sum.splits intro: store_step.disable store_step.replay dest!: GetDelivery_same)

section \<open>Requests and the store\<close>

text \<open>Every request, whatever it contains and whatever the driver does, takes the store from a state that
  satisfies the invariant to one that satisfies it, by transactions of the store only.\<close>

theorem api_request_keeps_invariant:
  assumes "canonical_uuid pg" and "store_inv pg db"
    and "Handler (store_server pg b options apiKey info startedAt q) je r db = (obs, resp, db')"
  shows "(store_step pg)\<^sup>*\<^sup>* db db' \<and> store_inv pg db'"
proof -
  have run: "(store_step pg)\<^sup>*\<^sup>* db db'" by (rule store_services.Handler_moves [OF assms(3)])
  then show ?thesis using store.steps_inv [OF run] assms(1,2) by blast
qed

definition sample_q :: request_env where
  "sample_q =
     \<lparr>qe_url = orders_urls, qe_uuid_ok = (\<lambda>s. s \<noteq> []), qe_endpoint_id = ''ep'', qe_event_id = ''ev'', qe_delivery_id = ''dl'',
      qe_secret = (\<lambda>_. Inr ''abc''), qe_nonce = sample_nonce, qe_io = sample_io, qe_now = 2000000000\<rparr>"

definition sample_info :: Info where
  "sample_info = Current ''dev'' ''none'' ''unknown'' ''go'' None"

abbreviation sample_server :: "request_env \<Rightarrow> db Server" where
  "sample_server \<equiv> store_server sample_pg sample_box sample_options ''key'' sample_info 0"

theorem api_request_keeps_invariant_witness:
  "store_inv sample_pg (snd (snd (Handler (sample_server sample_q) sample_json (sample_replay_request ''Bearer key'') sample_dead)))"
proof -
  obtain obs resp db' where h: "Handler (sample_server sample_q) sample_json (sample_replay_request ''Bearer key'') sample_dead =
      (obs, resp, db')" by (metis prod.collapse)
  from api_request_keeps_invariant [OF canonical_sample sample_inv_dead h] h show ?thesis by simp
qed

lemma error_status:
  "re_Status (writeEventError e) \<noteq> 202" "re_Status (decode_error e) \<noteq> 202"
  by (simp_all add: writeEventError_def decode_error_def writeError_def Let_def)

lemma publishEvent_202:
  assumes "publishEvent sv je r s = (resp, s')" and "re_Status resp = 202"
  obtains q n where "decodeJSON je (je_event je) maximumEventBody r = Inr q"
    and "sv_publish sv \<lparr>pi_EndpointID = pq_EndpointID q, pi_Type = pq_Type q, pi_Payload = pq_Payload q,
           pi_IdempotencyKey = rt_IdempotencyKey r\<rparr> s = (Inr n, s')"
    and "re_Body resp = BPublished \<lparr>pw_EventID = ev_ID (nq_Event n), pw_DeliveryID = dl_ID (nq_Delivery n),
           pw_Status = dl_Status (nq_Delivery n), pw_Duplicate = nq_Duplicate n\<rparr>"
  using assms error_status unfolding publishEvent_def by (auto split: sum.splits prod.splits)


definition sample_publish_request :: request where
  "sample_publish_request =
     \<lparr>rt_Method = ''POST'', rt_Path = [''v1'', ''events''], rt_Authorization = ''Bearer key'',
      rt_ContentType = ''application/json'', rt_IdempotencyKey = ''k1'', rt_Limit = [], rt_Body = ''{}''\<rparr>"

definition sample_event_json :: json_env where
  "sample_event_json =
     sample_json\<lparr>je_event := (\<lambda>_. Inr \<lparr>pq_EndpointID = ''ep'', pq_Type = ''order.created'', pq_Payload = ''{}''\<rparr>)\<rparr>"

lemma sample_publishable:
  "publishable (\<lambda>s. s \<noteq> []) \<lparr>pi_EndpointID = ''ep'', pi_Type = ''order.created'', pi_Payload = ''{}'', pi_IdempotencyKey = ''k1''\<rparr>"
  "publish_params ''ev'' ''dl'' \<lparr>pi_EndpointID = ''ep'', pi_Type = ''order.created'', pi_Payload = ''{}'', pi_IdempotencyKey = ''k1''\<rparr> =
    sample_params"
proof -
  have t: "trim_space ''order.created'' = ''order.created''" "trim_space ''k1'' = ''k1''"
    by (simp_all add: trim_space_graphic graphic_def code_def)
  have "eventTypePattern ''order.created''" by (simp add: alnum_def code_def)
  moreover have "utf8_valid ''k1''" by (rule utf8_valid_ascii) (simp add: code_def)
  then have "validIdempotencyKey ''k1''" by (simp add: validIdempotencyKey_def rune_count_def decode_rune.simps code_def)
  ultimately show "publishable (\<lambda>s. s \<noteq> []) \<lparr>pi_EndpointID = ''ep'', pi_Type = ''order.created'', pi_Payload = ''{}'', pi_IdempotencyKey = ''k1''\<rparr>"
    using t json_valid_examples(1) by (simp add: publishable_def MaximumPayloadBytes_def)
  show "publish_params ''ev'' ''dl'' \<lparr>pi_EndpointID = ''ep'', pi_Type = ''order.created'', pi_Payload = ''{}'', pi_IdempotencyKey = ''k1''\<rparr> =
    sample_params"
    using t by (simp add: publish_params_def sample_params_def)
qed


end
