(* ===== verification/Service.thy ===== *)
theory Service
  imports Api_Store
begin

text \<open>
  The service as a whole: API requests and workers on one store. A worker shares the queue with
  every other worker and server, so each of its two calls acts on a state to which the others may
  have brought the store since the last call.
\<close>

definition shared_queue :: "pg \<Rightarrow> db tick \<Rightarrow> bool" where
  "shared_queue pg t \<longleftrightarrow>
     (\<forall>w lease db. \<exists>io gen now skipR skipC db'. (store_step pg)\<^sup>*\<^sup>* db db' \<and>
        tk_claim t w lease db = ClaimDelivery pg io gen now skipR skipC w lease db') \<and>
     (\<forall>r db. \<exists>io gen now db'. (store_step pg)\<^sup>*\<^sup>* db db' \<and> tk_finish t r db = FinishAttempt pg io gen now r db')"

lemma shared_queue_moves:
  assumes "shared_queue pg t"
  shows "tk_claim t w lease db = (x, db') \<Longrightarrow> (store_step pg)\<^sup>*\<^sup>* db db'"
    and "tk_finish t r db = (y, db') \<Longrightarrow> (store_step pg)\<^sup>*\<^sup>* db db'"
  using assms unfolding shared_queue_def
  by (metis rtranclp.rtrancl_into_rtrancl store_step.claim, metis rtranclp.rtrancl_into_rtrancl store_step.finish)

lemma process_moves:
  assumes "shared_queue pg t" and "process cvt config w j t db = (obs, err, db')"
  shows "(store_step pg)\<^sup>*\<^sup>* db db'"
  using assms(2) shared_queue_moves(2) [OF assms(1)] by (auto simp: process_def Let_def split: prod.splits sum.splits)

lemma worker_moves:
  assumes "\<forall>t \<in> set ts. shared_queue pg t" and "runWorker cvt config w ts db = (obs, db', stopped)"
  shows "(store_step pg)\<^sup>*\<^sup>* db db'"
  using assms
proof (induction ts arbitrary: db obs)
  case (Cons t ts)
  have t: "shared_queue pg t" using Cons.prems(1) by simp
  obtain c db1 where c: "tk_claim t w (cf_LeaseDuration config) db = (c, db1)" by fastforce
  note moved = shared_queue_moves(1) [OF t c]
  have rest: "(store_step pg)\<^sup>*\<^sup>* db1 db'" if "runWorker cvt config w ts db1 = (obs1, db', stopped)" for obs1
    using Cons.IH [OF _ that] Cons.prems(1) by simp
  show ?case
  proof (cases "\<exists>j. c = Inr (Some j)")
    case True
    then obtain j where j: "c = Inr (Some j)" by blast
    obtain a err db2 where p: "process cvt config w j t db1 = (a, err, db2)" by (rule prod_cases3)
    obtain obs2 where "runWorker cvt config w ts db2 = (obs2, db', stopped)"
      using Cons.prems(2) c j p by (auto split: prod.splits)
    with Cons.IH Cons.prems(1) have "(store_step pg)\<^sup>*\<^sup>* db2 db'" by simp
    with moved process_moves [OF t p] show ?thesis by (meson rtranclp_trans)
  next
    case False
    then have "db' = db1 \<or> (\<exists>obs1. runWorker cvt config w ts db1 = (obs1, db', stopped))"
      using Cons.prems(2) c by (auto split: sum.splits option.splits prod.splits if_splits)
    with moved rest show ?thesis by (meson rtranclp_trans)
  qed
qed simp


lemma store_tick_shared: "shared_queue pg (store_tick pg io gen now skipR skipC env d t u gen' now' sample)"
  unfolding shared_queue_def store_tick_def by (auto intro!: exI)


end
