(* ===== verification/Startup.thy ===== *)
theory Startup
  imports Configuration Buildinfo
begin

text \<open>
  \<^verbatim>\<open>internal/database/database.go\<close> and \<^verbatim>\<open>cmd/relayforge/main.go\<close>: opening the pool, building the
  components and the orderly shutdown. The functions return the actions they take on the shared
  resources in order, deferred calls included, next to their result. The pool library and what the
  running server does (how it ends, what \<^verbatim>\<open>Shutdown\<close> returns, whether the workers are done in time)
  are parameters; logging is left out.
\<close>

section \<open>The database pool\<close>

record DatabaseConfig =
  dc_URL :: string
  dc_MinConnections :: int
  dc_MaxConnections :: int

record pgx_config =
  pc_ConnString :: string
  pc_MinConns :: int
  pc_MaxConns :: int
  pc_MaxConnLifetime :: duration
  pc_MaxConnIdleTime :: duration
  pc_HealthCheckPeriod :: duration

record 'p pgx =
  pgx_ParseConfig :: "string \<Rightarrow> (go_error, pgx_config) result"
  pgx_NewWithConfig :: "pgx_config \<Rightarrow> (go_error, 'p) result"
  pgx_Ping :: "'p \<Rightarrow> go_error option"

datatype action =
    PoolOpened | PoolClosed | DispatcherClosed | WorkersStarted | ServerStarted
  | ContextStopped | ServerShutdown | WorkersJoined

definition Open :: "'p pgx \<Rightarrow> DatabaseConfig \<Rightarrow> action list \<times> (go_error, 'p) result" where
  "Open px cfg =
     (case pgx_ParseConfig px (dc_URL cfg) of
        Inl err \<Rightarrow> ([], Inl (WrapPrefix ''parse database config'' err))
      | Inr poolConfig \<Rightarrow>
          (case pgx_NewWithConfig px (poolConfig\<lparr>pc_MinConns := dc_MinConnections cfg,
              pc_MaxConns := dc_MaxConnections cfg, pc_MaxConnLifetime := 30 * 60 * second,
              pc_MaxConnIdleTime := 5 * 60 * second, pc_HealthCheckPeriod := 30 * second\<rparr>) of
             Inl err \<Rightarrow> ([], Inl (WrapPrefix ''create database pool'' err))
           | Inr pool \<Rightarrow>
               (case pgx_Ping px pool of
                  Some err \<Rightarrow> ([PoolOpened, PoolClosed], Inl (WrapPrefix ''ping database'' err))
                | None \<Rightarrow> ([PoolOpened], Inr pool))))"

section \<open>Running and stopping\<close>

text \<open>What happens while the server runs: \<open>sv_first\<close> is the event that ends the first \<^verbatim>\<open>select\<close> (the error
  of \<^verbatim>\<open>ListenAndServe\<close>, or \<open>None\<close> for a signal), \<open>sv_second\<close> the error that the serving goroutine sends
  within the 100 ms of the second one. The goroutine sends once, so the second \<^verbatim>\<open>select\<close> finds an
  error only when the first did not take it.\<close>

record serving =
  sv_first :: "go_error option"
  sv_shutdown :: "go_error option"
  sv_second :: "go_error option"
  sv_workers_done :: bool

definition unexpected :: "string \<Rightarrow> go_error option \<Rightarrow> go_error option" where
  "unexpected label received =
     (case received of
        Some err \<Rightarrow> if \<not> errors_is err ErrServerClosed then Some (WrapPrefix label err) else None
      | None \<Rightarrow> None)"

definition run_server :: "serving \<Rightarrow> action list \<times> go_error option" where
  "run_server sv =
     (let started = [WorkersStarted, ServerStarted, ContextStopped, ServerShutdown];
          serveErr = unexpected ''serve http'' (sv_first sv);
          received = (if sv_first sv = None then sv_second sv else None)
      in case sv_shutdown sv of
        Some err \<Rightarrow> (started, Some (WrapPrefix ''shutdown http server'' err))
      | None \<Rightarrow>
          (case unexpected ''stop http server'' received of
             Some err \<Rightarrow> (started, Some err)
           | None \<Rightarrow>
               if \<not> sv_workers_done sv
               then (started, Some (ErrNew ''delivery workers did not stop before shutdown timeout''))
               else (started @ [WorkersJoined], serveErr)))"

record ('p, 'b) run_env =
  re_config :: config_env
  re_pgx :: "'p pgx"
  re_new_cipher :: "bytes \<Rightarrow> (go_error, 'b) result"
  re_new_gcm :: "'b \<Rightarrow> (go_error, AEAD) result"
  re_instanceID :: string
  re_serving :: serving

text \<open>\<^verbatim>\<open>dispatcher.Close\<close> is deferred once the box and the retry policy exist, \<^verbatim>\<open>db.Close\<close> once the pool is
  open; deferred calls run in the opposite order.\<close>

definition run :: "('p, 'b) run_env \<Rightarrow> action list \<times> go_error option" where
  "run env =
     (case Load (re_config env) of
        Inl err \<Rightarrow> ([], Some (WrapPrefix ''load config'' err))
      | Inr cfg \<Rightarrow>
          (case Open (re_pgx env) \<lparr>dc_URL = lc_DatabaseURL cfg, dc_MinConnections = lc_DatabaseMinConnections cfg,
              dc_MaxConnections = lc_DatabaseMaxConnections cfg\<rparr> of
             (opened, Inl err) \<Rightarrow> (opened, Some err)
           | (opened, Inr pool) \<Rightarrow>
               (case build_components (re_new_cipher env) (re_new_gcm env) (re_instanceID env) cfg of
                  Inl err \<Rightarrow>
                    (opened @
                     (if \<not> isl (NewBox (re_new_cipher env) (re_new_gcm env) (lc_MasterKey cfg)) \<and>
                         \<not> isl (NewRetryPolicy (lc_RetryBaseDelay cfg) (lc_RetryMaxDelay cfg) (lc_RetryJitter cfg))
                      then [DispatcherClosed] else []) @ [PoolClosed], Some err)
                | Inr components \<Rightarrow>
                    (case run_server (re_serving env) of
                       (served, err) \<Rightarrow> (opened @ served @ [DispatcherClosed, PoolClosed], err)))))"

text \<open>\<^verbatim>\<open>main\<close>: the exit status, with the result of writing the version as an argument.\<close>

definition writeVersion :: "(Info \<Rightarrow> go_error option) \<Rightarrow> Info \<Rightarrow> go_error option" where
  "writeVersion encode current = map_option (WrapPrefix ''write version'') (encode current)"

definition relayforge_main :: "string list \<Rightarrow> (Info \<Rightarrow> go_error option) \<Rightarrow> Info \<Rightarrow> ('p, 'b) run_env \<Rightarrow> int" where
  "relayforge_main args encode current env =
     (if length args = 2 \<and> (args ! 1 = ''version'' \<or> args ! 1 = ''--version'')
      then (if writeVersion encode current \<noteq> None then 1 else 0)
      else if snd (run env) \<noteq> None then 1 else 0)"

section \<open>Every path releases what it opened\<close>

lemma Open_outcome:
  "(\<exists>e. Open px cfg = ([], Inl e)) \<or> (\<exists>e. Open px cfg = ([PoolOpened, PoolClosed], Inl e)) \<or>
   (\<exists>pool. Open px cfg = ([PoolOpened], Inr pool) \<and> pgx_Ping px pool = None)"
  by (simp add: Open_def split: sum.split option.split)

lemma run_server_outcome:
  "(\<exists>e. run_server sv = ([WorkersStarted, ServerStarted, ContextStopped, ServerShutdown], Some e)) \<or>
   run_server sv = ([WorkersStarted, ServerStarted, ContextStopped, ServerShutdown, WorkersJoined],
     unexpected ''serve http'' (sv_first sv)) \<and> sv_shutdown sv = None \<and> sv_workers_done sv"
  by (simp add: run_server_def Let_def split: option.split)

text \<open>The server ran and was stopped in the intended order.\<close>

abbreviation orderly :: "action list" where
  "orderly \<equiv> [PoolOpened, WorkersStarted, ServerStarted, ContextStopped, ServerShutdown, WorkersJoined,
     DispatcherClosed, PoolClosed]"

lemma run_outcome:
  "run env \<in> {([], Some e) | e. True} \<union> {([PoolOpened, PoolClosed], Some e) | e. True} \<union>
     {([PoolOpened, DispatcherClosed, PoolClosed], Some e) | e. True} \<union>
     {([PoolOpened, WorkersStarted, ServerStarted, ContextStopped, ServerShutdown, DispatcherClosed, PoolClosed], Some e)
       | e. True} \<union>
     {(orderly, unexpected ''serve http'' (sv_first (re_serving env)))}"
proof (cases "Load (re_config env)")
  case (Inl e)
  then show ?thesis by (simp add: run_def)
next
  case (Inr cfg)
  let ?dc = "\<lparr>dc_URL = lc_DatabaseURL cfg, dc_MinConnections = lc_DatabaseMinConnections cfg,
              dc_MaxConnections = lc_DatabaseMaxConnections cfg\<rparr>"
  show ?thesis
    using Open_outcome [of "re_pgx env" ?dc] run_server_outcome [of "re_serving env"] Inr
    by (cases "build_components (re_new_cipher env) (re_new_gcm env) (re_instanceID env) cfg") (auto simp: run_def)
qed

text \<open>C25. The service releases what it opened on every path: the pool is closed exactly when it was opened, and
  nothing is done after that. When \<^verbatim>\<open>run\<close> returns no error, the server was told to shut down and every
  worker had stopped before the dispatcher and the pool were closed, and the server had ended by a
  signal or a regular close. When workers are still running at the end, \<^verbatim>\<open>run\<close> reports an error.\<close>

theorem run_releases_resources:
  assumes "run env = (tr, err)"
  shows "count_list tr PoolOpened = count_list tr PoolClosed \<and> (tr \<noteq> [] \<longrightarrow> hd tr = PoolOpened \<and> last tr = PoolClosed) \<and>
    (err = None \<longrightarrow> tr = orderly \<and>
       (\<forall>e. sv_first (re_serving env) = Some e \<longrightarrow> errors_is e ErrServerClosed)) \<and>
    (WorkersStarted \<in> set tr \<and> WorkersJoined \<notin> set tr \<longrightarrow> err \<noteq> None)"
  using run_outcome [of env] assms by (auto simp: unexpected_def split: option.splits if_splits)

definition sample_pgx :: "unit pgx" where
  "sample_pgx =
     \<lparr>pgx_ParseConfig = (\<lambda>s. Inr \<lparr>pc_ConnString = s, pc_MinConns = 0, pc_MaxConns = 4, pc_MaxConnLifetime = second,
        pc_MaxConnIdleTime = second, pc_HealthCheckPeriod = second\<rparr>),
      pgx_NewWithConfig = (\<lambda>_. Inr ()), pgx_Ping = (\<lambda>_. None)\<rparr>"

definition sample_run :: "go_error option \<Rightarrow> (unit, bytes) run_env" where
  "sample_run first =
     \<lparr>re_config = sample_cenv [], re_pgx = sample_pgx, re_new_cipher = Inr, re_new_gcm = (\<lambda>_. Inr plain_aead),
      re_instanceID = ''host'',
      re_serving = \<lparr>sv_first = first, sv_shutdown = None, sv_second = Some (ErrVar ErrServerClosed),
        sv_workers_done = True\<rparr>\<rparr>"

lemma sample_loads:
  obtains cfg where "Load (sample_cenv []) = Inr cfg"
  using sample_load [of "[]" 5000000000 10 30000000000] sample_unset(1) [of "[]" "''WORKER_FINISH_TIMEOUT''"]
    sample_unset(2) [of "[]" "''DATABASE_MAX_CONNECTIONS''"] sample_unset(1) [of "[]" "''CIRCUIT_COOLDOWN''"]
  by (auto simp: sample_vars_def)

text \<open>A signal leads to an orderly end; a server that cannot listen takes the same way and reports it.\<close>

lemma sample_run_ends:
  "run (sample_run first) = (orderly, unexpected ''serve http'' first)"
proof -
  obtain cfg where l: "Load (sample_cenv []) = Inr cfg" by (rule sample_loads)
  obtain cm where "build_components Inr (\<lambda>_. Inr plain_aead) ''host'' cfg = Inr cm"
    using loaded_config_builds [OF l, of Inr "\<lambda>_. Inr plain_aead" "''host''"] by auto
  then show ?thesis
    using l by (simp add: run_def sample_run_def sample_pgx_def Open_def run_server_def unexpected_def)
qed

theorem run_releases_resources_witness:
  "\<exists>tr err. run (sample_run (Some (ErrNew ''listen tcp :8080: bind: address already in use''))) = (tr, err) \<and>
     err = Some (WrapPrefix ''serve http'' (ErrNew ''listen tcp :8080: bind: address already in use'')) \<and>
     hd tr = PoolOpened \<and> last tr = PoolClosed \<and> WorkersJoined \<in> set tr"
  using run_releases_resources [OF sample_run_ends]
    sample_run_ends [of "Some (ErrNew ''listen tcp :8080: bind: address already in use'')"]
  by (simp add: unexpected_def)

end
