(* ===== verification/Metrics.thy ===== *)
theory Metrics
  imports Worker Store
begin

text \<open>
  \<^verbatim>\<open>internal/observability/metrics.go\<close>: the counters that the server and the workers feed, and the
  collector. A labelled counter is a function from its labels, a histogram the list of its
  observations, the gauge a \<^verbatim>\<open>float64\<close>. The descriptors, what is registered and what a scrape emits are
  modelled; the registry and its text format belong to the Prometheus library.
\<close>

record Metrics =
  mt_httpRequests :: "string \<times> string \<times> string \<Rightarrow> int"
  mt_httpDuration :: "((string \<times> string) \<times> float64) list"
  mt_workerClaims :: "string \<Rightarrow> int"
  mt_deliveryAttempts :: "string \<Rightarrow> int"
  mt_deliveryDuration :: "(string \<times> float64) list"
  mt_deliveryFinishErrors :: int
  mt_deliveryInFlight :: float64

definition NewMetrics :: Metrics where
  "NewMetrics =
     \<lparr>mt_httpRequests = (\<lambda>_. 0), mt_httpDuration = [], mt_workerClaims = (\<lambda>_. 0), mt_deliveryAttempts = (\<lambda>_. 0),
      mt_deliveryDuration = [], mt_deliveryFinishErrors = 0, mt_deliveryInFlight = Fin 0\<rparr>"

definition inc :: "'a \<Rightarrow> ('a \<Rightarrow> int) \<Rightarrow> 'a \<Rightarrow> int" where
  "inc k f = f(k := f k + 1)"

fun decision_label :: "decision \<Rightarrow> string" where
  "decision_label DecisionSucceed = ''succeed''"
| "decision_label DecisionRetry = ''retry''"
| "decision_label DecisionDiscard = ''discard''"
| "decision_label (DecisionOther s) = s"

definition ObserveHTTPRequest :: "string \<Rightarrow> string \<Rightarrow> int \<Rightarrow> duration \<Rightarrow> Metrics \<Rightarrow> Metrics" where
  "ObserveHTTPRequest m rt st took x =
     x\<lparr>mt_httpRequests := inc (m, rt, int_text st) (mt_httpRequests x),
       mt_httpDuration := mt_httpDuration x @ [((m, rt), seconds_f64 took)]\<rparr>"

definition Metrics_ObserveClaim :: "string \<Rightarrow> Metrics \<Rightarrow> Metrics" where
  "Metrics_ObserveClaim r x = x\<lparr>mt_workerClaims := inc r (mt_workerClaims x)\<rparr>"

definition Metrics_ObserveAttempt :: "decision \<Rightarrow> duration \<Rightarrow> Metrics \<Rightarrow> Metrics" where
  "Metrics_ObserveAttempt d took x =
     (let label = decision_label d in
      x\<lparr>mt_deliveryAttempts := inc label (mt_deliveryAttempts x),
        mt_deliveryDuration := mt_deliveryDuration x @ [(label, seconds_f64 took)]\<rparr>)"

definition Metrics_ObserveFinishError :: "Metrics \<Rightarrow> Metrics" where
  "Metrics_ObserveFinishError x = x\<lparr>mt_deliveryFinishErrors := mt_deliveryFinishErrors x + 1\<rparr>"

definition Metrics_AddInFlight :: "float64 \<Rightarrow> Metrics \<Rightarrow> Metrics" where
  "Metrics_AddInFlight delta x = x\<lparr>mt_deliveryInFlight := fadd (mt_deliveryInFlight x) delta\<rparr>"

text \<open>The observer that the worker pool is given.\<close>

fun observe :: "observation \<Rightarrow> Metrics \<Rightarrow> Metrics" where
  "observe (ObserveClaim r) = Metrics_ObserveClaim r"
| "observe (ObserveAttempt d took) = Metrics_ObserveAttempt d took"
| "observe ObserveFinishError = Metrics_ObserveFinishError"
| "observe (AddInFlight n) = Metrics_AddInFlight (f64_of_int n)"

section \<open>The collector\<close>

record pool_stats =
  po_acquired :: int
  po_idle :: int
  po_total :: int
  po_max :: int

text \<open>A descriptor: the fully qualified name and the names of the variable labels. There are no constant labels.\<close>

record Desc =
  ds_fqName :: string
  ds_help :: string
  ds_variableLabels :: "string list"

definition deliveries_desc :: Desc where
  "deliveries_desc = \<lparr>ds_fqName = ''relayforge_deliveries'', ds_help = ''Current durable deliveries by status.'',
     ds_variableLabels = [''status'']\<rparr>"

definition openCircuits_desc :: Desc where
  "openCircuits_desc = \<lparr>ds_fqName = ''relayforge_open_circuits'', ds_help = ''Endpoints with an open circuit.'',
     ds_variableLabels = []\<rparr>"

definition statsScrapeSuccess_desc :: Desc where
  "statsScrapeSuccess_desc = \<lparr>ds_fqName = ''relayforge_operational_stats_scrape_success'',
     ds_help = ''Whether durable operational stats were collected successfully.'', ds_variableLabels = []\<rparr>"

definition databaseConnections_desc :: Desc where
  "databaseConnections_desc = \<lparr>ds_fqName = ''relayforge_database_connections'',
     ds_help = ''PostgreSQL pool connections by state.'', ds_variableLabels = [''state'']\<rparr>"

text \<open>The names of the instruments are built by \<^verbatim>\<open>prometheus.BuildFQName\<close> from namespace, subsystem and name,
  which is a parameter; it is documented to join components that are not empty by underscores.\<close>

type_synonym name_builder = "string \<Rightarrow> string \<Rightarrow> string \<Rightarrow> string"

definition joins_by_underscore :: "name_builder \<Rightarrow> bool" where
  "joins_by_underscore fq \<longleftrightarrow>
     (\<forall>namespace subsystem name. namespace \<noteq> [] \<longrightarrow> subsystem \<noteq> [] \<longrightarrow> name \<noteq> [] \<longrightarrow>
        fq namespace subsystem name = namespace @ ''_'' @ subsystem @ ''_'' @ name)"

definition instruments :: "name_builder \<Rightarrow> Desc list" where
  "instruments fq =
     map (\<lambda>(subsystem, name, help, labels).
            \<lparr>ds_fqName = fq ''relayforge'' subsystem name, ds_help = help, ds_variableLabels = labels\<rparr>)
       [(''http'', ''requests_total'', ''Total HTTP requests.'', [''method'', ''route'', ''status'']),
        (''http'', ''request_duration_seconds'', ''HTTP request duration in seconds.'', [''method'', ''route'']),
        (''worker'', ''claims_total'', ''Delivery claim attempts by result.'', [''result'']),
        (''delivery'', ''attempts_total'', ''Webhook delivery attempts by decision.'', [''decision'']),
        (''delivery'', ''attempt_duration_seconds'', ''Webhook delivery attempt duration in seconds.'', [''decision'']),
        (''delivery'', ''finish_errors_total'', ''Failed delivery result persistence operations.'', []),
        (''delivery'', ''in_flight'', ''Deliveries currently processed by this instance.'', [])]"

definition Describe :: "Desc list" where
  "Describe = [deliveries_desc, openCircuits_desc, statsScrapeSuccess_desc, databaseConnections_desc]"

text \<open>What \<^verbatim>\<open>NewMetrics\<close> registers of its own, in order: the instruments and the collector itself.\<close>

definition registered :: "name_builder \<Rightarrow> Desc list" where
  "registered fq = instruments fq @ Describe"

record const_metric =
  cm_desc :: Desc
  cm_value :: float64
  cm_labels :: "string list"

definition const_gauge :: "Desc \<Rightarrow> float64 \<Rightarrow> string list \<Rightarrow> const_metric" where
  "const_gauge d v labels = \<lparr>cm_desc = d, cm_value = v, cm_labels = labels\<rparr>"

text \<open>The source iterates over Go maps, so the order within a group is not specified there; the model takes the
  order of the literals.\<close>

definition delivery_counts :: "OperationalStats \<Rightarrow> (string \<times> int) list" where
  "delivery_counts stats =
     [(''pending'', os_Pending stats), (''processing'', os_Processing stats), (''retrying'', os_Retrying stats),
      (''succeeded'', os_Succeeded stats), (''dead'', os_Dead stats)]"

definition connection_counts :: "pool_stats \<Rightarrow> (string \<times> int) list" where
  "connection_counts pool =
     [(''acquired'', po_acquired pool), (''idle'', po_idle pool), (''total'', po_total pool), (''max'', po_max pool)]"

definition Collect :: "(go_error, OperationalStats) result \<Rightarrow> pool_stats \<Rightarrow> const_metric list" where
  "Collect stats pool =
     (case stats of
        Inl _ \<Rightarrow> [const_gauge statsScrapeSuccess_desc (Fin 0) []]
      | Inr st \<Rightarrow>
          const_gauge statsScrapeSuccess_desc (Fin 1) [] #
          map (\<lambda>(status, count). const_gauge deliveries_desc (f64_of_int count) [status]) (delivery_counts st) @
          [const_gauge openCircuits_desc (f64_of_int (os_OpenCircuits st)) []]) @
     map (\<lambda>(state, count). const_gauge databaseConnections_desc (f64_of_int count) [state]) (connection_counts pool)"

lemmas desc_defs = deliveries_desc_def openCircuits_desc_def statsScrapeSuccess_desc_def databaseConnections_desc_def

lemma registered_names: "joins_by_underscore fq \<Longrightarrow> distinct (map ds_fqName (registered fq))"
  by (simp add: registered_def instruments_def Describe_def desc_defs joins_by_underscore_def)

lemma Collect_samples: "distinct (map (\<lambda>x. (ds_fqName (cm_desc x), cm_labels x)) (Collect stats pool))"
  by (cases stats) (simp_all add: Collect_def const_gauge_def desc_defs delivery_counts_def connection_counts_def)

lemma Collect_described:
  assumes "x \<in> set (Collect stats pool)"
  shows "cm_desc x \<in> set Describe \<and> length (cm_labels x) = length (ds_variableLabels (cm_desc x))"
  using assms
  by (cases stats) (auto simp: Collect_def const_gauge_def desc_defs delivery_counts_def connection_counts_def Describe_def)

lemma Collect_stats_iff:
  "(\<exists>x \<in> set (Collect stats pool). cm_desc x = deliveries_desc \<or> cm_desc x = openCircuits_desc) \<longleftrightarrow> (\<exists>st. stats = Inr st)"
  by (cases stats) (auto simp: Collect_def const_gauge_def desc_defs delivery_counts_def connection_counts_def)

lemma Collect_success:
  "filter (\<lambda>x. cm_desc x = statsScrapeSuccess_desc) (Collect stats pool) =
     [const_gauge statsScrapeSuccess_desc (Fin (if \<exists>st. stats = Inr st then 1 else 0)) []]"
  by (cases stats) (simp_all add: Collect_def const_gauge_def desc_defs delivery_counts_def connection_counts_def)

text \<open>Scrapes are well-formed for the registry: the names registered are pairwise different; whatever the
  database answers, every sample the collector emits has a descriptor that \<^verbatim>\<open>Describe\<close> announced and as many
  label values as that descriptor has labels, and no two samples agree in name and labels; and the durable
  figures appear exactly when the database answered, the success gauge telling which.\<close>

theorem scrape_well_formed:
  assumes "joins_by_underscore fq"
  shows "distinct (map ds_fqName (registered fq)) \<and> set Describe \<subseteq> set (registered fq) \<and>
   distinct (map (\<lambda>x. (ds_fqName (cm_desc x), cm_labels x)) (Collect stats pool)) \<and>
   (\<forall>x \<in> set (Collect stats pool). cm_desc x \<in> set Describe \<and> length (cm_labels x) = length (ds_variableLabels (cm_desc x))) \<and>
   ((\<exists>x \<in> set (Collect stats pool). cm_desc x = deliveries_desc \<or> cm_desc x = openCircuits_desc) \<longleftrightarrow> (\<exists>st. stats = Inr st)) \<and>
   filter (\<lambda>x. cm_desc x = statsScrapeSuccess_desc) (Collect stats pool) =
     [const_gauge statsScrapeSuccess_desc (Fin (if \<exists>st. stats = Inr st then 1 else 0)) []]"
  using assms by (intro conjI ballI registered_names Collect_samples Collect_described Collect_stats_iff Collect_success)
    (auto simp: registered_def)

theorem scrape_well_formed_witness:
  "distinct (map ds_fqName (registered (\<lambda>n s m. n @ ''_'' @ s @ ''_'' @ m))) \<and>
   length (Collect (Inl (ErrNew ''timeout'')) \<lparr>po_acquired = 1, po_idle = 2, po_total = 3, po_max = 4\<rparr>) = 5"
  using scrape_well_formed [of "\<lambda>n s m. n @ ''_'' @ s @ ''_'' @ m"]
  by (simp add: joins_by_underscore_def Collect_def connection_counts_def)

section \<open>What a worker leaves in the counters\<close>

lemma observe_sel [simp]:
  "mt_workerClaims (Metrics_ObserveAttempt d t x) = mt_workerClaims x"
  "mt_workerClaims (Metrics_ObserveFinishError x) = mt_workerClaims x"
  "mt_workerClaims (Metrics_AddInFlight f x) = mt_workerClaims x"
  "mt_workerClaims (Metrics_ObserveClaim r x) = inc r (mt_workerClaims x)"
  "mt_deliveryDuration (Metrics_ObserveClaim r x) = mt_deliveryDuration x"
  "mt_deliveryDuration (Metrics_ObserveFinishError x) = mt_deliveryDuration x"
  "mt_deliveryDuration (Metrics_AddInFlight f x) = mt_deliveryDuration x"
  "length (mt_deliveryDuration (Metrics_ObserveAttempt d t x)) = Suc (length (mt_deliveryDuration x))"
  "mt_deliveryFinishErrors (Metrics_ObserveClaim r x) = mt_deliveryFinishErrors x"
  "mt_deliveryFinishErrors (Metrics_ObserveAttempt d t x) = mt_deliveryFinishErrors x"
  "mt_deliveryFinishErrors (Metrics_ObserveFinishError x) = mt_deliveryFinishErrors x + 1"
  "mt_deliveryFinishErrors (Metrics_AddInFlight f x) = mt_deliveryFinishErrors x"
  "mt_deliveryInFlight (Metrics_ObserveClaim r x) = mt_deliveryInFlight x"
  "mt_deliveryInFlight (Metrics_ObserveAttempt d t x) = mt_deliveryInFlight x"
  "mt_deliveryInFlight (Metrics_ObserveFinishError x) = mt_deliveryInFlight x"
  "mt_deliveryInFlight (Metrics_AddInFlight f x) = fadd (mt_deliveryInFlight x) f"
  by (simp_all add: Metrics_ObserveClaim_def Metrics_ObserveAttempt_def Metrics_ObserveFinishError_def
      Metrics_AddInFlight_def Let_def)

lemma gauge_up_down: "fadd (fadd (Fin 0) (f64_of_int 1)) (f64_of_int (- 1)) = Fin 0"
proof -
  have "f64 0 = Fin 0" "f64 1 = Fin 1" "f64 (- 1) = Fin (- 1)"
    using f64_small [of 0 0 0] f64_small [of 1 1 1] f64_small [of "- 1" "- 1" "- 1"] by auto
  then show ?thesis by (simp add: f64_of_int_def)
qed

lemma inc_claim [simp]:
  "inc ''claimed'' f ''claimed'' = f ''claimed'' + 1" "inc ''empty'' f ''claimed'' = f ''claimed''"
  "inc ''error'' f ''claimed'' = f ''claimed''"
  by (simp_all add: inc_def)

lemma worker_counters:
  assumes "runWorker cvt config workerID ts s = (obs, r)" and "mt_deliveryInFlight x = Fin 0"
  shows "mt_deliveryInFlight (fold observe obs x) = Fin 0 \<and>
    mt_workerClaims (fold observe obs x) ''claimed'' - mt_workerClaims x ''claimed'' =
      int (length (mt_deliveryDuration (fold observe obs x))) - int (length (mt_deliveryDuration x)) \<and>
    mt_deliveryFinishErrors x \<le> mt_deliveryFinishErrors (fold observe obs x) \<and>
    mt_deliveryFinishErrors (fold observe obs x) - mt_deliveryFinishErrors x \<le>
      int (length (mt_deliveryDuration (fold observe obs x))) - int (length (mt_deliveryDuration x))"
  using assms
proof (induction ts arbitrary: s obs r x)
  case (Cons t ts)
  obtain c s1 where c: "tk_claim t workerID (cf_LeaseDuration config) s = (c, s1)" by fastforce
  obtain obs1 r1 where r1: "runWorker cvt config workerID ts s1 = (obs1, r1)" by (meson surj_pair)
  show ?case
  proof (cases c)
    case (Inl e)
    have "mt_deliveryInFlight (Metrics_ObserveClaim ''error'' x) = Fin 0" using Cons.prems(2) by simp
    note IH = Cons.IH [OF r1 this]
    show ?thesis using Inl Cons.prems c r1 IH by (auto split: if_splits)
  next
    case (Inr jo)
    show ?thesis
    proof (cases jo)
      case None
      have "mt_deliveryInFlight (Metrics_ObserveClaim ''empty'' x) = Fin 0" using Cons.prems(2) by simp
      note IH = Cons.IH [OF r1 this]
      show ?thesis using Inr None Cons.prems c r1 IH by (auto split: if_splits)
    next
      case (Some j)
      obtain d u err s2 where p: "process cvt config workerID j t s1 = ([ObserveAttempt d u], err, s2)"
        using process_obs [of cvt config workerID j t s1] by (metis prod.collapse)
      obtain obs2 r2 where r2: "runWorker cvt config workerID ts s2 = (obs2, r2)" by (meson surj_pair)
      let ?y = "(if err = None then id else Metrics_ObserveFinishError) (Metrics_AddInFlight (f64_of_int (- 1))
        (Metrics_ObserveAttempt d u (Metrics_AddInFlight (f64_of_int 1) (Metrics_ObserveClaim ''claimed'' x))))"
      have g: "mt_deliveryInFlight ?y = Fin 0" using Cons.prems(2) gauge_up_down by simp
      have "fold observe obs x = fold observe obs2 ?y"
        using Inr Some Cons.prems(1) c p r2 by auto
      then show ?thesis using Cons.IH [OF r2 g] by (auto split: if_splits)
    qed
  qed
qed simp

text \<open>The metrics that one worker feeds are consistent between any two of its rounds: the in-flight gauge is back
  at exactly zero in floating point, every claimed job has exactly one observed attempt, and finish errors
  are counted at most once per attempt.\<close>

theorem worker_metrics_consistent:
  "let x = fold observe (fst (runWorker cvt config workerID ts s)) NewMetrics in
   mt_deliveryInFlight x = Fin 0 \<and>
   mt_workerClaims x ''claimed'' = int (length (mt_deliveryDuration x)) \<and>
   0 \<le> mt_deliveryFinishErrors x \<and> mt_deliveryFinishErrors x \<le> int (length (mt_deliveryDuration x))"
  using worker_counters [OF prod.collapse [symmetric], where x = NewMetrics]
  by (simp add: NewMetrics_def Let_def)

end
