(* ===== verification/Bench.thy ===== *)
theory Bench
  imports Endpoint_Service Event_Service Go_Strconv
begin

text \<open>
  \<^verbatim>\<open>cmd/relaybench/main.go\<close>: validation of the flags, one published event, and the report over all results.
  The parsing of the command line, \<^verbatim>\<open>url.Parse\<close>, the JSON form of a string, and the HTTP exchange with the
  time it takes are parameters. The workers send their results over a channel in any order; the report is
  a function of the list of results received.
\<close>

record bench_config =
  bc_BaseURL :: string
  bc_APIKey :: string
  bc_EndpointID :: string
  bc_EventType :: string
  bc_Requests :: int
  bc_Concurrency :: int
  bc_RequestTimeout :: duration

record bench_sample =
  sm_duration :: duration
  sm_status :: int
  sm_err :: string

record latencyReport =
  la_MinMS :: float64
  la_P50MS :: float64
  la_P95MS :: float64
  la_P99MS :: float64
  la_MaxMS :: float64

record bench_report =
  br_RunID :: string
  br_Requested :: int
  br_Completed :: int
  br_Accepted :: int
  br_Failed :: int
  br_DurationSeconds :: float64
  br_RequestsPerSecond :: float64
  br_Latency :: latencyReport
  br_StatusCodes :: "(string \<times> int) list"
  br_Errors :: "(string \<times> int) list"

section \<open>Flags\<close>

definition trim_right_slash :: "string \<Rightarrow> string" where
  "trim_right_slash s = rev (dropWhile (\<lambda>c. c = CHR ''/'') (rev s))"

text \<open>\<open>flags\<close> is the configuration after \<^verbatim>\<open>flags.Parse\<close> and the number of positional arguments.\<close>

definition parseConfig ::
  "url_env \<Rightarrow> (string \<Rightarrow> bool) \<Rightarrow> (go_error, bench_config \<times> nat) result \<Rightarrow> (go_error, bench_config) result" where
  "parseConfig env uuid_ok flags =
     bind_ok flags (\<lambda>(r, nargs).
     if nargs \<noteq> 0 then Inl (ErrNew ''unexpected positional arguments'')
     else
       let parsedURL = ue_parse env (trim_space (bc_BaseURL r)) in
       if (case parsedURL of Inl _ \<Rightarrow> True
           | Inr u \<Rightarrow> ur_Scheme u \<noteq> ''http'' \<and> ur_Scheme u \<noteq> ''https'' \<or> ur_Host u = [])
         then Inl (ErrNew ''base-url must be an absolute HTTP URL'')
       else bind_ok parsedURL (\<lambda>u.
         if ur_RawQuery u \<noteq> [] \<or> ur_Fragment u \<noteq> []
           then Inl (ErrNew ''base-url cannot contain a query or fragment'')
         else if trim_space (bc_APIKey r) = [] then Inl (ErrNew ''api-key or RELAYFORGE_API_KEY is required'')
         else if \<not> uuid_ok (bc_EndpointID r) then Inl (ErrNew ''endpoint-id must be a UUID'')
         else if \<not> eventTypePattern (trim_space (bc_EventType r))
           then Inl (ErrNew ''event-type must contain 1 to 100 safe characters'')
         else if bc_Requests r < 1 \<or> 1000000 < bc_Requests r
           then Inl (ErrNew ''requests must be between 1 and 1000000'')
         else if bc_Concurrency r < 1 \<or> 1000 < bc_Concurrency r
           then Inl (ErrNew ''concurrency must be between 1 and 1000'')
         else if bc_RequestTimeout r \<le> 0 then Inl (ErrNew ''request-timeout must be positive'')
         else Inr (r\<lparr>bc_BaseURL := trim_right_slash (ue_string env u), bc_APIKey := trim_space (bc_APIKey r),
           bc_EventType := trim_space (bc_EventType r),
           bc_Concurrency := (if bc_Requests r < bc_Concurrency r then bc_Requests r else bc_Concurrency r)\<rparr>)))"

text \<open>The values of the flags that are not given; the key comes from the environment.\<close>

definition flag_defaults :: "(string \<Rightarrow> string) \<Rightarrow> bench_config" where
  "flag_defaults getenv =
     \<lparr>bc_BaseURL = ''http://localhost:8080'', bc_APIKey = getenv ''RELAYFORGE_API_KEY'', bc_EndpointID = [],
      bc_EventType = ''relaybench.event'', bc_Requests = 1000, bc_Concurrency = 20, bc_RequestTimeout = 10 * second\<rparr>"

text \<open>\<open>parse\<close> is \<^verbatim>\<open>flags.Parse\<close>: from the defaults and the arguments to the values and the number of positional
  arguments.\<close>

definition parse_args ::
  "url_env \<Rightarrow> (string \<Rightarrow> bool) \<Rightarrow> (bench_config \<Rightarrow> string list \<Rightarrow> (go_error, bench_config \<times> nat) result) \<Rightarrow>
    (string \<Rightarrow> string) \<Rightarrow> string list \<Rightarrow> (go_error, bench_config) result" where
  "parse_args env uuid_ok parse getenv args = parseConfig env uuid_ok (parse (flag_defaults getenv) args)"

lemma defaults_accepted:
  assumes "parse (flag_defaults getenv) args = Inr ((flag_defaults getenv)\<lparr>bc_EndpointID := i\<rparr>, 0)" and "uuid_ok i"
    and "trim_space (getenv ''RELAYFORGE_API_KEY'') \<noteq> []"
    and "ue_parse env ''http://localhost:8080'' = Inr u" and "ur_Scheme u = ''http''" "ur_Host u \<noteq> []"
    and "ur_RawQuery u = []" "ur_Fragment u = []"
  shows "\<exists>cfg. parse_args env uuid_ok parse getenv args = Inr cfg \<and> bc_Requests cfg = 1000 \<and> bc_Concurrency cfg = 20"
proof -
  have t: "trim_space ''http://localhost:8080'' = ''http://localhost:8080''" "trim_space ''relaybench.event'' = ''relaybench.event''"
    by (simp_all add: trim_space_graphic graphic_def code_def)
  have "eventTypePattern ''relaybench.event''" by (simp add: alnum_def code_def)
  with assms t show ?thesis by (simp add: parse_args_def parseConfig_def flag_defaults_def)
qed

section \<open>One request\<close>

record bench_env =
  be_json :: "string \<Rightarrow> string"
  be_request_error :: "string \<Rightarrow> go_error option"
  be_do :: "http_request \<Rightarrow> duration \<times> (go_error, http_response) result"
  be_status_text :: "int \<Rightarrow> string"

definition event_body :: "bench_env \<Rightarrow> bench_config \<Rightarrow> string \<Rightarrow> int \<Rightarrow> bytes" where
  "event_body env cfg runID sequence =
     [CHR ''{'', CHR 0x22] @ ''endpoint_id'' @ [CHR 0x22, CHR '':''] @ be_json env (bc_EndpointID cfg) @
     [CHR '','', CHR 0x22] @ ''payload'' @ [CHR 0x22, CHR '':'', CHR ''{'', CHR 0x22] @ ''run_id'' @ [CHR 0x22, CHR '':''] @
     be_json env runID @ [CHR '','', CHR 0x22] @ ''sequence'' @ [CHR 0x22, CHR '':''] @ int_text sequence @
     [CHR ''}'', CHR '','', CHR 0x22] @ ''type'' @ [CHR 0x22, CHR '':''] @ be_json env (bc_EventType cfg) @ ''}''"

definition bench_publish :: "bench_env \<Rightarrow> bench_config \<Rightarrow> string \<Rightarrow> int \<Rightarrow> bench_sample" where
  "bench_publish env cfg runID sequence =
     (case be_request_error env (bc_BaseURL cfg @ ''/v1/events'') of
        Some err \<Rightarrow> \<lparr>sm_duration = 0, sm_status = 0, sm_err = error_text err\<rparr>
      | None \<Rightarrow>
         (case be_do env
             \<lparr>hq_url = bc_BaseURL cfg @ ''/v1/events'',
              hq_header = [(''Authorization'', ''Bearer '' @ bc_APIKey cfg), (''Content-Type'', ''application/json''),
                (''Idempotency-Key'', runID @ '':'' @ int_text sequence)],
              hq_body = event_body env cfg runID sequence\<rparr> of
            (took, Inl err) \<Rightarrow> \<lparr>sm_duration = took, sm_status = 0, sm_err = error_text err\<rparr>
          | (took, Inr response) \<Rightarrow>
             (case read_limited 4096 response of
                (_, Some readErr) \<Rightarrow> \<lparr>sm_duration = took, sm_status = hr_status response, sm_err = error_text readErr\<rparr>
              | (responseBody, None) \<Rightarrow>
                  if hr_status response \<noteq> 202 then
                    (let trimmed = trim_space responseBody;
                         message = (if trimmed = [] then be_status_text env (hr_status response) else trimmed)
                     in \<lparr>sm_duration = took, sm_status = hr_status response,
                         sm_err = ''http '' @ int_text (hr_status response) @ '': '' @ message\<rparr>)
                  else \<lparr>sm_duration = took, sm_status = hr_status response, sm_err = []\<rparr>)))"

section \<open>Latencies\<close>

definition milliseconds_f64 :: "duration \<Rightarrow> float64" where
  "milliseconds_f64 v = fdiv (f64_of_int v) (f64_of_int millisecond)"

fun fceil :: "float64 \<Rightarrow> float64" where
  "fceil (Fin x) = Fin (of_int \<lceil>x\<rceil>)"
| "fceil x = x"

definition percentile_index :: "(float64 \<Rightarrow> int) \<Rightarrow> nat \<Rightarrow> float64 \<Rightarrow> int" where
  "percentile_index cvt n quantile = int64_of_f64 cvt (fceil (fmul (f64_of_int (int n)) quantile)) - 1"

text \<open>\<^verbatim>\<open>values[index]\<close>: an index outside the slice panics.\<close>

definition percentile :: "(float64 \<Rightarrow> int) \<Rightarrow> duration list \<Rightarrow> float64 \<Rightarrow> duration option" where
  "percentile cvt vs quantile =
     (let index = percentile_index cvt (length vs) quantile in
      if 0 \<le> index \<and> index < int (length vs) then Some (vs ! nat index) else None)"

definition summarizeLatency :: "(float64 \<Rightarrow> int) \<Rightarrow> duration list \<Rightarrow> latencyReport option" where
  "summarizeLatency cvt vs =
     (if vs = [] then
        Some \<lparr>la_MinMS = Fin 0, la_P50MS = Fin 0, la_P95MS = Fin 0, la_P99MS = Fin 0, la_MaxMS = Fin 0\<rparr>
      else
        let s = sort vs in
        case (percentile cvt s (f64 (1 / 2)), percentile cvt s (f64 (95 / 100)), percentile cvt s (f64 (99 / 100))) of
          (Some p50, Some p95, Some p99) \<Rightarrow>
            Some \<lparr>la_MinMS = milliseconds_f64 (s ! 0), la_P50MS = milliseconds_f64 p50,
              la_P95MS = milliseconds_f64 p95, la_P99MS = milliseconds_f64 p99,
              la_MaxMS = milliseconds_f64 (s ! (length s - 1))\<rparr>
        | _ \<Rightarrow> None)"

section \<open>The report\<close>

fun count_key :: "string \<Rightarrow> (string \<times> int) list \<Rightarrow> (string \<times> int) list" where
  "count_key k [] = [(k, 1)]"
| "count_key k ((k', n) # m) = (if k' = k then (k', n + 1) # m else (k', n) # count_key k m)"

fun set_key :: "string \<Rightarrow> int \<Rightarrow> (string \<times> int) list \<Rightarrow> (string \<times> int) list" where
  "set_key k v [] = [(k, v)]"
| "set_key k v ((k', n) # m) = (if k' = k then (k', v) # m else (k', n) # set_key k v m)"

definition start_report :: "string \<Rightarrow> int \<Rightarrow> bench_report" where
  "start_report runID requested =
     \<lparr>br_RunID = runID, br_Requested = requested, br_Completed = 0, br_Accepted = 0, br_Failed = 0,
      br_DurationSeconds = Fin 0, br_RequestsPerSecond = Fin 0,
      br_Latency = \<lparr>la_MinMS = Fin 0, la_P50MS = Fin 0, la_P95MS = Fin 0, la_P99MS = Fin 0, la_MaxMS = Fin 0\<rparr>,
      br_StatusCodes = [], br_Errors = []\<rparr>"

definition add_sample :: "bench_sample \<Rightarrow> bench_report \<Rightarrow> bench_report" where
  "add_sample current r =
     (let r1 = r\<lparr>br_Completed := br_Completed r + 1\<rparr>;
          r2 = (if sm_status current \<noteq> 0
                then r1\<lparr>br_StatusCodes := count_key (int_text (sm_status current)) (br_StatusCodes r1)\<rparr> else r1)
      in if sm_err current = [] then r2\<lparr>br_Accepted := br_Accepted r2 + 1\<rparr>
         else r2\<lparr>br_Failed := br_Failed r2 + 1, br_Errors := count_key (sm_err current) (br_Errors r2)\<rparr>)"

definition count_missing :: "bench_report \<Rightarrow> bench_report" where
  "count_missing r =
     (let missing = br_Requested r - br_Completed r in
      if 0 < missing
      then r\<lparr>br_Failed := br_Failed r + missing, br_Errors := set_key ''not started'' missing (br_Errors r)\<rparr>
      else r)"

definition bench_run ::
  "(float64 \<Rightarrow> int) \<Rightarrow> string \<Rightarrow> bench_config \<Rightarrow> bench_sample list \<Rightarrow> duration \<Rightarrow> bench_report option" where
  "bench_run cvt runID cfg results elapsed =
     (let r = count_missing (fold add_sample results (start_report runID (bc_Requests cfg))) in
      map_option (\<lambda>l.
        r\<lparr>br_DurationSeconds := seconds_f64 elapsed,
          br_RequestsPerSecond :=
            (if 0 < elapsed then fdiv (f64_of_int (br_Completed r)) (seconds_f64 elapsed) else Fin 0),
          br_Latency := l\<rparr>)
        (summarizeLatency cvt (map sm_duration results)))"

section \<open>The percentiles exist\<close>

lemma quantile_range:
  assumes "1 / 2 \<le> q" and "q < 1"
  shows "f64 q = Fin (rnd64 q)" and "1 / 2 \<le> rnd64 q" and "rnd64 q \<le> 1"
proof -
  show "f64 q = Fin (rnd64 q)" "rnd64 q \<le> 1" using f64_small [of 0 q 1] assms by auto
  show "1 / 2 \<le> rnd64 q" using rnd64_ge_pow2 [of "- 1" q] assms by (simp add: pow2_def)
qed

lemma percentile_index_range:
  assumes "0 < n" and "n \<le> 1000000" and "1 / 2 \<le> q" and "q < 1"
  shows "0 \<le> percentile_index cvt n (f64 q)" and "percentile_index cvt n (f64 q) < int n"
proof -
  note q = quantile_range [OF assms(3,4)]
  let ?x = "rat_of_int (int n) * rnd64 q"
  have n: "f64_of_int (int n) = Fin (of_int (int n))"
    using f64_small [of "int n" "of_int (int n)" "int n"] assms(2) by (simp add: f64_of_int_def)
  have lo: "1 / 2 \<le> ?x" using q(2) assms(1) mult_mono [of 1 "rat_of_int (int n)" "1 / 2" "rnd64 q"] by simp
  have hi: "?x \<le> of_int (int n)" using q(3) by (simp add: mult_left_le)
  have b: "of_int 0 \<le> ?x" "\<bar>?x\<bar> < 2 ^ 53"
    using lo hi assms(2) by auto
  have x: "f64 ?x = Fin (rnd64 ?x)" "rnd64 ?x \<le> of_int (int n)"
    using f64_small [of 0 ?x "int n"] b hi assms(2) by auto
  have "1 / 2 \<le> rnd64 ?x" using rnd64_ge_pow2 [of "- 1" ?x] lo by (simp add: pow2_def)
  then have c: "1 \<le> \<lceil>rnd64 ?x\<rceil>" "\<lceil>rnd64 ?x\<rceil> \<le> int n" using x(2) by (simp_all add: le_ceiling_iff ceiling_le_iff)
  have "int64_of_f64 cvt (Fin (of_int m)) = m" if "1 \<le> m" "m \<le> int n" for m
    using that assms(2) by (simp add: trunc_rat_def)
  then have "int64_of_f64 cvt (Fin (of_int \<lceil>rnd64 ?x\<rceil>)) = \<lceil>rnd64 ?x\<rceil>" using c by blast
  then have "percentile_index cvt n (f64 q) = \<lceil>rnd64 ?x\<rceil> - 1"
    unfolding percentile_index_def n q(1) fmul.simps(1) x(1) fceil.simps(1) by simp
  with c show "0 \<le> percentile_index cvt n (f64 q)" "percentile_index cvt n (f64 q) < int n" by simp_all
qed

lemma percentile_Some:
  assumes "vs \<noteq> []" and "length vs \<le> 1000000" and "1 / 2 \<le> q" and "q < 1"
  obtains i where "percentile cvt (sort vs) (f64 q) = Some (sort vs ! i)" and "i < length vs"
proof (rule that)
  note r = percentile_index_range [of "length vs" q cvt, OF _ assms(2-4)]
  show "percentile cvt (sort vs) (f64 q) = Some (sort vs ! nat (percentile_index cvt (length vs) (f64 q)))"
    using r assms(1) by (simp add: percentile_def Let_def)
  show "nat (percentile_index cvt (length vs) (f64 q)) < length vs" using r assms(1) by simp
qed

lemma summarizeLatency_Some:
  assumes "vs \<noteq> []" and "length vs \<le> 1000000"
  shows "\<exists>p50 p95 p99. set [p50, p95, p99] \<subseteq> set vs \<and>
    (\<forall>p \<in> {p50, p95, p99}. Min (set vs) \<le> p \<and> p \<le> Max (set vs)) \<and>
    summarizeLatency cvt vs = Some
      \<lparr>la_MinMS = milliseconds_f64 (Min (set vs)), la_P50MS = milliseconds_f64 p50, la_P95MS = milliseconds_f64 p95,
       la_P99MS = milliseconds_f64 p99, la_MaxMS = milliseconds_f64 (Max (set vs))\<rparr>"
proof -
  let ?s = "sort vs"
  obtain i where i: "percentile cvt ?s (f64 (1 / 2)) = Some (?s ! i)" "i < length vs"
    by (rule percentile_Some [OF assms, of "1 / 2" cvt]) simp_all
  obtain j where j: "percentile cvt ?s (f64 (95 / 100)) = Some (?s ! j)" "j < length vs"
    by (rule percentile_Some [OF assms, of "95 / 100" cvt]) simp_all
  obtain k where k: "percentile cvt ?s (f64 (99 / 100)) = Some (?s ! k)" "k < length vs"
    by (rule percentile_Some [OF assms, of "99 / 100" cvt]) simp_all
  have mem: "?s ! m \<in> set vs" if "m < length vs" for m using that by (metis length_sort nth_mem set_sort)
  have pos: "0 < length vs" using assms(1) by simp
  have "Min (set vs) = ?s ! 0"
  proof (rule Min_eqI)
    show "?s ! 0 \<le> y" if "y \<in> set vs" for y
      using that sorted_nth_mono [of ?s 0] by (metis in_set_conv_nth le0 set_sort sorted_sort)
  qed (use mem pos in auto)
  moreover have "Max (set vs) = ?s ! (length vs - 1)"
  proof (rule Max_eqI)
    show "y \<le> ?s ! (length vs - 1)" if y: "y \<in> set vs" for y
    proof -
      obtain m where m: "m < length ?s" "y = ?s ! m" using y by (metis in_set_conv_nth set_sort)
      then show ?thesis using sorted_nth_mono [of ?s m "length vs - 1"] by simp
    qed
  qed (use mem pos in auto)
  ultimately have "summarizeLatency cvt vs = Some
      \<lparr>la_MinMS = milliseconds_f64 (Min (set vs)), la_P50MS = milliseconds_f64 (?s ! i),
       la_P95MS = milliseconds_f64 (?s ! j), la_P99MS = milliseconds_f64 (?s ! k), la_MaxMS = milliseconds_f64 (Max (set vs))\<rparr>"
    using assms(1) i(1) j(1) k(1) by (simp add: summarizeLatency_def Let_def)
  moreover have "\<forall>p \<in> {?s ! i, ?s ! j, ?s ! k}. Min (set vs) \<le> p \<and> p \<le> Max (set vs)"
    using mem i(2) j(2) k(2) by auto
  moreover have "set [?s ! i, ?s ! j, ?s ! k] \<subseteq> set vs" using mem i(2) j(2) k(2) by simp
  ultimately show ?thesis by blast
qed

text \<open>The latency summary never runs outside the slice: for up to a million results, the limit of the
  flag, the index that is computed in floating point for each quantile is within the sorted slice, so
  the summary exists and its percentiles are measured values between the minimum and the maximum.\<close>

theorem summarizeLatency_in_range:
  assumes "vs \<noteq> []" and "length vs \<le> 1000000"
  shows "\<exists>p50 p95 p99. set [p50, p95, p99] \<subseteq> set vs \<and>
    (\<forall>p \<in> {p50, p95, p99}. Min (set vs) \<le> p \<and> p \<le> Max (set vs)) \<and>
    summarizeLatency cvt vs = Some
      \<lparr>la_MinMS = milliseconds_f64 (Min (set vs)), la_P50MS = milliseconds_f64 p50, la_P95MS = milliseconds_f64 p95,
       la_P99MS = milliseconds_f64 p99, la_MaxMS = milliseconds_f64 (Max (set vs))\<rparr>"
  by (rule summarizeLatency_Some [OF assms])

theorem summarizeLatency_in_range_witness:
  "\<exists>p50 \<in> {3, 5, 8}. \<exists>l. summarizeLatency (\<lambda>_. 0) [5, 3, 8] = Some l \<and> la_P50MS l = milliseconds_f64 p50"
  using summarizeLatency_in_range [of "[5, 3, 8]" "\<lambda>_. 0"] by auto

section \<open>The report accounts for every request\<close>

definition total :: "(string \<times> int) list \<Rightarrow> int" where
  "total m = sum_list (map snd m)"

definition keys_of :: "(string \<times> int) list \<Rightarrow> string set" where
  "keys_of m = fst ` set m"

lemma total_count_key [simp]: "total (count_key k m) = total m + 1"
  by (induction k m rule: count_key.induct) (auto simp: total_def)

lemma total_set_key: "k \<notin> keys_of m \<Longrightarrow> total (set_key k v m) = total m + v"
  by (induction k v m rule: set_key.induct) (auto simp: total_def keys_of_def)

lemma keys_count_key [simp]: "keys_of (count_key k m) = insert k (keys_of m)"
  by (induction k m rule: count_key.induct) (auto simp: keys_of_def)

lemma fold_add_sample:
  assumes "fold add_sample results r = r'"
  shows "br_Completed r' = br_Completed r + int (length results) \<and> br_Requested r' = br_Requested r \<and>
    br_Accepted r' + br_Failed r' = br_Accepted r + br_Failed r + int (length results) \<and>
    br_Accepted r' = br_Accepted r + int (length (filter (\<lambda>x. sm_err x = []) results)) \<and>
    br_Failed r' - total (br_Errors r') = br_Failed r - total (br_Errors r) \<and>
    keys_of (br_Errors r') \<subseteq> keys_of (br_Errors r) \<union> sm_err ` set results"
  using assms
proof (induction results arbitrary: r)
  case (Cons x results)
  have "fold add_sample results (add_sample x r) = r'" using Cons.prems by simp
  note IH = Cons.IH [OF this]
  then show ?case by (cases "sm_err x = []") (auto simp: add_sample_def Let_def)
qed simp

text \<open>The report of the benchmark accounts for every request: with at most as many results as requests,
  accepted and failed requests add up to the requests asked for, the failures are exactly the errors
  that are listed, and what never started is among them.\<close>

theorem bench_report_accounts:
  assumes "bench_run cvt runID cfg results elapsed = Some r" and "int (length results) \<le> bc_Requests cfg"
    and "''not started'' \<notin> sm_err ` set results"
  shows "br_Accepted r + br_Failed r = bc_Requests cfg \<and> br_Completed r = int (length results) \<and>
    total (br_Errors r) = br_Failed r \<and>
    br_Accepted r = int (length (filter (\<lambda>x. sm_err x = []) results))"
proof -
  let ?f = "fold add_sample results (start_report runID (bc_Requests cfg))"
  note f = fold_add_sample [of results "start_report runID (bc_Requests cfg)" ?f, OF refl]
  have keys: "''not started'' \<notin> keys_of (br_Errors ?f)"
    using f assms(3) by (auto simp: start_report_def keys_of_def [of "[]"])
  have eq: "br_Accepted r = br_Accepted (count_missing ?f)" "br_Failed r = br_Failed (count_missing ?f)"
    "br_Completed r = br_Completed (count_missing ?f)" "br_Errors r = br_Errors (count_missing ?f)"
    using assms(1) by (auto simp: bench_run_def Let_def)
  show ?thesis
    using f keys assms(2) total_set_key [OF keys]
    by (auto simp: eq count_missing_def Let_def start_report_def total_def)
qed

theorem bench_report_accounts_witness:
  "\<exists>r. bench_run (\<lambda>_. 0) ''run'' \<lparr>bc_BaseURL = [], bc_APIKey = [], bc_EndpointID = [], bc_EventType = [], bc_Requests = 3,
      bc_Concurrency = 1, bc_RequestTimeout = 1\<rparr>
      [\<lparr>sm_duration = 5, sm_status = 202, sm_err = []\<rparr>, \<lparr>sm_duration = 7, sm_status = 500, sm_err = ''http 500: x''\<rparr>] 10 = Some r \<and>
    br_Accepted r = 1 \<and> br_Failed r = 2"
proof -
  let ?cfg = "\<lparr>bc_BaseURL = [], bc_APIKey = [], bc_EndpointID = [], bc_EventType = [], bc_Requests = 3,
      bc_Concurrency = 1, bc_RequestTimeout = 1\<rparr>"
  let ?rs = "[\<lparr>sm_duration = 5, sm_status = 202, sm_err = []\<rparr>, \<lparr>sm_duration = 7, sm_status = 500, sm_err = ''http 500: x''\<rparr>]"
  have "\<exists>p. percentile (\<lambda>_. 0) (sort [5, 7]) (f64 q) = Some p" if "1 / 2 \<le> q" "q < 1" for q
    by (rule percentile_Some [of "[5, 7]" q "\<lambda>_. 0"]) (use that in auto)
  from this [of "1 / 2"] this [of "95 / 100"] this [of "99 / 100"]
  have "\<exists>l. summarizeLatency (\<lambda>_. 0) [5, 7] = Some l" by (auto simp: summarizeLatency_def Let_def)
  then obtain r where r: "bench_run (\<lambda>_. 0) ''run'' ?cfg ?rs 10 = Some r" by (auto simp: bench_run_def Let_def)
  from bench_report_accounts [OF r] r show ?thesis by auto
qed

end
