(* ===== verification/Bench_Run.thy ===== *)
theory Bench_Run
  imports Bench Systems "HOL-Library.Multiset"
begin

text \<open>
  The goroutines of the benchmark's \<^verbatim>\<open>run\<close>: one feeds sequence numbers into the unbuffered channel
  \<^verbatim>\<open>jobs\<close> until it has offered all of them or the context is cancelled, \<^verbatim>\<open>Concurrency\<close> workers publish, one
  closes \<^verbatim>\<open>results\<close> after the last worker has left, and the main goroutine receives until then. A step is a
  communication or one call of \<^verbatim>\<open>publish\<close>, which returns because its request has a timeout; what the
  network answers is free at every call. Results carry their sequence number in the model, which the
  report does not look at.
\<close>

datatype feeder = Offering int | Stopped int

datatype bench_worker = Waiting | Publishing int | Delivering "int \<times> bench_sample" | Gone

record bench_state =
  bn_feeder :: feeder
  bn_workers :: "bench_worker list"
  bn_results :: "(int \<times> bench_sample) list"
  bn_closed :: bool
  bn_received :: "(int \<times> bench_sample) list"
  bn_ended :: bool
  bn_cancelled :: bool

definition bench_start :: "bench_config \<Rightarrow> bench_state" where
  "bench_start cfg =
     \<lparr>bn_feeder = Offering 1, bn_workers = replicate (nat (bc_Concurrency cfg)) Waiting, bn_results = [],
      bn_closed = False, bn_received = [], bn_ended = False, bn_cancelled = False\<rparr>"

text \<open>The capacity of \<^verbatim>\<open>results\<close> is the concurrency; a send waits while the channel is full.\<close>

inductive bench_step :: "bench_env \<Rightarrow> bench_config \<Rightarrow> string \<Rightarrow> bench_state \<Rightarrow> bench_state \<Rightarrow> bool"
  for env :: bench_env and cfg :: bench_config and runID :: string where
  hand_over: "bn_feeder s = Offering n \<Longrightarrow> n \<le> bc_Requests cfg \<Longrightarrow> i < length (bn_workers s) \<Longrightarrow> bn_workers s ! i = Waiting
    \<Longrightarrow> bench_step env cfg runID s (s\<lparr>bn_feeder := Offering (n + 1), bn_workers := (bn_workers s)[i := Publishing n]\<rparr>)"
| all_offered: "bn_feeder s = Offering n \<Longrightarrow> bc_Requests cfg < n
    \<Longrightarrow> bench_step env cfg runID s (s\<lparr>bn_feeder := Stopped n\<rparr>)"
| interrupted: "bn_feeder s = Offering n \<Longrightarrow> n \<le> bc_Requests cfg \<Longrightarrow> bn_cancelled s
    \<Longrightarrow> bench_step env cfg runID s (s\<lparr>bn_feeder := Stopped n\<rparr>)"
| published: "i < length (bn_workers s) \<Longrightarrow> bn_workers s ! i = Publishing n
    \<Longrightarrow> x = bench_publish (env\<lparr>be_do := network\<rparr>) cfg runID n
    \<Longrightarrow> bench_step env cfg runID s (s\<lparr>bn_workers := (bn_workers s)[i := Delivering (n, x)]\<rparr>)"
| sent: "i < length (bn_workers s) \<Longrightarrow> bn_workers s ! i = Delivering p
    \<Longrightarrow> int (length (bn_results s)) < bc_Concurrency cfg
    \<Longrightarrow> bench_step env cfg runID s (s\<lparr>bn_workers := (bn_workers s)[i := Waiting], bn_results := bn_results s @ [p]\<rparr>)"
| left: "bn_feeder s = Stopped n \<Longrightarrow> i < length (bn_workers s) \<Longrightarrow> bn_workers s ! i = Waiting
    \<Longrightarrow> bench_step env cfg runID s (s\<lparr>bn_workers := (bn_workers s)[i := Gone]\<rparr>)"
| closed: "list_all (\<lambda>w. w = Gone) (bn_workers s) \<Longrightarrow> \<not> bn_closed s
    \<Longrightarrow> bench_step env cfg runID s (s\<lparr>bn_closed := True\<rparr>)"
| received: "bn_results s = p # ps
    \<Longrightarrow> bench_step env cfg runID s (s\<lparr>bn_results := ps, bn_received := bn_received s @ [p]\<rparr>)"
| ended: "bn_results s = [] \<Longrightarrow> bn_closed s \<Longrightarrow> \<not> bn_ended s
    \<Longrightarrow> bench_step env cfg runID s (s\<lparr>bn_ended := True\<rparr>)"
| cancelled: "\<not> bn_cancelled s \<Longrightarrow> bench_step env cfg runID s (s\<lparr>bn_cancelled := True\<rparr>)"

text \<open>The exit status of \<^verbatim>\<open>main\<close>: 2 for bad flags, 1 if the report cannot be written, the run was interrupted or a
  request failed.\<close>

definition bench_main ::
  "(go_error, bench_config) result \<Rightarrow> (bench_config \<Rightarrow> bench_report \<times> go_error option) \<Rightarrow>
    (bench_report \<Rightarrow> go_error option) \<Rightarrow> int" where
  "bench_main parsed runIt encode =
     (case parsed of Inl _ \<Rightarrow> 2
      | Inr cfg \<Rightarrow>
         (case runIt cfg of (r, runErr) \<Rightarrow>
            if encode r \<noteq> None then 1 else if runErr \<noteq> None then 1 else if 0 < br_Failed r then 1 else 0))"

section \<open>Every run ends\<close>

fun worker_weight :: "bench_worker \<Rightarrow> nat" where
  "worker_weight Gone = 0"
| "worker_weight Waiting = 1"
| "worker_weight (Delivering _) = 3"
| "worker_weight (Publishing _) = 4"

fun feeder_weight :: "int \<Rightarrow> feeder \<Rightarrow> nat" where
  "feeder_weight requests (Offering n) = 4 * nat (requests + 1 - n) + 1"
| "feeder_weight requests (Stopped n) = 0"

definition bench_weight :: "bench_config \<Rightarrow> bench_state \<Rightarrow> nat" where
  "bench_weight cfg s = feeder_weight (bc_Requests cfg) (bn_feeder s) + (\<Sum>w\<leftarrow>bn_workers s. worker_weight w) +
     length (bn_results s) + of_bool (\<not> bn_closed s) + of_bool (\<not> bn_ended s) + of_bool (\<not> bn_cancelled s)"

lemma sum_list_map_update:
  fixes f :: "'a \<Rightarrow> 'b::comm_monoid_add"
  assumes "i < length xs"
  shows "sum_list (map f (xs[i := y])) + f (xs ! i) = sum_list (map f xs) + f y"
  using assms by (induction xs arbitrary: i) (auto simp: ac_simps split: nat.splits)

lemma bench_step_weight: "bench_step env cfg runID s t \<Longrightarrow> bench_weight cfg t < bench_weight cfg s"
proof (induction rule: bench_step.induct)
  case (hand_over s n i)
  have "nat (bc_Requests cfg + 1 - n) = Suc (nat (bc_Requests cfg + 1 - (n + 1)))" using hand_over(2) by simp
  with hand_over sum_list_map_update [OF hand_over(3), of worker_weight "Publishing n"]
  show ?case by (simp add: bench_weight_def)
next
  case (published i s n x network)
  with sum_list_map_update [OF published(1), of worker_weight "Delivering (n, x)"]
  show ?case by (simp add: bench_weight_def)
next
  case (sent i s p)
  with sum_list_map_update [OF sent(1), of worker_weight Waiting]
  show ?case by (simp add: bench_weight_def)
next
  case (left s n i)
  with sum_list_map_update [OF left(2), of worker_weight Gone]
  show ?case by (simp add: bench_weight_def)
qed (simp_all add: bench_weight_def)

lemma bench_start_weight:
  "bench_weight cfg (bench_start cfg) = 4 * nat (bc_Requests cfg) + nat (bc_Concurrency cfg) + 4"
  by (simp add: bench_weight_def bench_start_def sum_list_replicate)

lemma bench_steps_bounded:
  assumes "(bench_step env cfg runID ^^ n) s t"
  shows "n + bench_weight cfg t \<le> bench_weight cfg s"
  using assms
proof (induction n arbitrary: t)
  case (Suc n)
  then obtain u where "(bench_step env cfg runID ^^ n) s u" "bench_step env cfg runID u t" by auto
  with Suc.IH bench_step_weight show ?case by fastforce
qed simp

section \<open>Every sequence number is published once\<close>

fun held :: "bench_worker \<Rightarrow> int multiset" where
  "held (Publishing n) = {#n#}"
| "held (Delivering p) = {#fst p#}"
| "held _ = {#}"

fun next_sequence :: "feeder \<Rightarrow> int" where
  "next_sequence (Offering n) = n"
| "next_sequence (Stopped n) = n"

definition answered_by :: "bench_env \<Rightarrow> bench_config \<Rightarrow> string \<Rightarrow> int \<times> bench_sample \<Rightarrow> bool" where
  "answered_by env cfg runID p \<longleftrightarrow> (\<exists>network. snd p = bench_publish (env\<lparr>be_do := network\<rparr>) cfg runID (fst p))"

definition sequences_inv :: "bench_config \<Rightarrow> bench_state \<Rightarrow> bool" where
  "sequences_inv cfg s \<longleftrightarrow>
     1 \<le> next_sequence (bn_feeder s) \<and> next_sequence (bn_feeder s) \<le> bc_Requests cfg + 1 \<and>
     mset (map fst (bn_received s @ bn_results s)) + (\<Sum>w\<leftarrow>bn_workers s. held w) = mset [1..next_sequence (bn_feeder s) - 1] \<and>
     (\<forall>n. bn_feeder s = Stopped n \<longrightarrow> \<not> bn_cancelled s \<longrightarrow> n = bc_Requests cfg + 1)"

definition phases_inv :: "bench_config \<Rightarrow> bench_state \<Rightarrow> bool" where
  "phases_inv cfg s \<longleftrightarrow>
     length (bn_workers s) = nat (bc_Concurrency cfg) \<and>
     (Gone \<in> set (bn_workers s) \<longrightarrow> (\<exists>n. bn_feeder s = Stopped n)) \<and>
     (bn_closed s \<longrightarrow> list_all (\<lambda>w. w = Gone) (bn_workers s)) \<and>
     (bn_ended s \<longrightarrow> bn_closed s \<and> bn_results s = [])"

definition answers_inv :: "bench_env \<Rightarrow> bench_config \<Rightarrow> string \<Rightarrow> bench_state \<Rightarrow> bool" where
  "answers_inv env cfg runID s \<longleftrightarrow>
     (\<forall>p. p \<in> set (bn_received s @ bn_results s) \<or> Delivering p \<in> set (bn_workers s) \<longrightarrow> answered_by env cfg runID p)"

lemma nothing_held: "(\<And>w. w \<in> set ws \<Longrightarrow> held w = {#}) \<Longrightarrow> (\<Sum>w\<leftarrow>ws. held w) = {#}"
  by (induction ws) auto

lemma upto_snoc: "1 \<le> n \<Longrightarrow> mset [1..n] = add_mset n (mset [1..n - 1])"
  by (simp add: upto_rec2)

lemma sequences_inv_step: "bench_step env cfg runID s t \<Longrightarrow> sequences_inv cfg s \<Longrightarrow> sequences_inv cfg t"
proof (induction rule: bench_step.induct)
  case (hand_over s n i)
  with sum_list_map_update [OF hand_over(3), of held "Publishing n"] upto_snoc [of n]
  show ?case by (simp add: sequences_inv_def)
next
  case (published i s n x network)
  with sum_list_map_update [OF published(1), of held "Delivering (n, x)"]
  show ?case by (simp add: sequences_inv_def)
next
  case (sent i s p)
  have "(\<Sum>w\<leftarrow>bn_workers s. held w) = add_mset (fst p) (\<Sum>w\<leftarrow>(bn_workers s)[i := Waiting]. held w)"
    using sum_list_map_update [OF sent(1), of held Waiting] sent(2) by simp
  with sent show ?case by (simp add: sequences_inv_def)
next
  case (left s n i)
  with sum_list_map_update [OF left(2), of held Gone]
  show ?case by (simp add: sequences_inv_def)
qed (auto simp: sequences_inv_def)

lemma left_stays: "list_all (\<lambda>w. w = Gone) ws \<Longrightarrow> i < length ws \<Longrightarrow> ws ! i = Gone"
  by (simp add: list_all_length)

lemma phases_inv_step: "bench_step env cfg runID s t \<Longrightarrow> phases_inv cfg s \<Longrightarrow> phases_inv cfg t"
proof (induction rule: bench_step.induct)
  case (hand_over s n i)
  then show ?case using set_update_subset_insert [of "bn_workers s" i "Publishing n"] left_stays
    by (fastforce simp: phases_inv_def)
next
  case (published i s n x network)
  then show ?case using set_update_subset_insert [of "bn_workers s" i "Delivering (n, x)"] left_stays
    by (fastforce simp: phases_inv_def)
next
  case (sent i s p)
  then show ?case using set_update_subset_insert [of "bn_workers s" i Waiting] left_stays
    by (fastforce simp: phases_inv_def)
next
  case (left s n i)
  then show ?case using left_stays by (fastforce simp: phases_inv_def)
qed (auto simp: phases_inv_def)

lemma answers_inv_step: "bench_step env cfg runID s t \<Longrightarrow> answers_inv env cfg runID s \<Longrightarrow> answers_inv env cfg runID t"
proof (induction rule: bench_step.induct)
  case (hand_over s n i)
  then show ?case using set_update_subset_insert [of "bn_workers s" i "Publishing n"]
    by (fastforce simp: answers_inv_def)
next
  case (published i s n x network)
  have "answered_by env cfg runID (n, x)" using published(3) by (auto simp: answered_by_def)
  with published show ?case using set_update_subset_insert [of "bn_workers s" i "Delivering (n, x)"]
    by (fastforce simp: answers_inv_def)
next
  case (sent i s p)
  then have "Delivering p \<in> set (bn_workers s)" using nth_mem by fastforce
  with sent show ?case using set_update_subset_insert [of "bn_workers s" i Waiting]
    by (fastforce simp: answers_inv_def)
next
  case (left s n i)
  then show ?case using set_update_subset_insert [of "bn_workers s" i Gone]
    by (fastforce simp: answers_inv_def)
qed (auto simp: answers_inv_def)

definition bench_inv :: "bench_env \<Rightarrow> bench_config \<Rightarrow> string \<Rightarrow> bench_state \<Rightarrow> bool" where
  "bench_inv env cfg runID s \<longleftrightarrow> sequences_inv cfg s \<and> phases_inv cfg s \<and> answers_inv env cfg runID s"

lemma bench_start_inv: "1 \<le> bc_Requests cfg \<Longrightarrow> bench_inv env cfg runID (bench_start cfg)"
  using nothing_held [of "replicate (nat (bc_Concurrency cfg)) Waiting"]
  by (auto simp: bench_inv_def sequences_inv_def phases_inv_def answers_inv_def bench_start_def)

interpretation bench: invariant_system
  "\<lambda>s. s = bench_start cfg \<and> 1 \<le> bc_Requests cfg" "bench_step env cfg runID" "bench_inv env cfg runID"
  for env cfg runID
proof unfold_locales
  show "bench_inv env cfg runID s" if "s = bench_start cfg \<and> 1 \<le> bc_Requests cfg" for s
    using that bench_start_inv by blast
  show "bench_inv env cfg runID t" if "bench_inv env cfg runID s" "bench_step env cfg runID s t" for s t
    using that unfolding bench_inv_def by (blast intro: sequences_inv_step phases_inv_step answers_inv_step)
qed

lemma bench_progress:
  assumes "phases_inv cfg s" and "1 \<le> bc_Concurrency cfg" and "\<not> bn_ended s"
  shows "\<exists>t. bench_step env cfg runID s t \<and> bn_cancelled t = bn_cancelled s"
proof -
  have some: "bn_workers s \<noteq> []" using assms(1,2) by (auto simp: phases_inv_def)
  consider (buffered) p ps where "bn_results s = p # ps"
    | (working) i where "bn_results s = []" "i < length (bn_workers s)" "\<exists>n. bn_workers s ! i = Publishing n"
    | (waiting) i where "bn_results s = []" "i < length (bn_workers s)" "bn_workers s ! i = Waiting"
    | (sending) i p where "bn_results s = []" "i < length (bn_workers s)" "bn_workers s ! i = Delivering p"
    | (gone) "bn_results s = []" "list_all (\<lambda>w. w = Gone) (bn_workers s)"
    unfolding list_all_length by (metis bench_worker.exhaust neq_Nil_conv)
  then show ?thesis
  proof cases
    case (buffered p ps)
    then show ?thesis using bench_step.received [OF buffered, of env cfg runID] by force
  next
    case (working i)
    then obtain n where "bn_workers s ! i = Publishing n" by blast
    from bench_step.published [OF working(2) this refl, of env cfg runID "be_do env"] show ?thesis by force
  next
    case (sending i p)
    then show ?thesis using bench_step.sent [OF sending(2,3), of cfg env runID] assms(2) by force
  next
    case (waiting i)
    show ?thesis
    proof (cases "bn_feeder s")
      case (Offering n)
      then show ?thesis using bench_step.hand_over [OF Offering _ waiting(2,3), of cfg env runID]
          bench_step.all_offered [OF Offering, of cfg env runID]
        by (cases "n \<le> bc_Requests cfg") (force simp: not_le)+
    next
      case (Stopped n)
      then show ?thesis using bench_step.left [OF Stopped waiting(2,3), of env cfg runID] by force
    qed
  next
    case gone
    then show ?thesis using bench_step.closed [of s env cfg runID] bench_step.ended [of s env cfg runID] assms(3)
      by (cases "bn_closed s") force+
  qed
qed

lemma bench_ended:
  assumes "bench_inv env cfg runID s" and "bn_ended s"
  shows "mset (map fst (bn_received s)) = mset [1..next_sequence (bn_feeder s) - 1]"
    and "next_sequence (bn_feeder s) \<le> bc_Requests cfg + 1"
    and "1 \<le> bc_Concurrency cfg \<Longrightarrow> \<not> bn_cancelled s \<Longrightarrow> next_sequence (bn_feeder s) = bc_Requests cfg + 1"
proof -
  have ph: "list_all (\<lambda>w. w = Gone) (bn_workers s)" "bn_results s = []"
    using assms by (auto simp: bench_inv_def phases_inv_def)
  have "(\<Sum>w\<leftarrow>bn_workers s. held w) = {#}" using ph(1) by (intro nothing_held) (auto simp: list_all_iff)
  then show "mset (map fst (bn_received s)) = mset [1..next_sequence (bn_feeder s) - 1]"
    using assms(1) ph(2) by (auto simp: bench_inv_def sequences_inv_def)
  show "next_sequence (bn_feeder s) \<le> bc_Requests cfg + 1"
    using assms(1) by (auto simp: bench_inv_def sequences_inv_def)
  show "next_sequence (bn_feeder s) = bc_Requests cfg + 1" if "1 \<le> bc_Concurrency cfg" "\<not> bn_cancelled s"
  proof -
    have "bn_workers s \<noteq> []" using assms(1) that(1) by (auto simp: bench_inv_def phases_inv_def)
    then have "Gone \<in> set (bn_workers s)" using ph(1) by (auto simp: list_all_iff neq_Nil_conv)
    then obtain n where "bn_feeder s = Stopped n" using assms(1) by (auto simp: bench_inv_def phases_inv_def)
    then show ?thesis using assms(1) that(2) by (auto simp: bench_inv_def sequences_inv_def)
  qed
qed

section \<open>The report at the end\<close>

lemma parseConfig_limits:
  assumes "parseConfig uenv uuid_ok flags = Inr cfg"
  shows "1 \<le> bc_Requests cfg" and "bc_Requests cfg \<le> 1000000" and "1 \<le> bc_Concurrency cfg"
  using assms by (auto simp: parseConfig_def bind_ok_Inr_iff Let_def split: sum.splits prod.splits if_splits)

lemma summarizeLatency_exists: "length vs \<le> 1000000 \<Longrightarrow> \<exists>l. summarizeLatency cvt vs = Some l"
  using summarizeLatency_Some [of vs cvt] by (cases "vs = []") (auto simp: summarizeLatency_def)

lemma bench_report_totals:
  assumes "length results \<le> 1000000" and "int (length results) \<le> bc_Requests cfg"
  shows "\<exists>r. bench_run cvt runID cfg results elapsed = Some r \<and> br_Accepted r + br_Failed r = bc_Requests cfg \<and>
    br_Completed r = int (length results) \<and> br_Accepted r = int (length (filter (\<lambda>x. sm_err x = []) results))"
proof -
  let ?f = "fold add_sample results (start_report runID (bc_Requests cfg))"
  have "\<exists>r. bench_run cvt runID cfg results elapsed = Some r"
    using summarizeLatency_exists [of "map sm_duration results"] assms(1) by (auto simp: bench_run_def Let_def)
  with fold_add_sample [of results "start_report runID (bc_Requests cfg)" ?f, OF refl] assms(2)
  show ?thesis by (auto simp: bench_run_def count_missing_def start_report_def Let_def)
qed

lemma all_accepted:
  assumes "length results \<le> length (filter (\<lambda>x. sm_err x = []) results)" and "x \<in> set results"
  shows "sm_err x = []"
proof (rule ccontr)
  assume "sm_err x \<noteq> []"
  then have "length (filter (\<lambda>x. sm_err x = []) results) < length results"
    using assms(2) by (intro length_filter_less)
  with assms(1) show False by simp
qed

lemma bench_exit_success:
  assumes "br_Accepted r + br_Failed r = bc_Requests cfg" and "br_Accepted r = int (length (filter (\<lambda>x. sm_err x = []) results))"
    and "int (length results) \<le> bc_Requests cfg" and "bench_main (Inr cfg) (\<lambda>_. (r, runErr)) encode = 0"
  shows "br_Accepted r = bc_Requests cfg" and "x \<in> set results \<Longrightarrow> sm_err x = []"
proof -
  have "br_Failed r \<le> 0" using assms(4) by (simp add: bench_main_def split: if_splits)
  then have all: "length results \<le> length (filter (\<lambda>x. sm_err x = []) results)" "br_Accepted r = bc_Requests cfg"
    using assms(1-3) length_filter_le [of "\<lambda>x. sm_err x = []" results] by linarith+
  show "br_Accepted r = bc_Requests cfg" by (rule all(2))
  show "sm_err x = []" if "x \<in> set results" using all_accepted [OF all(1) that] .
qed

text \<open>C40. The benchmark always finishes and loses nothing. With flags that were accepted, whatever the network answers,
  however the goroutines interleave and whenever a signal arrives: a run makes at most four steps per
  request and one per worker, plus four, and is never stuck before the main goroutine has seen the end of
  the results; at that point every sequence number was published at most once, and exactly once without
  a signal, each result being what \<^verbatim>\<open>publish\<close> returned for its number; the report exists (no index runs out
  of range), accounts for all requests, and the exit status is 0 only if every request was accepted.\<close>

theorem bench_run_completes:
  assumes "parseConfig uenv uuid_ok flags = Inr cfg"
    and "(bench_step env cfg runID ^^ n) (bench_start cfg) s"
  shows "n \<le> 4 * nat (bc_Requests cfg) + nat (bc_Concurrency cfg) + 4 \<and>
    (\<not> bn_ended s \<longrightarrow> (\<exists>t. bench_step env cfg runID s t \<and> bn_cancelled t = bn_cancelled s)) \<and>
    (bn_ended s \<longrightarrow>
       distinct (map fst (bn_received s)) \<and> set (map fst (bn_received s)) \<subseteq> {1..bc_Requests cfg} \<and>
       (\<not> bn_cancelled s \<longrightarrow> set (map fst (bn_received s)) = {1..bc_Requests cfg}) \<and>
       (\<forall>p \<in> set (bn_received s). answered_by env cfg runID p) \<and>
       (\<exists>r. bench_run cvt runID cfg (map snd (bn_received s)) elapsed = Some r \<and>
          br_Accepted r + br_Failed r = bc_Requests cfg \<and> br_Completed r = int (length (bn_received s)) \<and>
          (bench_main (Inr cfg) (\<lambda>_. (r, runErr)) encode = 0 \<longrightarrow>
             br_Accepted r = bc_Requests cfg \<and> (\<forall>p \<in> set (bn_received s). sm_err (snd p) = []))))"
proof -
  note lim = parseConfig_limits [OF assms(1)]
  have inv: "bench_inv env cfg runID s"
    using bench.steps_inv [OF relpowp_imp_rtranclp [OF assms(2)]] bench_start_inv [OF lim(1)] by blast
  have "n \<le> 4 * nat (bc_Requests cfg) + nat (bc_Concurrency cfg) + 4"
    using bench_steps_bounded [OF assms(2)] bench_start_weight [of cfg] by linarith
  moreover have "\<not> bn_ended s \<longrightarrow> (\<exists>t. bench_step env cfg runID s t \<and> bn_cancelled t = bn_cancelled s)"
    using bench_progress inv lim(3) by (auto simp: bench_inv_def)
  moreover have fin: "distinct (map fst (bn_received s)) \<and> set (map fst (bn_received s)) \<subseteq> {1..bc_Requests cfg} \<and>
      (\<not> bn_cancelled s \<longrightarrow> set (map fst (bn_received s)) = {1..bc_Requests cfg})" if "bn_ended s"
  proof -
    note e = bench_ended [OF inv that]
    have "set (map fst (bn_received s)) = {1..next_sequence (bn_feeder s) - 1}"
      using mset_eq_setD [OF e(1)] by simp
    moreover have "distinct (map fst (bn_received s))" using mset_eq_imp_distinct_iff [OF e(1)] by simp
    ultimately show ?thesis using e(2) e(3) [OF lim(3)] by auto
  qed
  moreover have "\<exists>r. bench_run cvt runID cfg (map snd (bn_received s)) elapsed = Some r \<and>
      br_Accepted r + br_Failed r = bc_Requests cfg \<and> br_Completed r = int (length (bn_received s)) \<and>
      (bench_main (Inr cfg) (\<lambda>_. (r, runErr)) encode = 0 \<longrightarrow>
         br_Accepted r = bc_Requests cfg \<and> (\<forall>p \<in> set (bn_received s). sm_err (snd p) = []))" if "bn_ended s"
  proof -
    let ?xs = "map snd (bn_received s)"
    have "card (set (map fst (bn_received s))) \<le> card {1..bc_Requests cfg}" using fin [OF that] by (intro card_mono) auto
    then have "int (length ?xs) \<le> bc_Requests cfg" using fin [OF that] lim(1) by (simp add: distinct_card del: set_map)
    then obtain r where r: "bench_run cvt runID cfg ?xs elapsed = Some r" "br_Accepted r + br_Failed r = bc_Requests cfg"
      "br_Completed r = int (length ?xs)" "br_Accepted r = int (length (filter (\<lambda>x. sm_err x = []) ?xs))"
      using bench_report_totals [of ?xs cfg cvt runID elapsed] lim(2) by auto
    note exit = bench_exit_success [OF r(2,4) \<open>int (length ?xs) \<le> bc_Requests cfg\<close>]
    show ?thesis using r(1-3) exit by (intro exI [of _ r]) fastforce
  qed
  moreover have "\<forall>p \<in> set (bn_received s). answered_by env cfg runID p"
    using inv by (auto simp: bench_inv_def answers_inv_def)
  ultimately show ?thesis by blast
qed

definition sample_bench :: bench_config where
  "sample_bench = \<lparr>bc_BaseURL = ''https://h.io:8443'', bc_APIKey = ''key'', bc_EndpointID = ''id'', bc_EventType = ''t'',
     bc_Requests = 1, bc_Concurrency = 1, bc_RequestTimeout = second\<rparr>"

definition sample_bench_env :: bench_env where
  "sample_bench_env = \<lparr>be_json = (\<lambda>x. x), be_request_error = (\<lambda>_. None),
     be_do = (\<lambda>_. (5, Inr \<lparr>hr_status = 202, hr_body = [], hr_error = None\<rparr>)), be_status_text = (\<lambda>_. [])\<rparr>"

definition bench_at :: "feeder \<Rightarrow> bench_worker \<Rightarrow> (int \<times> bench_sample) list \<Rightarrow> bool \<Rightarrow> (int \<times> bench_sample) list \<Rightarrow> bool \<Rightarrow> bench_state" where
  "bench_at f w results cl received e =
     \<lparr>bn_feeder = f, bn_workers = [w], bn_results = results, bn_closed = cl, bn_received = received, bn_ended = e,
      bn_cancelled = False\<rparr>"

lemma sample_bench_steps:
  defines "p \<equiv> (1, bench_publish sample_bench_env sample_bench ''run'' 1)"
  shows "(bench_step sample_bench_env sample_bench ''run'' ^^ 8) (bench_start sample_bench) (bench_at (Stopped 2) Gone [] True [p] True)"
proof -
  let ?R = "bench_step sample_bench_env sample_bench ''run''"
  note d = bench_at_def sample_bench_def
  have 1: "?R (bench_start sample_bench) (bench_at (Offering 2) (Publishing 1) [] False [] False)"
    using bench_step.hand_over [of "bench_start sample_bench" 1 sample_bench 0] by (simp add: bench_start_def d)
  have 2: "?R (bench_at (Offering 2) (Publishing 1) [] False [] False) (bench_at (Offering 2) (Delivering p) [] False [] False)"
    using bench_step.published [where s = "bench_at (Offering 2) (Publishing 1) [] False [] False" and i = 0 and n = 1
        and env = sample_bench_env and network = "be_do sample_bench_env", OF _ _ refl] by (simp add: d p_def)
  have 3: "?R (bench_at (Offering 2) (Delivering p) [] False [] False) (bench_at (Offering 2) Waiting [p] False [] False)"
    using bench_step.sent [of 0 "bench_at (Offering 2) (Delivering p) [] False [] False" p sample_bench] by (simp add: d)
  have 4: "?R (bench_at (Offering 2) Waiting [p] False [] False) (bench_at (Stopped 2) Waiting [p] False [] False)"
    using bench_step.all_offered [of "bench_at (Offering 2) Waiting [p] False [] False" 2 sample_bench] by (simp add: d)
  have 5: "?R (bench_at (Stopped 2) Waiting [p] False [] False) (bench_at (Stopped 2) Gone [p] False [] False)"
    using bench_step.left [of "bench_at (Stopped 2) Waiting [p] False [] False" 2 0] by (simp add: d)
  have 6: "?R (bench_at (Stopped 2) Gone [p] False [] False) (bench_at (Stopped 2) Gone [p] True [] False)"
    using bench_step.closed [of "bench_at (Stopped 2) Gone [p] False [] False"] by (simp add: d)
  have 7: "?R (bench_at (Stopped 2) Gone [p] True [] False) (bench_at (Stopped 2) Gone [] True [p] False)"
    using bench_step.received [of "bench_at (Stopped 2) Gone [p] True [] False" p "[]"] by (simp add: d)
  have 8: "?R (bench_at (Stopped 2) Gone [] True [p] False) (bench_at (Stopped 2) Gone [] True [p] True)"
    using bench_step.ended [of "bench_at (Stopped 2) Gone [] True [p] False"] by (simp add: d)
  have "?R ^^ 8 = ?R ^^ Suc (Suc (Suc (Suc (Suc (Suc (Suc (Suc 0)))))))" by (simp add: eval_nat_numeral)
  then show ?thesis
    using relpowp_Suc_I [where P = ?R, OF relpowp_Suc_I [where P = ?R, OF relpowp_Suc_I [where P = ?R, OF
        relpowp_Suc_I [where P = ?R, OF relpowp_Suc_I [where P = ?R, OF relpowp_Suc_I [where P = ?R, OF
        relpowp_Suc_I [where P = ?R, OF relpowp_Suc_I [where P = ?R, OF relpowp_0_I 1] 2] 3] 4] 5] 6] 7] 8]
    by simp
qed

theorem bench_run_completes_witness:
  "\<exists>s r. (bench_step sample_bench_env sample_bench ''run'' ^^ 8) (bench_start sample_bench) s \<and> bn_ended s \<and>
    set (map fst (bn_received s)) = {1} \<and>
    bench_run (\<lambda>_. 0) ''run'' sample_bench (map snd (bn_received s)) 10 = Some r \<and> br_Accepted r + br_Failed r = 1"
proof -
  let ?s = "bench_at (Stopped 2) Gone [] True [(1, bench_publish sample_bench_env sample_bench ''run'' 1)] True"
  have t: "trim_space ''https://h.io:8443'' = ''https://h.io:8443''" "trim_space ''key'' = ''key''" "trim_space ''t'' = ''t''"
    by (simp_all add: trim_space_graphic graphic_def code_def)
  have p: "eventTypePattern ''t''" by (simp add: alnum_def code_def)
  have "parseConfig sample_urls (\<lambda>_. True) (Inr (sample_bench, 0)) = Inr sample_bench"
    using t p by (simp add: parseConfig_def sample_bench_def sample_urls_def sample_url_def trim_right_slash_def)
  from bench_run_completes [OF this sample_bench_steps, where cvt = "\<lambda>_. 0" and elapsed = 10]
  obtain r where "set (map fst (bn_received ?s)) = {1}"
    "bench_run (\<lambda>_. 0) ''run'' sample_bench (map snd (bn_received ?s)) 10 = Some r" "br_Accepted r + br_Failed r = 1"
    by (auto simp: bench_at_def sample_bench_def)
  with sample_bench_steps show ?thesis by (intro exI [of _ ?s] exI [of _ r]) (simp add: bench_at_def)
qed

end
