(* ===== verification/Worker_Pool.thy ===== *)
theory Worker_Pool
  imports Metrics Systems
begin

text \<open>
  \<^verbatim>\<open>Pool.Run\<close> of \<^verbatim>\<open>internal/worker/pool.go\<close> with its goroutines: the workers of any number of pools as
  control states that advance one call at a time, in any order, on a shared queue. Others may change
  the queue between any two steps and the context may be cancelled at any moment. The environment
  of a step is a \<open>tick\<close> that satisfies \<open>env\<close>, a parameter that is told whether the context is
  cancelled already.
\<close>

section \<open>Control states\<close>

text \<open>Where a worker stands in \<^verbatim>\<open>runWorker\<close> and \<^verbatim>\<open>process\<close>.\<close>

datatype control =
    Claiming                        \<comment> \<open>before \<^verbatim>\<open>ClaimDelivery\<close>\<close>
  | ClaimFailed                     \<comment> \<open>before \<^verbatim>\<open>ctx.Err()\<close> after an error\<close>
  | Waiting                         \<comment> \<open>in \<^verbatim>\<open>wait\<close>\<close>
  | Sending job                     \<comment> \<open>before \<^verbatim>\<open>Deliver\<close>\<close>
  | Building job Result             \<comment> \<open>before the result for the queue is built\<close>
  | Finishing job AttemptResult     \<comment> \<open>before \<^verbatim>\<open>FinishAttempt\<close>\<close>
  | Returned

record worker =
  wk_id :: string
  wk_config :: Config
  wk_control :: control

text \<open>\<open>ps_obs\<close> is the order in which the shared observer is called, \<open>ps_sent\<close> the attempts handed to the
  dispatcher so far.\<close>

record 's pool_state =
  ps_workers :: "worker list"
  ps_store :: 's
  ps_cancelled :: bool
  ps_obs :: "observation list"
  ps_sent :: "(string \<times> int) list"

definition Run :: "Pool \<Rightarrow> worker list" where
  "Run p = map (\<lambda>w. \<lparr>wk_id = w, wk_config = pl_config p, wk_control = Claiming\<rparr>) (worker_ids p)"

definition pools_started :: "Pool list \<Rightarrow> 's \<Rightarrow> 's pool_state" where
  "pools_started ps db =
     \<lparr>ps_workers = concat (map Run ps), ps_store = db, ps_cancelled = False, ps_obs = [], ps_sent = []\<rparr>"

definition attempt_of :: "job \<Rightarrow> string \<times> int" where
  "attempt_of j = (dl_ID (jb_Delivery j), dl_AttemptCount (jb_Delivery j))"

definition stands :: "'s pool_state \<Rightarrow> nat \<Rightarrow> control \<Rightarrow> bool" where
  "stands s i c \<longleftrightarrow> i < length (ps_workers s) \<and> wk_control (ps_workers s ! i) = c"

definition advance :: "nat \<Rightarrow> control \<Rightarrow> observation list \<Rightarrow> 's \<Rightarrow> 's pool_state \<Rightarrow> 's pool_state" where
  "advance i c obs db s =
     s\<lparr>ps_workers := (ps_workers s)[i := (ps_workers s ! i)\<lparr>wk_control := c\<rparr>], ps_store := db,
       ps_obs := ps_obs s @ obs\<rparr>"

abbreviation id_of :: "'s pool_state \<Rightarrow> nat \<Rightarrow> string" where
  "id_of s i \<equiv> wk_id (ps_workers s ! i)"

abbreviation config_of :: "'s pool_state \<Rightarrow> nat \<Rightarrow> Config" where
  "config_of s i \<equiv> wk_config (ps_workers s ! i)"

section \<open>Steps\<close>

text \<open>The results that \<^verbatim>\<open>wait\<close> can give: both branches of its \<^verbatim>\<open>select\<close> may be ready, so the timer may win after a
  cancellation.\<close>

definition wait :: "bool \<Rightarrow> bool set" where
  "wait cancelled = (if cancelled then {False, True} else {True})"

lemma wait_iff [simp]: "True \<in> wait c" "False \<in> wait c \<longleftrightarrow> c"
  by (simp_all add: wait_def)

inductive worker_step ::
  "(float64 \<Rightarrow> int) \<Rightarrow> (bool \<Rightarrow> 's tick \<Rightarrow> bool) \<Rightarrow> 's pool_state \<Rightarrow> 's pool_state \<Rightarrow> bool" for cvt env where
  claim_error: "stands s i Claiming \<Longrightarrow> env (ps_cancelled s) t \<Longrightarrow>
    tk_claim t (id_of s i) (cf_LeaseDuration (config_of s i)) (ps_store s) = (Inl e, db) \<Longrightarrow>
    worker_step cvt env s (advance i ClaimFailed [] db s)"
| claim_empty: "stands s i Claiming \<Longrightarrow> env (ps_cancelled s) t \<Longrightarrow>
    tk_claim t (id_of s i) (cf_LeaseDuration (config_of s i)) (ps_store s) = (Inr None, db) \<Longrightarrow>
    worker_step cvt env s (advance i Waiting [ObserveClaim ''empty''] db s)"
| claim_job: "stands s i Claiming \<Longrightarrow> env (ps_cancelled s) t \<Longrightarrow>
    tk_claim t (id_of s i) (cf_LeaseDuration (config_of s i)) (ps_store s) = (Inr (Some j), db) \<Longrightarrow>
    worker_step cvt env s (advance i (Sending j) [ObserveClaim ''claimed'', AddInFlight 1] db s)"
| give_up: "stands s i ClaimFailed \<Longrightarrow> ps_cancelled s \<Longrightarrow>
    worker_step cvt env s (advance i Returned [] (ps_store s) s)"
| try_again: "stands s i ClaimFailed \<Longrightarrow> \<not> ps_cancelled s \<Longrightarrow>
    worker_step cvt env s (advance i Waiting [ObserveClaim ''error''] (ps_store s) s)"
| wake: "stands s i Waiting \<Longrightarrow> True \<in> wait (ps_cancelled s) \<Longrightarrow>
    worker_step cvt env s (advance i Claiming [] (ps_store s) s)"
| leave: "stands s i Waiting \<Longrightarrow> False \<in> wait (ps_cancelled s) \<Longrightarrow>
    worker_step cvt env s (advance i Returned [] (ps_store s) s)"
| deliver: "stands s i (Sending j) \<Longrightarrow> env (ps_cancelled s) t \<Longrightarrow> r = tk_deliver t (job_request j) \<Longrightarrow>
    worker_step cvt env s ((advance i (Building j r) [ObserveAttempt (wr_Decision r) (wr_Duration r)] (ps_store s) s)
      \<lparr>ps_sent := ps_sent s @ [attempt_of j]\<rparr>)"
| build: "stands s i (Building j r) \<Longrightarrow> env (ps_cancelled s) t \<Longrightarrow>
    worker_step cvt env s
      (advance i (Finishing j (finish_of cvt (config_of s i) (id_of s i) j r (tk_sample t) (ps_cancelled s))) []
        (ps_store s) s)"
| finish: "stands s i (Finishing j r) \<Longrightarrow> env (ps_cancelled s) t \<Longrightarrow> tk_finish t r (ps_store s) = (x, db) \<Longrightarrow>
    worker_step cvt env s
      (advance i Claiming (AddInFlight (- 1) # (if isl x then [ObserveFinishError] else [])) db s)"

inductive_cases worker_stepE: "worker_step cvt env s t"

text \<open>What the rest of the system may do: use the queue, or cancel the context.\<close>

inductive other_step :: "('s \<Rightarrow> 's \<Rightarrow> bool) \<Rightarrow> 's pool_state \<Rightarrow> 's pool_state \<Rightarrow> bool" for moves where
  moved: "moves (ps_store s) db \<Longrightarrow> other_step moves s (s\<lparr>ps_store := db\<rparr>)"
| cancelled: "other_step moves s (s\<lparr>ps_cancelled := True\<rparr>)"

inductive_cases other_stepE: "other_step moves s t"

definition pool_step ::
  "(float64 \<Rightarrow> int) \<Rightarrow> (bool \<Rightarrow> 's tick \<Rightarrow> bool) \<Rightarrow> ('s \<Rightarrow> 's \<Rightarrow> bool) \<Rightarrow> 's pool_state \<Rightarrow> 's pool_state \<Rightarrow> bool" where
  "pool_step cvt env moves s t \<longleftrightarrow> worker_step cvt env s t \<or> other_step moves s t"

text \<open>Runs, with the number of steps that the workers make.\<close>

inductive pool_run ::
  "(float64 \<Rightarrow> int) \<Rightarrow> (bool \<Rightarrow> 's tick \<Rightarrow> bool) \<Rightarrow> ('s \<Rightarrow> 's \<Rightarrow> bool) \<Rightarrow> nat \<Rightarrow> 's pool_state \<Rightarrow> 's pool_state \<Rightarrow> bool"
  for cvt env moves where
  start: "pool_run cvt env moves 0 s s"
| own: "pool_run cvt env moves n s t \<Longrightarrow> worker_step cvt env t u \<Longrightarrow> pool_run cvt env moves (Suc n) s u"
| other: "pool_run cvt env moves n s t \<Longrightarrow> other_step moves t u \<Longrightarrow> pool_run cvt env moves n s u"

lemma pool_run_steps: "pool_run cvt env moves n s t \<Longrightarrow> (pool_step cvt env moves)\<^sup>*\<^sup>* s t"
  by (induction rule: pool_run.induct) (auto simp: pool_step_def intro: rtranclp.rtrancl_into_rtrancl)

section \<open>Sums over workers\<close>

definition total_of :: "(control \<Rightarrow> nat) \<Rightarrow> 's pool_state \<Rightarrow> nat" where
  "total_of f s = (\<Sum>w\<leftarrow>ps_workers s. f (wk_control w))"

lemma advance_sel [simp]:
  "length (ps_workers (advance i c obs db s)) = length (ps_workers s)" "ps_store (advance i c obs db s) = db"
  "ps_cancelled (advance i c obs db s) = ps_cancelled s" "ps_obs (advance i c obs db s) = ps_obs s @ obs"
  "ps_sent (advance i c obs db s) = ps_sent s"
  by (simp_all add: advance_def)

lemma wk_control_advance:
  "k < length (ps_workers s) \<Longrightarrow>
    wk_control (ps_workers (advance i c obs db s) ! k) = (if k = i then c else wk_control (ps_workers s ! k))"
  by (simp add: advance_def nth_list_update)

lemma total_of_update_sent [simp]: "total_of f (s\<lparr>ps_sent := x\<rparr>) = total_of f s"
  "total_of f (s\<lparr>ps_store := y\<rparr>) = total_of f s" "total_of f (s\<lparr>ps_cancelled := b\<rparr>) = total_of f s"
  by (simp_all add: total_of_def)

lemma total_of_advance:
  assumes "stands s i c"
  shows "total_of f (advance i c' obs db s) + f c = total_of f s + f c'"
proof -
  let ?xs = "map (\<lambda>w. f (wk_control w)) (ps_workers s)"
  have i: "i < length ?xs" and c: "?xs ! i = f c" using assms by (auto simp: stands_def)
  have "f c \<le> sum_list ?xs" using elem_le_sum_list [OF i] unfolding c .
  moreover have "total_of f (advance i c' obs db s) = sum_list (?xs[i := f c'])"
    by (simp add: total_of_def advance_def map_update)
  ultimately show ?thesis using i c by (simp add: total_of_def sum_list_update)
qed

lemma total_of_less:
  assumes "stands s i c" and "f c' < f c"
  shows "total_of f (advance i c' obs db s) < total_of f s"
  using total_of_advance [OF assms(1), of f c' obs db] assms(2) by linarith

lemma total_of_same:
  "stands s i c \<Longrightarrow> f c' = f c \<Longrightarrow> total_of f (advance i c' obs db s) = total_of f s"
  using total_of_advance [of s i c f c' obs db] by simp

lemma total_of_up:
  "stands s i c \<Longrightarrow> f c = 0 \<Longrightarrow> f c' = 1 \<Longrightarrow> total_of f (advance i c' obs db s) = Suc (total_of f s)"
  using total_of_advance [of s i c f c' obs db] by simp

lemma total_of_down:
  "stands s i c \<Longrightarrow> f c = 1 \<Longrightarrow> f c' = 0 \<Longrightarrow> total_of f s = Suc (total_of f (advance i c' obs db s))"
  using total_of_advance [of s i c f c' obs db] by simp

section \<open>Stopping\<close>

text \<open>The steps that a worker can still make once the context is cancelled.\<close>

fun steps_left :: "control \<Rightarrow> nat" where
  "steps_left Returned = 0"
| "steps_left ClaimFailed = 1"
| "steps_left Claiming = 2"
| "steps_left Waiting = 3"
| "steps_left (Finishing _ _) = 3"
| "steps_left (Building _ _) = 4"
| "steps_left (Sending _) = 5"

lemma steps_left_le: "steps_left c \<le> 5"
  by (cases c) auto

lemma total_steps_left: "total_of steps_left s \<le> 5 * length (ps_workers s)"
proof -
  have "total_of steps_left s \<le> (\<Sum>w\<leftarrow>ps_workers s. 5)"
    unfolding total_of_def by (rule sum_list_mono) (rule steps_left_le)
  then show ?thesis by (simp add: sum_list_triv mult.commute)
qed

lemma no_steps_left:
  "total_of steps_left s = 0 \<longleftrightarrow> (\<forall>w \<in> set (ps_workers s). wk_control w = Returned)"
proof -
  have "steps_left c = 0 \<longleftrightarrow> c = Returned" for c by (cases c) auto
  then show ?thesis by (simp add: total_of_def)
qed

text \<open>What the pool needs of its surroundings: there is always some answer, and a claim with a cancelled
  context fails.\<close>

locale cancellable_queue =
  fixes env :: "bool \<Rightarrow> 's tick \<Rightarrow> bool"
  assumes answers: "\<exists>t. env c t"
    and refuses: "env True t \<Longrightarrow> \<exists>e db'. tk_claim t w lease db = (Inl e, db')"
begin

lemma refusal: "env True t \<Longrightarrow> tk_claim t w lease db \<noteq> (Inr x, db')"
  using refuses [of t w lease db] by auto

lemma cancelled_step:
  assumes "worker_step cvt env s t" and "ps_cancelled s"
  shows "ps_cancelled t \<and> length (ps_workers t) = length (ps_workers s) \<and>
    total_of steps_left t < total_of steps_left s"
  using assms(1)
proof (cases rule: worker_step.cases)
  case (claim_empty i t db)
  then show ?thesis using refusal assms(2) by auto
next
  case (claim_job i t j db)
  then show ?thesis using refusal assms(2) by auto
qed (use assms(2) in \<open>auto elim!: total_of_less\<close>)

lemma cancelled_run:
  "pool_run cvt env moves n s t \<Longrightarrow> ps_cancelled s \<Longrightarrow>
    ps_cancelled t \<and> length (ps_workers t) = length (ps_workers s) \<and> n + total_of steps_left t \<le> total_of steps_left s"
proof (induction rule: pool_run.induct)
  case (own n s t u)
  then show ?case using cancelled_step [OF own.hyps(2)] by force
next
  case (other n s t u)
  then show ?case by (auto elim!: other_stepE)
qed simp

lemma some_step:
  assumes "w \<in> set (ps_workers s)" and "wk_control w \<noteq> Returned"
  shows "\<exists>t. worker_step cvt env s t"
proof -
  from assms obtain i where i: "stands s i (wk_control w)" by (auto simp: stands_def in_set_conv_nth)
  obtain t where t: "env (ps_cancelled s) t" using answers by blast
  show ?thesis
  proof (cases "wk_control w")
    case Claiming
    obtain x db where c: "tk_claim t (id_of s i) (cf_LeaseDuration (config_of s i)) (ps_store s) = (x, db)"
      by fastforce
    show ?thesis
    proof (cases x)
      case (Inl e)
      with Claiming i t c show ?thesis using worker_step.claim_error by metis
    next
      case (Inr jo)
      with Claiming i t c show ?thesis
        by (cases jo) (metis worker_step.claim_empty, metis worker_step.claim_job)
    qed
  next
    case (Finishing j r)
    obtain x db where "tk_finish t r (ps_store s) = (x, db)" by fastforce
    with Finishing i t show ?thesis using worker_step.finish by metis
  qed (use assms i t in \<open>metis worker_step.give_up worker_step.try_again worker_step.wake [OF _ wait_iff(1)]
      worker_step.deliver worker_step.build\<close>)+
qed

text \<open>After a cancellation every worker returns: the workers can make only so many steps, and as long as
  one has not returned some step is possible.\<close>

lemma pool_stops:
  assumes "ps_cancelled s" and "pool_run cvt env moves n s t"
  shows "n \<le> 5 * length (ps_workers s) \<and>
    ((\<forall>w \<in> set (ps_workers t). wk_control w = Returned) \<longleftrightarrow> (\<nexists>u. worker_step cvt env t u))"
proof -
  from cancelled_run [OF assms(2,1)] total_steps_left [of s] have "n \<le> 5 * length (ps_workers s)" by linarith
  moreover have "\<not> worker_step cvt env t u" if "\<forall>w \<in> set (ps_workers t). wk_control w = Returned" for u
    using that by (auto elim!: worker_stepE simp: stands_def)
  ultimately show ?thesis using some_step by blast
qed

end

section \<open>The metrics of a pool\<close>

text \<open>A pool that is configured without an observer gets one that does nothing.\<close>

definition noOpObserver :: "observation \<Rightarrow> 'm \<Rightarrow> 'm" where
  "noOpObserver event x = x"

definition pool_observer :: "(observation \<Rightarrow> 'm \<Rightarrow> 'm) option \<Rightarrow> observation \<Rightarrow> 'm \<Rightarrow> 'm" where
  "pool_observer observer = (case observer of None \<Rightarrow> noOpObserver | Some f \<Rightarrow> f)"

lemma unobserved: "fold (pool_observer None) os x = x"
  by (induction os) (simp_all add: pool_observer_def noOpObserver_def)

fun job_of :: "control \<Rightarrow> job option" where
  "job_of (Sending j) = Some j"
| "job_of (Building j _) = Some j"
| "job_of (Finishing j _) = Some j"
| "job_of _ = None"

definition busy :: "control \<Rightarrow> nat" where
  "busy c = (case job_of c of None \<Rightarrow> 0 | Some _ \<Rightarrow> 1)"

definition sending :: "control \<Rightarrow> nat" where
  "sending c = (case c of Sending _ \<Rightarrow> 1 | _ \<Rightarrow> 0)"

lemma busy_simps [simp]:
  "busy Claiming = 0" "busy ClaimFailed = 0" "busy Waiting = 0" "busy Returned = 0"
  "busy (Sending j) = 1" "busy (Building j r) = 1" "busy (Finishing j f) = 1"
  by (simp_all add: busy_def)

lemma sending_simps [simp]:
  "sending Claiming = 0" "sending ClaimFailed = 0" "sending Waiting = 0" "sending Returned = 0"
  "sending (Sending j) = 1" "sending (Building j r) = 0" "sending (Finishing j f) = 0"
  by (simp_all add: sending_def)

lemma busy_le: "total_of busy s \<le> length (ps_workers s)"
proof -
  have "busy c \<le> 1" for c by (simp add: busy_def split: option.split)
  then have "total_of busy s \<le> (\<Sum>w\<leftarrow>ps_workers s. 1)"
    unfolding total_of_def by (intro sum_list_mono)
  then show ?thesis by (simp add: sum_list_triv)
qed

definition metrics_of :: "'s pool_state \<Rightarrow> Metrics" where
  "metrics_of s = fold observe (ps_obs s) NewMetrics"

definition metrics_exact :: "'s pool_state \<Rightarrow> bool" where
  "metrics_exact s \<longleftrightarrow>
     (let x = metrics_of s in
      mt_deliveryInFlight x = Fin (of_nat (total_of busy s)) \<and>
      mt_workerClaims x ''claimed'' = int (length (mt_deliveryDuration x)) + int (total_of sending s) \<and>
      0 \<le> mt_deliveryFinishErrors x \<and>
      mt_deliveryFinishErrors x + int (total_of busy s) \<le> int (length (mt_deliveryDuration x)) + int (total_of sending s))"

lemma fadd_int:
  assumes "\<bar>a\<bar> < 2 ^ 53" and "\<bar>b\<bar> < 2 ^ 53" and "\<bar>a + b\<bar> < 2 ^ 53"
  shows "fadd (Fin (of_int a)) (f64_of_int b) = Fin (of_int (a + b))"
proof -
  have f: "f64 (of_int n) = Fin (of_int n)" if "\<bar>n\<bar> < 2 ^ 53" for n
  proof -
    have "(of_int \<bar>n\<bar> :: rat) < of_int (2 ^ 53)" using that by (simp only: of_int_less_iff)
    then have "\<bar>of_int n :: rat\<bar> < 2 ^ 53" by simp
    then show ?thesis using f64_small [of n "of_int n" n] that by simp
  qed
  show ?thesis using f [OF assms(2)] f [OF assms(3)] by (simp add: f64_of_int_def)
qed

lemma metrics_of_advance [simp]:
  "metrics_of (advance i c obs db s) = fold observe obs (metrics_of s)"
  "metrics_of (s\<lparr>ps_sent := x\<rparr>) = metrics_of s" "metrics_of (s\<lparr>ps_store := y\<rparr>) = metrics_of s"
  "metrics_of (s\<lparr>ps_cancelled := b\<rparr>) = metrics_of s"
  by (simp_all add: metrics_of_def)

lemma gauge_up:
  "n < 2 ^ 52 \<Longrightarrow> fadd (Fin (of_nat n)) (f64_of_int 1) = Fin (of_nat (Suc n))"
  using fadd_int [of "int n" 1] by (simp add: add.commute)

lemma gauge_down:
  "Suc n \<le> 2 ^ 52 \<Longrightarrow> fadd (Fin (of_nat (Suc n))) (f64_of_int (- 1)) = Fin (of_nat n)"
  using fadd_int [of "int (Suc n)" "- 1"] by simp

lemma metrics_exact_worker:
  assumes small: "length (ps_workers s) \<le> 2 ^ 52" and m: "metrics_exact s" and step: "worker_step cvt env s t"
  shows "metrics_exact t"
proof -
  have b: "total_of busy s \<le> 2 ^ 52" using busy_le [of s] small by linarith
  note x = m [unfolded metrics_exact_def Let_def]
  from step show ?thesis
  proof (cases rule: worker_step.cases)
    case (claim_job i u j db)
    have c: "total_of busy t = Suc (total_of busy s)" "total_of sending t = Suc (total_of sending s)"
      unfolding claim_job(1) by (simp_all add: total_of_up [OF claim_job(2)])
    then have "total_of busy s < 2 ^ 52" using busy_le [of t] small by (simp add: claim_job(1))
    then show ?thesis using x c gauge_up by (simp add: metrics_exact_def claim_job(1))
  next
    case (finish i j r u y db)
    let ?obs = "AddInFlight (- 1) # (if isl y then [ObserveFinishError] else [])"
    have c: "total_of busy s = Suc (total_of busy t)" "total_of sending t = total_of sending s"
      unfolding finish(1) using total_of_down [OF finish(2), of busy Claiming ?obs db]
      by (simp_all add: total_of_same [OF finish(2)])
    then have "fadd (mt_deliveryInFlight (metrics_of s)) (f64_of_int (- 1)) = Fin (of_nat (total_of busy t))"
      using x b gauge_down [of "total_of busy t"] by simp
    then show ?thesis using x c by (auto simp: metrics_exact_def finish(1))
  next
    case (deliver i j u r)
    let ?a = "advance i (Building j r) [ObserveAttempt (wr_Decision r) (wr_Duration r)] (ps_store s) s"
    have "total_of busy t = total_of busy s" "total_of sending s = Suc (total_of sending t)"
      using total_of_same [OF deliver(2), of busy "Building j r"] total_of_down [OF deliver(2), of sending "Building j r"]
      by (simp_all add: deliver(1))
    then show ?thesis using x by (simp add: metrics_exact_def deliver(1))
  next
    case (claim_error i u e db)
    then show ?thesis using x by (simp add: metrics_exact_def total_of_same [OF claim_error(2)])
  next
    case (claim_empty i u db)
    then show ?thesis using x by (simp add: metrics_exact_def total_of_same [OF claim_empty(2)])
  next
    case (give_up i)
    then show ?thesis using x by (simp add: metrics_exact_def total_of_same [OF give_up(2)])
  next
    case (try_again i)
    then show ?thesis using x by (simp add: metrics_exact_def total_of_same [OF try_again(2)])
  next
    case (wake i)
    then show ?thesis using x by (simp add: metrics_exact_def total_of_same [OF wake(2)])
  next
    case (leave i)
    then show ?thesis using x by (simp add: metrics_exact_def total_of_same [OF leave(2)])
  next
    case (build i j r u)
    then show ?thesis using x by (simp add: metrics_exact_def total_of_same [OF build(2)])
  qed
qed

lemma metrics_exact_other: "metrics_exact s \<Longrightarrow> other_step moves s t \<Longrightarrow> metrics_exact t"
  by (auto elim!: other_stepE simp: metrics_exact_def)

lemma pool_step_workers: "pool_step cvt env moves s t \<Longrightarrow> length (ps_workers t) = length (ps_workers s)"
  unfolding pool_step_def by (auto elim!: worker_step.cases other_stepE)

interpretation pool_metrics: invariant_system
    "\<lambda>s. \<exists>ps db. s = pools_started ps db \<and> length (ps_workers s) \<le> 2 ^ 52" "pool_step cvt env moves"
    "\<lambda>s. length (ps_workers s) \<le> 2 ^ 52 \<and> metrics_exact s" for cvt env moves
proof
  fix s :: "'a pool_state"
  have z: "total_of f (pools_started ps db) = 0" if "f Claiming = 0" for f ps and db :: 'a
    using that by (auto simp: total_of_def pools_started_def Run_def)
  assume "\<exists>ps db. s = pools_started ps db \<and> length (ps_workers s) \<le> 2 ^ 52"
  then show "length (ps_workers s) \<le> 2 ^ 52 \<and> metrics_exact s"
    by (auto simp: metrics_exact_def z metrics_of_def NewMetrics_def pools_started_def [THEN arg_cong [where f = ps_obs]])
next
  fix s t :: "'a pool_state"
  assume "length (ps_workers s) \<le> 2 ^ 52 \<and> metrics_exact s" and "pool_step cvt env moves s t"
  then show "length (ps_workers t) \<le> 2 ^ 52 \<and> metrics_exact t"
    using pool_step_workers [of cvt env moves s t] metrics_exact_worker metrics_exact_other
    by (auto simp: pool_step_def)
qed

section \<open>The loop as a function and as steps\<close>

text \<open>A single worker between two rounds.\<close>

definition solo :: "string \<Rightarrow> Config \<Rightarrow> control \<Rightarrow> 's \<Rightarrow> observation list \<Rightarrow> (string \<times> int) list \<Rightarrow> 's pool_state" where
  "solo w config c db obs sent =
     \<lparr>ps_workers = [\<lparr>wk_id = w, wk_config = config, wk_control = c\<rparr>], ps_store = db, ps_cancelled = False, ps_obs = obs,
      ps_sent = sent\<rparr>"

lemma solo_simps [simp]:
  "stands (solo w config c db obs sent) 0 c' \<longleftrightarrow> c = c'" "ps_store (solo w config c db obs sent) = db"
  "id_of (solo w config c db obs sent) 0 = w" "config_of (solo w config c db obs sent) 0 = config"
  "ps_cancelled (solo w config c db obs sent) = False" "ps_sent (solo w config c db obs sent) = sent"
  "advance 0 c' new db' (solo w config c db obs sent) = solo w config c' db' (obs @ new) sent"
  "(solo w config c db obs sent)\<lparr>ps_sent := sent'\<rparr> = solo w config c db obs sent'"
  by (auto simp: solo_def stands_def advance_def)

text \<open>The function \<open>runWorker\<close> describes runs of the step relation: as long as nothing is cancelled, its rounds are
  steps of the worker with the same observations and the same effect on the queue.\<close>

lemma runWorker_steps:
  assumes "runWorker cvt config w ts db = (obs, db', False)"
    and "\<forall>t \<in> set ts. env False t \<and> \<not> tk_claim_cancelled t \<and> \<not> tk_finish_cancelled t \<and> tk_waited t"
  shows "\<exists>sent'. (worker_step cvt env)\<^sup>*\<^sup>* (solo w config Claiming db obs0 sent) (solo w config Claiming db' (obs0 @ obs) sent')"
  using assms
proof (induction ts arbitrary: db obs obs0 sent)
  case (Cons t ts)
  let ?s = "solo w config"
  have t: "env False t" "\<not> tk_claim_cancelled t" "\<not> tk_finish_cancelled t" "tk_waited t"
    and ts: "\<forall>t \<in> set ts. env False t \<and> \<not> tk_claim_cancelled t \<and> \<not> tk_finish_cancelled t \<and> tk_waited t"
    using Cons.prems(2) by auto
  obtain c db1 where c: "tk_claim t w (cf_LeaseDuration config) db = (c, db1)" by fastforce
  have wake: "worker_step cvt env (?s Waiting db1 o1 sent) (?s Claiming db1 o1 sent)" for o1
    using worker_step.wake [of "?s Waiting db1 o1 sent" 0 cvt env] by simp
  show ?case
  proof (cases c)
    case (Inl e)
    then obtain obs1 where r: "runWorker cvt config w ts db1 = (obs1, db', False)" "obs = ObserveClaim ''error'' # obs1"
      using Cons.prems(1) c t by (auto split: prod.splits)
    have "worker_step cvt env (?s Claiming db obs0 sent) (?s ClaimFailed db1 obs0 sent)"
      using worker_step.claim_error [of "?s Claiming db obs0 sent" 0 env t e db1 cvt] c Inl t by simp
    moreover have "worker_step cvt env (?s ClaimFailed db1 obs0 sent) (?s Waiting db1 (obs0 @ [ObserveClaim ''error'']) sent)"
      using worker_step.try_again [of "?s ClaimFailed db1 obs0 sent" 0 cvt env] by simp
    ultimately show ?thesis
      using Cons.IH [OF r(1) ts, of "obs0 @ [ObserveClaim ''error'']" sent] wake r(2)
      by (simp, meson converse_rtranclp_into_rtranclp)
  next
    case (Inr jo)
    show ?thesis
    proof (cases jo)
      case None
      then obtain obs1 where r: "runWorker cvt config w ts db1 = (obs1, db', False)" "obs = ObserveClaim ''empty'' # obs1"
        using Cons.prems(1) c t Inr by (auto split: prod.splits)
      have "worker_step cvt env (?s Claiming db obs0 sent) (?s Waiting db1 (obs0 @ [ObserveClaim ''empty'']) sent)"
        using worker_step.claim_empty [of "?s Claiming db obs0 sent" 0 env t db1 cvt] c Inr None t by simp
      then show ?thesis
        using Cons.IH [OF r(1) ts, of "obs0 @ [ObserveClaim ''empty'']" sent] wake r(2)
        by (simp, meson converse_rtranclp_into_rtranclp)
    next
      case (Some j)
      define r where "r = tk_deliver t (job_request j)"
      define f where "f = finish_of cvt config w j r (tk_sample t) False"
      obtain x db2 where x: "tk_finish t f db1 = (x, db2)" by fastforce
      let ?o1 = "obs0 @ [ObserveClaim ''claimed'', AddInFlight 1]"
      let ?o2 = "?o1 @ [ObserveAttempt (wr_Decision r) (wr_Duration r)]"
      let ?o3 = "?o2 @ AddInFlight (- 1) # (if isl x then [ObserveFinishError] else [])"
      let ?s2 = "sent @ [attempt_of j]"
      have p: "process cvt config w j t db1 = ([ObserveAttempt (wr_Decision r) (wr_Duration r)],
          (case x of Inl e \<Rightarrow> Some e | Inr _ \<Rightarrow> None), db2)"
        using x t(3) by (simp add: process_def r_def f_def Let_def split: sum.split)
      obtain obs1 where o: "runWorker cvt config w ts db2 = (obs1, db', False)" "obs0 @ obs = ?o3 @ obs1"
        using Cons.prems(1) c Inr Some p by (cases x) (auto split: prod.splits)
      have "worker_step cvt env (?s Claiming db obs0 sent) (?s (Sending j) db1 ?o1 sent)"
        using worker_step.claim_job [of "?s Claiming db obs0 sent" 0 env t j db1 cvt] c Inr Some t by simp
      moreover have "worker_step cvt env (?s (Sending j) db1 ?o1 sent) (?s (Building j r) db1 ?o2 ?s2)"
        using worker_step.deliver [of "?s (Sending j) db1 ?o1 sent" 0 j env t r cvt] t r_def by simp
      moreover have "worker_step cvt env (?s (Building j r) db1 ?o2 ?s2) (?s (Finishing j f) db1 ?o2 ?s2)"
        using worker_step.build [of "?s (Building j r) db1 ?o2 ?s2" 0 j r env t cvt] t f_def by simp
      moreover have "worker_step cvt env (?s (Finishing j f) db1 ?o2 ?s2) (?s Claiming db2 ?o3 ?s2)"
        using worker_step.finish [of "?s (Finishing j f) db1 ?o2 ?s2" 0 j f env t x db2 cvt] t x by simp
      ultimately show ?thesis
        using Cons.IH [OF o(1) ts, of ?o3 ?s2] unfolding o(2) by (meson converse_rtranclp_into_rtranclp)
    qed
  qed
qed auto

end
