(* ===== verification/Pool_Store.thy ===== *)
theory Pool_Store
  imports Worker_Pool Service
begin

text \<open>
  The goroutines of \<open>Worker_Pool\<close> on the store: any number of pools of any number of instances, interleaved
  with each other and with every other user of the store. Shown here: an attempt is in the hands of at
  most one worker and is sent at most once, so a delivery is never sent more often than its budget;
  the metrics are exact at every moment; and a pool stops after a cancellation.
\<close>

text \<open>The queue of a worker is the store; with a cancelled context the driver does not begin a transaction
  for the claim. Dispatcher, random sample and clock are arbitrary.\<close>

definition store_env :: "pg \<Rightarrow> bool \<Rightarrow> db tick \<Rightarrow> bool" where
  "store_env pg cancelled t \<longleftrightarrow>
     (\<exists>io gen now skipR skipC io' gen' now'.
        tk_claim t = ClaimDelivery pg io gen now skipR skipC \<and> tk_finish t = FinishAttempt pg io' gen' now' \<and>
        (cancelled \<longrightarrow> io ''begin claim transaction'' \<noteq> Works))"

abbreviation store_pool_step :: "(float64 \<Rightarrow> int) \<Rightarrow> pg \<Rightarrow> db pool_state \<Rightarrow> db pool_state \<Rightarrow> bool" where
  "store_pool_step cvt pg \<equiv> pool_step cvt (store_env pg) (store_step pg)"

lemma claim_not_begun:
  "io ''begin claim transaction'' \<noteq> Works \<Longrightarrow> \<exists>e db'. ClaimDelivery pg io gen now skipR skipC w lease db = (Inl e, db')"
  by (simp add: ClaimDelivery_def run_tx_def stmt_def Let_def split: call.splits)

interpretation store_pool: cancellable_queue "store_env pg" for pg
proof
  fix c
  let ?t = "store_tick pg (\<lambda>_. Breaks []) (\<lambda>_. []) 0 (\<lambda>_. False) (\<lambda>_. False) sample_env (NewDispatcher False 0) 0 0 (\<lambda>_. []) 0 (Fin 0)"
  have "store_env pg c ?t"
    unfolding store_env_def store_tick_def
    by (rule exI [of _ "\<lambda>_. Breaks []"]) auto
  then show "\<exists>t. store_env pg c t" by blast
qed (auto simp: store_env_def intro: claim_not_begun)

section \<open>Attempts that have begun\<close>

definition begun :: "db \<Rightarrow> uuid \<times> int \<Rightarrow> bool" where
  "begun db a \<longleftrightarrow> (\<exists>d. tfind dr_id (fst a) (deliveries db) = Some d \<and> 1 \<le> snd a \<and> snd a \<le> dr_attempt_count d)"

definition life_begun :: "life option \<Rightarrow> int \<Rightarrow> bool" where
  "life_begun x n \<longleftrightarrow> (case x of None \<Rightarrow> False | Some l \<Rightarrow> 1 \<le> n \<and> n \<le> lf_count l)"

lemma begun_life: "begun db a = life_begun (life_abs (fst a) db) (snd a)"
  by (auto simp: begun_def life_begun_def life_abs_def life_of_def split: option.splits)

lemma life_begun_steps: "life_step\<^sup>*\<^sup>* x y \<Longrightarrow> life_begun x n \<Longrightarrow> life_begun y n"
proof (induction rule: rtranclp_induct)
  case (step y z)
  from step.hyps(2) step.IH [OF step.prems] show ?case
    by (induction rule: life_step.induct) (auto simp: life_begun_def)
qed

lemma begun_steps:
  assumes "canonical_uuid pg" and "store_inv pg db" and "(store_step pg)\<^sup>*\<^sup>* db db'" and "begun db a"
  shows "begun db' a"
  using lifecycle.steps_sim [OF assms(3), of "fst a"] assms life_begun_steps by (simp add: begun_life)

text \<open>A claim hands out an attempt that had not begun before.\<close>

lemma claim_begins:
  assumes inv: "store_inv pg db" and inv': "store_inv pg db'"
    and c: "ClaimDelivery pg io gen now skipR skipC w lease db = (Inr (Some j), db')"
  shows "\<not> begun db (attempt_of j)" and "begun db' (attempt_of j)"
proof -
  from claim_hands_out [OF inv c] obtain k d d' where d: "tfind dr_id k (deliveries db) = Some d"
    "tfind dr_id k (deliveries db') = Some d'" "dr_attempt_count d' = dr_attempt_count d + 1" "jb_Delivery j = scanDelivery d'"
    by blast
  have k: "dr_id d' = k" "d \<in> set (deliveries db)" using d(1,2) tfind_SomeD by metis+
  have "0 \<le> dr_attempt_count d"
    using inv k(2) by (auto simp: store_inv_def rows_ok_def schema_ok_def list_all_iff check_delivery_def)
  with d k show "\<not> begun db (attempt_of j)" "begun db' (attempt_of j)"
    by (auto simp: begun_def attempt_of_def scanDelivery_def)
qed

section \<open>One worker per attempt\<close>

definition exclusive :: "pg \<Rightarrow> db pool_state \<Rightarrow> bool" where
  "exclusive pg s \<longleftrightarrow>
     store_inv pg (ps_store s) \<and> distinct (ps_sent s) \<and> list_all (begun (ps_store s)) (ps_sent s) \<and>
     (\<forall>i j. i < length (ps_workers s) \<and> job_of (wk_control (ps_workers s ! i)) = Some j \<longrightarrow>
        begun (ps_store s) (attempt_of j) \<and>
        (wk_control (ps_workers s ! i) = Sending j \<longrightarrow> attempt_of j \<notin> set (ps_sent s)) \<and>
        (\<forall>k j'. k < length (ps_workers s) \<and> job_of (wk_control (ps_workers s ! k)) = Some j' \<and>
           attempt_of j' = attempt_of j \<longrightarrow> k = i))"

lemma exclusive_job:
  assumes "exclusive pg s" and "i < length (ps_workers s)" and "job_of (wk_control (ps_workers s ! i)) = Some j"
  shows "begun (ps_store s) (attempt_of j)"
    and "wk_control (ps_workers s ! i) = Sending j \<Longrightarrow> attempt_of j \<notin> set (ps_sent s)"
    and "k < length (ps_workers s) \<Longrightarrow> job_of (wk_control (ps_workers s ! k)) = Some j' \<Longrightarrow>
      attempt_of j' = attempt_of j \<Longrightarrow> k = i"
  using assms unfolding exclusive_def by metis+

lemma exclusive_moves:
  assumes can: "canonical_uuid pg" and e: "exclusive pg s" and m: "(store_step pg)\<^sup>*\<^sup>* (ps_store s) db"
  shows "exclusive pg (s\<lparr>ps_store := db\<rparr>)"
proof -
  have "store_inv pg (ps_store s)" using e by (simp add: exclusive_def)
  then have "store_inv pg db" and "\<And>a. begun (ps_store s) a \<Longrightarrow> begun db a"
    using store.steps_inv [OF m] begun_steps [OF can _ m] can by blast+
  with e show ?thesis by (auto simp: exclusive_def list_all_iff)
qed

text \<open>A worker that keeps, drops or passes on its job.\<close>

lemma exclusive_advance:
  assumes e: "exclusive pg s" and st: "stands s i c"
    and c': "job_of c' = None \<or> job_of c' = job_of c \<and> (\<forall>j. c' \<noteq> Sending j)"
  shows "exclusive pg (advance i c' obs (ps_store s) s)"
proof -
  let ?t = "advance i c' obs (ps_store s) s"
  have ctl: "wk_control (ps_workers ?t ! k) = (if k = i then c' else wk_control (ps_workers s ! k))"
    if "k < length (ps_workers s)" for k using that by (rule wk_control_advance)
  have job: "job_of (wk_control (ps_workers s ! k)) = Some j" and
    send: "wk_control (ps_workers ?t ! k) = Sending j \<Longrightarrow> wk_control (ps_workers s ! k) = Sending j"
    if "k < length (ps_workers s)" "job_of (wk_control (ps_workers ?t ! k)) = Some j" for k j
    using that st c' by (auto simp: ctl stands_def split: if_splits)
  from e show ?thesis
    unfolding exclusive_def using job send by (simp, meson)
qed

lemma exclusive_deliver:
  assumes e: "exclusive pg s" and st: "stands s i (Sending j)"
  shows "exclusive pg ((advance i (Building j r) obs (ps_store s) s)\<lparr>ps_sent := ps_sent s @ [attempt_of j]\<rparr>)"
    (is "exclusive pg (?t\<lparr>ps_sent := _\<rparr>)")
proof -
  have a: "exclusive pg ?t" by (rule exclusive_advance [OF e st]) simp
  have i: "i < length (ps_workers s)" "wk_control (ps_workers s ! i) = Sending j" using st by (auto simp: stands_def)
  have j: "begun (ps_store s) (attempt_of j)" "attempt_of j \<notin> set (ps_sent s)"
    using exclusive_job(1,2) [OF e i(1), of j] i(2) by simp_all
  have ti: "wk_control (ps_workers ?t ! i) = Building j r" using i by (simp add: wk_control_advance)
  have "attempt_of j' \<noteq> attempt_of j"
    if "k < length (ps_workers s)" "wk_control (ps_workers ?t ! k) = Sending j'" for k j'
  proof
    assume eq: "attempt_of j' = attempt_of j"
    have "k = i" using a that i ti eq unfolding exclusive_def by (metis advance_sel(1) job_of.simps(1,2))
    with that(2) ti show False by simp
  qed
  with a j show ?thesis unfolding exclusive_def by (auto simp: list_all_iff)
qed

lemma exclusive_claim:
  assumes e: "exclusive pg s" and st: "stands s i Claiming" and inv: "store_inv pg db"
    and keep: "\<And>a. begun (ps_store s) a \<Longrightarrow> begun db a"
    and new: "\<not> begun (ps_store s) (attempt_of j)" "begun db (attempt_of j)"
  shows "exclusive pg (advance i (Sending j) obs db s)" (is "exclusive pg ?t")
proof -
  have i: "i < length (ps_workers s)" using st by (simp add: stands_def)
  have ctl: "wk_control (ps_workers ?t ! k) = (if k = i then Sending j else wk_control (ps_workers s ! k))"
    if "k < length (ps_workers s)" for k using that by (rule wk_control_advance)
  have sent: "attempt_of j \<notin> set (ps_sent s)" using e new(1) by (auto simp: exclusive_def list_all_iff)
  have held: "attempt_of j' \<noteq> attempt_of j"
    if "k < length (ps_workers s)" "job_of (wk_control (ps_workers s ! k)) = Some j'" for k j'
    using e new(1) that unfolding exclusive_def by metis
  show ?thesis
    unfolding exclusive_def
  proof (intro conjI allI impI)
    fix k j'
    assume k: "k < length (ps_workers ?t) \<and> job_of (wk_control (ps_workers ?t ! k)) = Some j'"
    show "begun (ps_store ?t) (attempt_of j')"
      using k keep [of "attempt_of j'"] new(2) exclusive_job(1) [OF e, of k j'] by (auto simp: ctl split: if_splits)
    show "attempt_of j' \<notin> set (ps_sent ?t)" if "wk_control (ps_workers ?t ! k) = Sending j'"
      using k sent that exclusive_job(2) [OF e, of k j'] by (auto simp: ctl split: if_splits)
    show "l = k" if "l < length (ps_workers ?t) \<and> job_of (wk_control (ps_workers ?t ! l)) = Some j'' \<and>
        attempt_of j'' = attempt_of j'" for l j''
      using that k held [of k j'] held [of l j''] i exclusive_job(3) [OF e, of k j' l j''] by (auto simp: ctl split: if_splits)
  qed (use e inv keep in \<open>auto simp: exclusive_def list_all_iff\<close>)
qed

lemma store_env_moves:
  assumes "store_env pg c t"
  shows "tk_claim t w lease db = (x, db') \<Longrightarrow> store_step pg db db'"
    and "tk_finish t r db = (y, db') \<Longrightarrow> store_step pg db db'"
  using assms by (auto simp: store_env_def intro: store_step.claim store_step.finish)

text \<open>A step of a worker is a move of the store followed by a step that leaves the store alone.\<close>

lemma advance_split: "advance i c obs db s = advance i c obs db (s\<lparr>ps_store := db\<rparr>)"
  by (simp add: advance_def)

lemma stands_store [simp]: "stands (s\<lparr>ps_store := db\<rparr>) i c = stands s i c"
  by (simp add: stands_def)

lemma exclusive_worker:
  assumes can: "canonical_uuid pg" and e: "exclusive pg s" and step: "worker_step cvt (store_env pg) s t"
  shows "exclusive pg t"
proof -
  have move: "exclusive pg (advance i c' obs db s)"
    if "store_step pg (ps_store s) db" and "stands s i c"
      and "job_of c' = None \<or> job_of c' = job_of c \<and> (\<forall>j. c' \<noteq> Sending j)" for i c c' obs db
    using exclusive_advance [OF exclusive_moves [OF can e r_into_rtranclp [of "store_step pg", OF that(1)]], of i c c' obs] that(2,3)
    by (simp add: advance_split [of i c' obs db s])
  from step show ?thesis
  proof (cases rule: worker_step.cases)
    case (claim_job i u j db)
    have inv: "store_inv pg (ps_store s)" using e by (simp add: exclusive_def)
    have m: "store_step pg (ps_store s) db" using store_env_moves(1) claim_job(3,4) by blast
    have inv': "store_inv pg db" by (rule store_inv_step [OF can inv m])
    from claim_job(3,4) obtain io gen now skipR skipC where
      "ClaimDelivery pg io gen now skipR skipC (id_of s i) (cf_LeaseDuration (config_of s i)) (ps_store s) = (Inr (Some j), db)"
      by (auto simp: store_env_def)
    from claim_begins [OF inv inv' this] begun_steps [OF can inv r_into_rtranclp [of "store_step pg", OF m]]
    show ?thesis unfolding claim_job(1) by (intro exclusive_claim [OF e claim_job(2) inv'])
  next
    case (deliver i j u r)
    then show ?thesis using exclusive_deliver [OF e] by simp
  next
    case (claim_error i u x db)
    then show ?thesis using move store_env_moves(1) by simp
  next
    case (claim_empty i u db)
    then show ?thesis using move store_env_moves(1) by simp
  next
    case (finish i j r u x db)
    then show ?thesis using move store_env_moves(2) by simp
  qed (use e in \<open>auto intro: exclusive_advance\<close>)
qed

lemma exclusive_other:
  assumes "canonical_uuid pg" and "exclusive pg s" and "other_step (store_step pg) s t"
  shows "exclusive pg t"
  using assms(3)
proof (cases rule: other_step.cases)
  case (moved db)
  then show ?thesis using exclusive_moves [OF assms(1,2) r_into_rtranclp [of "store_step pg", OF moved(2)]] by simp
next
  case cancelled
  then show ?thesis using assms(2) by (simp add: exclusive_def)
qed

interpretation pool_attempts: invariant_system
    "\<lambda>s. \<exists>ps db. s = pools_started ps db \<and> store_inv pg db" "store_pool_step cvt pg"
    "\<lambda>s. canonical_uuid pg \<longrightarrow> exclusive pg s" for cvt pg
proof
  fix s
  assume "\<exists>ps db. s = pools_started ps db \<and> store_inv pg db"
  then obtain ps db where s: "s = pools_started ps db" "store_inv pg db" by blast
  have "wk_control w = Claiming" if "w \<in> set (ps_workers s)" for w
    using that by (auto simp: s(1) pools_started_def Run_def)
  then have "job_of (wk_control (ps_workers s ! i)) = None" if "i < length (ps_workers s)" for i
    using that by simp
  then show "canonical_uuid pg \<longrightarrow> exclusive pg s" using s by (auto simp: exclusive_def pools_started_def)
next
  fix s t
  assume "canonical_uuid pg \<longrightarrow> exclusive pg s" and "store_pool_step cvt pg s t"
  then show "canonical_uuid pg \<longrightarrow> exclusive pg t"
    unfolding pool_step_def by (blast intro: exclusive_worker exclusive_other)
qed

lemma count_in_range:
  assumes "distinct xs" and "\<forall>a \<in> set xs. fst a = k \<longrightarrow> 1 \<le> snd a \<and> snd a \<le> (n::int)" and "0 \<le> n"
  shows "int (length (filter (\<lambda>a. fst a = k) xs)) \<le> n"
proof -
  let ?ys = "filter (\<lambda>a. fst a = k) xs"
  have "inj_on snd (set ?ys)" by (auto simp: inj_on_def prod_eq_iff)
  then have "card (snd ` set ?ys) = card (set ?ys)" by (rule card_image)
  also have "\<dots> = length ?ys" by (rule distinct_card [OF distinct_filter [OF assms(1)]])
  finally have "length ?ys = card (snd ` set ?ys)" ..
  also have "\<dots> \<le> card {1 .. n}" using assms(2) by (intro card_mono) auto
  finally show ?thesis using assms(3) by simp
qed

text \<open>C3. No attempt is worked on twice: with any number of instances and workers, in any interleaving with each
  other and with every other user of the store, at any moment no two workers hold the same
  attempt of a delivery, every attempt has been sent at most once, and so a delivery has been sent at most as
  often as attempts were begun, which never exceeds its budget.\<close>

theorem attempts_sent_once:
  assumes "canonical_uuid pg" and "store_inv pg db" and "(store_pool_step cvt pg)\<^sup>*\<^sup>* (pools_started ps db) s"
  shows "distinct (ps_sent s) \<and>
    (\<forall>i k j j'. i < length (ps_workers s) \<and> k < length (ps_workers s) \<and> job_of (wk_control (ps_workers s ! i)) = Some j \<and>
       job_of (wk_control (ps_workers s ! k)) = Some j' \<and> attempt_of j = attempt_of j' \<longrightarrow> i = k) \<and>
    (\<forall>a \<in> set (ps_sent s). tfind dr_id (fst a) (deliveries (ps_store s)) \<noteq> None) \<and>
    (\<forall>k d. tfind dr_id k (deliveries (ps_store s)) = Some d \<longrightarrow>
       int (length (filter (\<lambda>a. fst a = k) (ps_sent s))) \<le> dr_attempt_count d \<and> dr_attempt_count d \<le> dr_max_attempts d)"
proof -
  have e: "exclusive pg s"
    using pool_attempts.steps_inv [OF assms(3)] pool_attempts.init_inv assms(1,2) by blast
  then have sent: "distinct (ps_sent s)" "\<forall>a \<in> set (ps_sent s). begun (ps_store s) a"
    and inv: "store_inv pg (ps_store s)" by (auto simp: exclusive_def list_all_iff)
  have "int (length (filter (\<lambda>a. fst a = k) (ps_sent s))) \<le> dr_attempt_count d \<and> dr_attempt_count d \<le> dr_max_attempts d"
    if d: "tfind dr_id k (deliveries (ps_store s)) = Some d" for k d
  proof -
    have "d \<in> set (deliveries (ps_store s))" using d tfind_SomeD by metis
    then have "0 \<le> dr_attempt_count d" "dr_attempt_count d \<le> dr_max_attempts d"
      using inv by (auto simp: store_inv_def rows_ok_def schema_ok_def list_all_iff check_delivery_def)
    moreover have "\<forall>a \<in> set (ps_sent s). fst a = k \<longrightarrow> 1 \<le> snd a \<and> snd a \<le> dr_attempt_count d"
      using sent(2) d by (fastforce simp: begun_def)
    ultimately show ?thesis using count_in_range [OF sent(1), of k "dr_attempt_count d"] by blast
  qed
  moreover have "\<forall>a \<in> set (ps_sent s). tfind dr_id (fst a) (deliveries (ps_store s)) \<noteq> None"
    using sent(2) by (auto simp: begun_def)
  ultimately show ?thesis using sent(1) exclusive_job(3) [OF e] by blast
qed

text \<open>A concrete run: one pool of two workers; the first claims the only delivery and sends it.\<close>

definition sample_pool :: Pool where
  "sample_pool = \<lparr>pl_config = sample_config\<lparr>cf_Concurrency := 2\<rparr>, pl_instanceID = ''i''\<rparr>"

abbreviation sample_db_tick :: "db tick" where
  "sample_db_tick \<equiv> store_tick sample_pg sample_io (sample_gen 0) 3000000000 (\<lambda>_. False) (\<lambda>_. False) sample_env
     (NewDispatcher False 0) 3000000000 4000000000 (sample_gen 1) 4000000000 (Fin 0)"

lemma sample_pool_run:
  obtains s j where "(store_pool_step cvt sample_pg)\<^sup>*\<^sup>* (pools_started [sample_pool] sample_enqueued) s"
    and "job_of (wk_control (ps_workers s ! 0)) = Some j" and "job_of (wk_control (ps_workers s ! 1)) = None"
    and "ps_sent s = [attempt_of j]" and "length (ps_workers s) = 2"
proof -
  let ?s0 = "pools_started [sample_pool] sample_enqueued"
  have "int_text 1 = ''1''" "int_text 2 = ''2''" by code_simp+
  then have w: "worker_ids sample_pool = [''i/1'', ''i/2'']"
    by (simp add: worker_ids_def sample_pool_def upt_conv_Cons)
  have l: "cf_LeaseDuration (pl_config sample_pool) = 10000000000" by (simp add: sample_pool_def sample_config_def)
  have id: "trim_space ''i/1'' = ''i/1''" by (simp add: trim_space_graphic graphic_def code_def)
  have wt: "pg_text sample_pg ''i/1''" by (simp add: sample_text code_def)
  have "\<exists>j db'. ClaimDelivery sample_pg sample_io (sample_gen 0) 3000000000 (\<lambda>_. False) (\<lambda>_. False) ''i/1''
      10000000000 sample_enqueued = (Inr (Some j), db')"
    by (rule claim_progress [OF sample_inv(2) _ mono_sample sample_fresh_ids, where x = sample_dl_row])
      (simp_all add: id wt sample_io_def [abs_def] sample_enqueued_eq claimable_def sample_dl_row_def new_delivery_def
        endpoint_open_def tfind_Cons)
  then obtain j db where c: "ClaimDelivery sample_pg sample_io (sample_gen 0) 3000000000 (\<lambda>_. False) (\<lambda>_. False) ''i/1''
      10000000000 sample_enqueued = (Inr (Some j), db)" by blast
  have env: "store_env sample_pg False sample_db_tick"
    unfolding store_env_def store_tick_def by (rule exI [of _ sample_io]) auto
  let ?s1 = "advance 0 (Sending j) [ObserveClaim ''claimed'', AddInFlight 1] db ?s0"
  have "worker_step cvt (store_env sample_pg) ?s0 ?s1"
    by (rule worker_step.claim_job [where t = sample_db_tick])
      (use c env in \<open>simp_all add: stands_def pools_started_def Run_def w store_tick_def l\<close>)
  moreover define r where "r = tk_deliver sample_db_tick (job_request j)"
  define s2 where "s2 = (advance 0 (Building j r) [ObserveAttempt (wr_Decision r) (wr_Duration r)] (ps_store ?s1) ?s1)
      \<lparr>ps_sent := ps_sent ?s1 @ [attempt_of j]\<rparr>"
  have ws: "length (ps_workers ?s0) = 2" by (simp add: pools_started_def Run_def w)
  have "worker_step cvt (store_env sample_pg) ?s1 s2"
    unfolding s2_def
    by (rule worker_step.deliver [where t = sample_db_tick, OF _ _ r_def])
      (use env ws in \<open>simp_all add: stands_def wk_control_advance pools_started_def\<close>)
  ultimately have "(store_pool_step cvt sample_pg)\<^sup>*\<^sup>* ?s0 s2"
    by (meson pool_step_def rtranclp.rtrancl_refl rtranclp.rtrancl_into_rtrancl)
  moreover have "wk_control (ps_workers ?s0 ! 1) = Claiming" "ps_sent ?s0 = []"
    by (simp_all add: pools_started_def Run_def w)
  ultimately show thesis
    by (intro that [of s2 j]) (use ws in \<open>simp_all add: s2_def wk_control_advance\<close>)
qed

theorem attempts_sent_once_witness:
  "\<exists>s j. (store_pool_step (\<lambda>_. 0) sample_pg)\<^sup>*\<^sup>* (pools_started [sample_pool] sample_enqueued) s \<and>
    ps_sent s = [attempt_of j] \<and> tfind dr_id (fst (attempt_of j)) (deliveries (ps_store s)) \<noteq> None"
proof -
  obtain s j where s: "(store_pool_step (\<lambda>_. 0) sample_pg)\<^sup>*\<^sup>* (pools_started [sample_pool] sample_enqueued) s"
    "ps_sent s = [attempt_of j]" by (rule sample_pool_run)
  from attempts_sent_once [OF canonical_sample sample_inv(2) s(1)] s(2)
  have "tfind dr_id (fst (attempt_of j)) (deliveries (ps_store s)) \<noteq> None" by simp
  with s show ?thesis by blast
qed

section \<open>Metrics and shutdown of the pools\<close>

lemma total_busy: "total_of busy s = length (filter (\<lambda>w. job_of (wk_control w) \<noteq> None) (ps_workers s))"
proof -
  have "(\<Sum>w\<leftarrow>ws. busy (wk_control w)) = length (filter (\<lambda>w. job_of (wk_control w) \<noteq> None) ws)" for ws
    by (induction ws) (auto simp: busy_def)
  then show ?thesis by (simp add: total_of_def)
qed



text \<open>Pools stop: once the context is cancelled the workers make at most five more steps each, whatever others
  do to the store meanwhile, and while one has not returned some worker can take a step; so they all
  return, and a job that was already claimed is sent and finished first.\<close>

theorem cancelled_pools_stop:
  assumes "ps_cancelled s" and "pool_run cvt (store_env pg) (store_step pg) n s t"
  shows "n \<le> 5 * length (ps_workers s) \<and>
    ((\<forall>w \<in> set (ps_workers t). wk_control w = Returned) \<longleftrightarrow> (\<nexists>u. worker_step cvt (store_env pg) t u))"
  using assms by (rule store_pool.pool_stops)

theorem cancelled_pools_stop_witness:
  "let s = (pools_started [sample_pool] sample_enqueued)\<lparr>ps_cancelled := True\<rparr> in
   ps_cancelled s \<and> \<not> (\<nexists>u. worker_step (\<lambda>_. 0) (store_env sample_pg) s u) \<and>
   \<not> pool_run (\<lambda>_. 0) (store_env sample_pg) (store_step sample_pg) 11 s s"
proof -
  let ?s = "(pools_started [sample_pool] sample_enqueued)\<lparr>ps_cancelled := True\<rparr>"
  have c: "ps_cancelled ?s" by simp
  have l: "length (ps_workers ?s) = 2" by (simp add: pools_started_def Run_def worker_ids_def sample_pool_def)
  have "\<forall>w \<in> set (ps_workers ?s). wk_control w = Claiming" by (auto simp: pools_started_def Run_def)
  then have "\<not> (\<forall>w \<in> set (ps_workers ?s). wk_control w = Returned)"
    using l by (cases "ps_workers ?s") auto
  then have "\<exists>u. worker_step (\<lambda>_. 0) (store_env sample_pg) ?s u"
    using cancelled_pools_stop [OF c pool_run.start, where cvt = "\<lambda>_. 0" and pg = sample_pg] by blast
  moreover have "\<not> pool_run (\<lambda>_. 0) (store_env sample_pg) (store_step sample_pg) 11 ?s ?s"
    using cancelled_pools_stop [OF c, where cvt = "\<lambda>_. 0" and pg = sample_pg and n = 11 and t = ?s] l by auto
  ultimately show ?thesis by (simp add: Let_def)
qed

end
