(* ===== verification/Lease_Time.thy ===== *)
theory Lease_Time
  imports Worker_Store
begin

text \<open>
  A lease protects its holder. The steps of \<open>Store_System\<close> are restricted to those that respect a lease:
  whoever claims does so before the lease runs out, and nobody else presents its token. Under such
  steps the row of the delivery does not change at all, so a worker that finishes in time gets its
  result recorded whatever all others did in between.
\<close>

inductive respecting_step :: "pg \<Rightarrow> time \<Rightarrow> uuid \<Rightarrow> db \<Rightarrow> db \<Rightarrow> bool" for pg until token where
  claim: "ClaimDelivery pg io gen now skipR skipC w lease db = (rc, db') \<Longrightarrow> now < until \<Longrightarrow>
    respecting_step pg until token db db'"
| finish: "FinishAttempt pg io gen now r db = (rf, db') \<Longrightarrow> pg_uuid pg (rs_LeaseToken r) \<noteq> Some token \<Longrightarrow>
    respecting_step pg until token db db'"
| enqueue: "EnqueueEvent pg io now p db = (re, db') \<Longrightarrow> respecting_step pg until token db db'"
| replay: "ReplayDelivery pg io now i db = (rr, db') \<Longrightarrow> respecting_step pg until token db db'"
| create: "CreateEndpoint pg io now ep db = (rp, db') \<Longrightarrow> respecting_step pg until token db db'"
| disable: "DisableEndpoint pg io now i db = (rd, db') \<Longrightarrow> respecting_step pg until token db db'"
| rows_move: "reorder db db' \<Longrightarrow> respecting_step pg until token db db'"

lemma respecting_store_step: "respecting_step pg until token db db' \<Longrightarrow> store_step pg db db'"
  by (induction rule: respecting_step.induct) (auto intro: store_step.intros)

text \<open>What keeps a row: one lemma per transaction.\<close>

lemma claim_keeps_leased:
  assumes inv: "store_inv pg db" and b: "claim_body pg io gen now skipR skipC w lease db = Inr (j, db')"
    and d: "tfind dr_id k (deliveries db) = Some d" "dr_status d = StatusProcessing" "dr_locked_until d = Some u" "now < u"
  shows "tfind dr_id k (deliveries db') = Some d"
proof -
  have ok: "rows_ok pg {} db" using inv by (simp add: store_inv_def)
  from b obtain n db1 row where r: "recoverExpiredLeases pg io gen now skipR db = Inr (n, db1)"
    and q: "claim_query pg w (gen n) (milliseconds lease) now skipC db1 = Some (row, db')"
    by (rule claim_bodyE)
  note rec = recoverExpiredLeases_ok [OF ok r]
  have "k \<notin> dr_id ` set (expired_rows now skipR db)"
    using tfind_unique [OF rows_ok_dist [OF ok] d(1)] d(3,4) by (auto dest!: expired_rowsD simp: lease_expired_def)
  then have d1: "tfind dr_id k (deliveries db1) = Some d" using rec(6) [of k] d(1) by simp
  from rec(1) q show ?thesis
  proof (cases rule: claim_queryE)
    case none
    then show ?thesis using d1 by simp
  next
    case (some c tok v e)
    then have "k \<noteq> dr_id c" using claim_candidate_SomeD(2) [OF some(1)] d1 d(2) by (auto simp: claimable_def)
    then show ?thesis using d1 by (simp add: tfind_update_delivery [OF some(4)])
  qed
qed

lemma finish_keeps_leased:
  assumes inv: "store_inv pg db" and b: "finish_body pg io gen now r db = Inr (st, db')"
    and d: "tfind dr_id k (deliveries db) = Some d" "dr_lease_token d = Some token" "pg_uuid pg (rs_LeaseToken r) \<noteq> Some token"
  shows "tfind dr_id k (deliveries db') = Some d"
  using inv b
proof (rule finish_body_rows)
  fix j x
  assume "tfind dr_id j (deliveries db) = Some x" "dr_lease_token x = pg_uuid pg (rs_LeaseToken r)"
    "\<And>k. tfind dr_id k (deliveries db') = (if k = j then map_option (finish_row pg now r) (tfind dr_id k (deliveries db))
       else tfind dr_id k (deliveries db))"
  then show ?thesis using d by auto
qed

lemma enqueue_keeps:
  assumes "enqueue_body pg io now p db = Inr (q, db')" and "tfind dr_id k (deliveries db) = Some d"
  shows "tfind dr_id k (deliveries db') = Some d"
  using assms(1) by (cases rule: enqueue_body_rows) (use assms(2) in \<open>auto simp: tfind_append\<close>)

lemma replay_keeps_leased:
  assumes "replay_body pg io now i db = Inr (x, db')" and "tfind dr_id k (deliveries db) = Some d"
    and "dr_status d = StatusProcessing"
  shows "tfind dr_id k (deliveries db') = Some d"
proof -
  from assms(1) obtain j d' lim where d': "tfind dr_id j (deliveries db) = Some d'" "dr_status d' = StatusDead"
    and u: "update_delivery j (replay_row lim now) db = Some db'" by (rule replay_bodyE) blast
  then have "k \<noteq> j" using assms(2,3) by auto
  then show ?thesis using assms(2) by (simp add: tfind_update_delivery [OF u])
qed

definition leased :: "db \<Rightarrow> uuid \<Rightarrow> uuid \<Rightarrow> time \<Rightarrow> delivery_row \<Rightarrow> bool" where
  "leased db k token until d \<longleftrightarrow>
     tfind dr_id k (deliveries db) = Some d \<and> dr_status d = StatusProcessing \<and> dr_lease_token d = Some token \<and>
     dr_locked_until d = Some until"

lemma respecting_keeps_leased:
  assumes inv: "store_inv pg db" and l: "leased db k token until d" and step: "respecting_step pg until token db db'"
  shows "leased db' k token until d"
proof -
  have d: "tfind dr_id k (deliveries db) = Some d" "dr_status d = StatusProcessing" "dr_lease_token d = Some token"
    "dr_locked_until d = Some until" using l by (auto simp: leased_def)
  have ok: "rows_ok pg {} db" using inv by (simp add: store_inv_def)
  from step have "tfind dr_id k (deliveries db') = Some d"
  proof (cases rule: respecting_step.cases)
    case (claim io gen now skipR skipC w lease rc)
    then show ?thesis using d claim_keeps_leased [OF inv _ d(1,2,4) claim(2)]
      by (auto simp: ClaimDelivery_def Let_def split: if_splits elim: run_tx_cases)
  next
    case (finish io gen now r rf)
    then show ?thesis using d finish_keeps_leased [OF inv _ d(1,3) finish(2)]
      by (auto simp: FinishAttempt_def split: option.splits elim: run_tx_cases)
  next
    case (enqueue io now p re)
    then show ?thesis using d enqueue_keeps by (auto simp: EnqueueEvent_def elim: run_tx_cases)
  next
    case (replay io now i rr)
    then show ?thesis using d replay_keeps_leased by (auto simp: ReplayDelivery_def elim: run_tx_cases)
  next
    case (create io now ep rp)
    then show ?thesis using d endpoint_ops_frame(1) by (auto simp: CreateEndpoint_def split: prod.splits elim!: run_auto_cases)
  next
    case (disable io now i rd)
    then show ?thesis using d endpoint_ops_frame(2) by (auto elim!: DisableEndpoint_cases)
  next
    case rows_move
    then show ?thesis using d reorder_tfind(1) [OF ok] by simp
  qed
  with d show ?thesis by (simp add: leased_def)
qed

interpretation lease: invariant_system
    "\<lambda>db. store_inv pg db \<and> leased db k token until d" "respecting_step pg until token"
    "\<lambda>db. canonical_uuid pg \<longrightarrow> store_inv pg db \<and> leased db k token until d" for pg k token until d
  by unfold_locales (auto intro: store_inv_step respecting_store_step respecting_keeps_leased)

text \<open>The lease that a claim gives, as the worker sees it in its job.\<close>

lemma claim_leases:
  assumes can: "canonical_uuid pg" and inv: "store_inv pg db"
    and c: "ClaimDelivery pg io gen now skipR skipC w lease db = (Inr (Some j), db')"
  obtains d where "leased db' (dl_ID (jb_Delivery j)) (dl_LeaseToken (jb_Delivery j)) (now + milliseconds lease * millisecond) d"
    and "holds_lease (dl_ID (jb_Delivery j)) (trim_space w) (dl_LeaseToken (jb_Delivery j)) (dl_AttemptCount (jb_Delivery j)) d"
proof -
  from can inv c obtain d where d: "d \<in> set (deliveries db')" "dr_id d = dl_ID (jb_Delivery j)"
    "holds_lease (dl_ID (jb_Delivery j)) (trim_space w) (dl_LeaseToken (jb_Delivery j)) (dl_AttemptCount (jb_Delivery j)) d"
    and inv': "store_inv pg db'" by (rule claimed_job_lease)
  have tf: "tfind dr_id (dr_id d) (deliveries db') = Some d"
    using inv' d(1) by (intro tfind_key rows_ok_dist) (auto simp: store_inv_def)
  from claim_hands_out [OF inv c] obtain k d' where d': "tfind dr_id k (deliveries db') = Some d'"
    "dr_locked_until d' = Some (now + milliseconds lease * millisecond)" "jb_Delivery j = scanDelivery d'" by blast
  then have "dr_id d' = k" "dr_id d' = dl_ID (jb_Delivery j)" using tfind_SomeD by (metis, simp add: scanDelivery_def)
  with d' tf d show thesis by (intro that [of d]) (auto simp: leased_def holds_lease_def)
qed


text \<open>In the sample run the endpoint is disabled while the webhook is under way; the result is still
  recorded.\<close>

definition disabling :: "db \<Rightarrow> db" where
  "disabling db = snd (DisableEndpoint sample_pg sample_io 3500000000 ''ep'' db)"

lemma disabling_sample:
  "attempts (disabling sample_claimed) = []" "\<forall>e \<in> set (endpoints (disabling sample_claimed)). er_consecutive_failures e = 0"
  by (simp_all add: disabling_def DisableEndpoint_def run_auto_def disable_query_def sample_claimed_eq(2) tfind_Cons
      update_endpoint_def tupdate_def disable_row_def check_endpoint_def sample_ep_row_def new_endpoint_def sample_endpoint_def
      milliseconds_def sdiv_nonneg_eq_div sample_io_def Let_def)


end
