(* ===== verification/Http_Client.thy ===== *)
theory Http_Client
  imports Webhook Dialer
begin

text \<open>
  \<^verbatim>\<open>NewDispatcher\<close> in full and \<^verbatim>\<open>NewSafeDialer\<close>: the HTTP client of the dispatcher, whose transport dials only
  through the safe dialer, uses no proxy and does not follow redirects. \<^verbatim>\<open>net/http\<close> itself is a parameter:
  given a client and a request it calls the transport's dial function some number of times, sends some
  requests and returns a result. Of its documented behaviour one thing is used, stated as
  \<open>stops_at_redirects\<close>: with \<^verbatim>\<open>ErrUseLastResponse\<close> no other request is sent than the one given.
\<close>

section \<open>The safe dialer as a value\<close>

record 'c SafeDialer =
  sd_resolver :: "string \<Rightarrow> (go_error, addr list) result"
  sd_dialer :: "string \<Rightarrow> addr \<Rightarrow> string \<Rightarrow> (go_error, 'c) result"
  sd_allowPrivate :: bool

definition NewSafeDialer ::
  "(string \<Rightarrow> (go_error, addr list) result) \<Rightarrow> (string \<Rightarrow> addr \<Rightarrow> string \<Rightarrow> (go_error, 'c) result) \<Rightarrow> bool
    \<Rightarrow> 'c SafeDialer" where
  "NewSafeDialer resolver dialer allowPrivate =
     \<lparr>sd_resolver = resolver, sd_dialer = dialer, sd_allowPrivate = allowPrivate\<rparr>"

definition safe_dial ::
  "(string \<Rightarrow> addr option) \<Rightarrow> (addr \<Rightarrow> string) \<Rightarrow> 'c SafeDialer \<Rightarrow> string \<Rightarrow> string \<Rightarrow> addr list \<times> (go_error, 'c) result" where
  "safe_dial parseAddr addrText d =
     DialContext \<lparr>ne_parse = parseAddr, ne_text = addrText, ne_lookup = sd_resolver d, ne_dial = sd_dialer d\<rparr>
       (sd_allowPrivate d)"

section \<open>Transport, client and options\<close>

record 'c Transport =
  tp_Proxy :: "string option"
  tp_DialContext :: "string \<Rightarrow> string \<Rightarrow> addr list \<times> (go_error, 'c) result"
  tp_ForceAttemptHTTP2 :: bool
  tp_MaxIdleConns :: int
  tp_MaxIdleConnsPerHost :: int
  tp_IdleConnTimeout :: duration
  tp_TLSHandshakeTimeout :: duration
  tp_TLSMinVersion :: nat
  tp_ExpectContinueTimeout :: duration
  tp_MaxResponseHeaderBytes :: int

datatype redirect_policy = FollowRedirects | UseLastResponse

record 'c Client =
  cl_Transport :: "'c Transport"
  cl_CheckRedirect :: redirect_policy

record 'c WebhookOptions =
  wo_AllowHTTP :: bool
  wo_AllowPrivateTargets :: bool
  wo_Resolver :: "(string \<Rightarrow> (go_error, addr list) result) option"
  wo_Dialer :: "(string \<Rightarrow> addr \<Rightarrow> string \<Rightarrow> (go_error, 'c) result) option"
  wo_ResponseLimit :: int

text \<open>What the standard library provides: address syntax, the default resolver and the default dialer.\<close>

record 'c net_defaults =
  nd_parse :: "string \<Rightarrow> addr option"
  nd_text :: "addr \<Rightarrow> string"
  nd_resolver :: "string \<Rightarrow> (go_error, addr list) result"
  nd_dialer :: "string \<Rightarrow> addr \<Rightarrow> string \<Rightarrow> (go_error, 'c) result"

definition with_default :: "'a \<Rightarrow> 'a option \<Rightarrow> 'a" where
  "with_default d x = (case x of None \<Rightarrow> d | Some y \<Rightarrow> y)"

definition new_transport :: "'c net_defaults \<Rightarrow> 'c WebhookOptions \<Rightarrow> 'c Transport" where
  "new_transport nd options =
     (let resolver = with_default (nd_resolver nd) (wo_Resolver options);
          dialer = with_default (nd_dialer nd) (wo_Dialer options);
          safeDialer = NewSafeDialer resolver dialer (wo_AllowPrivateTargets options)
      in \<lparr>tp_Proxy = None, tp_DialContext = safe_dial (nd_parse nd) (nd_text nd) safeDialer,
          tp_ForceAttemptHTTP2 = True, tp_MaxIdleConns = 100, tp_MaxIdleConnsPerHost = 10,
          tp_IdleConnTimeout = 90 * second, tp_TLSHandshakeTimeout = 10 * second, tp_TLSMinVersion = 0x0303,
          tp_ExpectContinueTimeout = second, tp_MaxResponseHeaderBytes = 65536\<rparr>)"

definition BuildDispatcher :: "'c net_defaults \<Rightarrow> 'c WebhookOptions \<Rightarrow> 'c Client \<times> Dispatcher" where
  "BuildDispatcher nd options =
     (\<lparr>cl_Transport = new_transport nd options, cl_CheckRedirect = UseLastResponse\<rparr>,
      NewDispatcher (wo_AllowHTTP options) (wo_ResponseLimit options))"

text \<open>\<^verbatim>\<open>Close\<close> asks the transport to close its idle connections, which is \<^verbatim>\<open>net/http\<close>'s: a function of the transport and
  of what the process holds.\<close>

definition Dispatcher_Close :: "('c Transport \<Rightarrow> 'w \<Rightarrow> 'w) \<Rightarrow> 'c Client \<times> Dispatcher \<Rightarrow> 'w \<Rightarrow> 'w" where
  "Dispatcher_Close closeIdleConnections d = closeIdleConnections (cl_Transport (fst d))"

section \<open>An exchange\<close>

text \<open>What \<^verbatim>\<open>Client.Do\<close> does: the calls of the transport's dial function with network and address, the requests
  that go out, and the result.\<close>

record exchange =
  xc_dials :: "(string \<times> string) list"
  xc_sent :: "http_request list"
  xc_result :: "(go_error, http_response) result"

type_synonym 'c http_lib = "'c Client \<Rightarrow> http_request \<Rightarrow> exchange"

definition connections :: "'c Client \<Rightarrow> exchange \<Rightarrow> addr list" where
  "connections c x = concat (map (\<lambda>(network, address). fst (tp_DialContext (cl_Transport c) network address)) (xc_dials x))"

definition stops_at_redirects :: "'c http_lib \<Rightarrow> bool" where
  "stops_at_redirects lib \<longleftrightarrow>
     (\<forall>c q. cl_CheckRedirect c = UseLastResponse \<longrightarrow> set (xc_sent (lib c q)) \<subseteq> {q})"

text \<open>\<^verbatim>\<open>Deliver\<close> with its client.\<close>

definition deliver_over ::
  "'c http_lib \<Rightarrow> web_env \<Rightarrow> 'c Client \<times> Dispatcher \<Rightarrow> time \<Rightarrow> time \<Rightarrow> Request \<Rightarrow> exchange list \<times> Result" where
  "deliver_over lib env cd startedAt completedAt input =
     (case cd of (client, d) \<Rightarrow>
      case Deliver (env\<lparr>we_do := (\<lambda>q. xc_result (lib client q))\<rparr>) d startedAt completedAt input of
        (requests, r) \<Rightarrow> (map (lib client) requests, r))"

lemma safe_dial_allowed:
  assumes "a \<in> set (fst (safe_dial parseAddr addrText d network address))"
  shows "addressAllowed a (sd_allowPrivate d)"
  using assms dialled_allowed unfolding safe_dial_def by fastforce

lemma connections_allowed:
  assumes "a \<in> set (connections (fst (BuildDispatcher nd options)) x)"
  shows "addressAllowed a (wo_AllowPrivateTargets options)"
proof -
  from assms obtain network address where
    a: "a \<in> set (fst (tp_DialContext (new_transport nd options) network address))"
    by (auto simp: connections_def BuildDispatcher_def)
  let ?d = "NewSafeDialer (with_default (nd_resolver nd) (wo_Resolver options))
      (with_default (nd_dialer nd) (wo_Dialer options)) (wo_AllowPrivateTargets options)"
  have "tp_DialContext (new_transport nd options) = safe_dial (nd_parse nd) (nd_text nd) ?d"
    by (simp add: new_transport_def Let_def)
  with a have "addressAllowed a (sd_allowPrivate ?d)" using safe_dial_allowed by metis
  then show ?thesis by (simp add: NewSafeDialer_def)
qed

lemma deliver_over_requests:
  assumes "stops_at_redirects lib" and "deliver_over lib env (BuildDispatcher nd options) t u input = (xs, r)"
  shows "length xs \<le> 1" and "x \<in> set xs \<Longrightarrow> q \<in> set (xc_sent x) \<Longrightarrow>
    hq_url q = rq_TargetURL input \<and> hq_body q = rq_Payload input \<and>
    (we_scheme env (rq_TargetURL input) = Inr ''https'' \<or>
     wo_AllowHTTP options \<and> we_scheme env (rq_TargetURL input) = Inr ''http'')"
proof -
  let ?c = "fst (BuildDispatcher nd options)" and ?d = "snd (BuildDispatcher nd options)"
  let ?env = "env\<lparr>we_do := (\<lambda>q. xc_result (lib ?c q))\<rparr>"
  obtain qs r' where qs: "Deliver ?env ?d t u input = (qs, r')" by fastforce
  then have xs: "xs = map (lib ?c) qs" using assms(2) by (simp add: deliver_over_def case_prod_beta)
  have allow: "ds_allowHTTP ?d = wo_AllowHTTP options" by (simp add: BuildDispatcher_def NewDispatcher_def)
  have one: "length qs \<le> 1 \<and> (\<forall>q \<in> set qs. hq_url q = rq_TargetURL input \<and> hq_body q = rq_Payload input \<and>
      (we_scheme env (rq_TargetURL input) = Inr ''https'' \<or>
       wo_AllowHTTP options \<and> we_scheme env (rq_TargetURL input) = Inr ''http''))"
    using qs by (cases rule: Deliver_cases [of ?env ?d t u input]) (auto simp: allow webhook_request_def Let_def)
  then show "length xs \<le> 1" by (simp add: xs)
  have "set (xc_sent (lib ?c q)) \<subseteq> {q}" for q
    using assms(1) by (simp add: stops_at_redirects_def BuildDispatcher_def)
  then show "hq_url q = rq_TargetURL input \<and> hq_body q = rq_Payload input \<and>
      (we_scheme env (rq_TargetURL input) = Inr ''https'' \<or>
       wo_AllowHTTP options \<and> we_scheme env (rq_TargetURL input) = Inr ''http'')"
    if "x \<in> set xs" "q \<in> set (xc_sent x)" using that one by (fastforce simp: xs)
qed

text \<open>C14. Deliveries stay within the allowed network, end to end: for a dispatcher with any options, every connection
  that is opened for a delivery (whatever the target, its DNS records and its answers, redirects
  included) goes to an address that the filter admits; there is no proxy; TLS is at least 1.2; and at
  most one request is made, to the target URL, which is never left for another.\<close>

theorem delivery_stays_in_bounds:
  assumes "stops_at_redirects lib" and "deliver_over lib env (BuildDispatcher nd options) t u input = (xs, r)"
  shows "length xs \<le> 1 \<and>
    (\<forall>x \<in> set xs. (\<forall>a \<in> set (connections (fst (BuildDispatcher nd options)) x). addressAllowed a (wo_AllowPrivateTargets options)) \<and>
       (\<forall>q \<in> set (xc_sent x). hq_url q = rq_TargetURL input \<and> hq_body q = rq_Payload input)) \<and>
    tp_Proxy (cl_Transport (fst (BuildDispatcher nd options))) = None \<and>
    0x0303 \<le> tp_TLSMinVersion (cl_Transport (fst (BuildDispatcher nd options)))"
proof (intro conjI ballI)
  show "addressAllowed a (wo_AllowPrivateTargets options)"
    if "a \<in> set (connections (fst (BuildDispatcher nd options)) x)" for x a using that by (rule connections_allowed)
qed (use deliver_over_requests [OF assms] in \<open>auto simp: BuildDispatcher_def new_transport_def Let_def\<close>)

definition sample_defaults :: "string net_defaults" where
  "sample_defaults =
     \<lparr>nd_parse = (\<lambda>_. None), nd_text = (\<lambda>_. ''10.0.0.1''),
      nd_resolver = (\<lambda>_. Inr [Addr4 (ipv4 10 0 0 1)]), nd_dialer = (\<lambda>_ _ _. Inr ''connection'')\<rparr>"

definition sample_lib :: "string http_lib" where
  "sample_lib c q =
     \<lparr>xc_dials = [(''tcp'', ''hooks.example.com:443'')],
      xc_sent = (case snd (tp_DialContext (cl_Transport c) ''tcp'' ''hooks.example.com:443'') of Inl _ \<Rightarrow> [] | Inr _ \<Rightarrow> [q]),
      xc_result = (case snd (tp_DialContext (cl_Transport c) ''tcp'' ''hooks.example.com:443'') of
         Inl e \<Rightarrow> Inl e | Inr _ \<Rightarrow> Inr \<lparr>hr_status = 302, hr_body = [], hr_error = None\<rparr>)\<rparr>"

definition sample_options :: "string WebhookOptions" where
  "sample_options =
     \<lparr>wo_AllowHTTP = False, wo_AllowPrivateTargets = False, wo_Resolver = None, wo_Dialer = None, wo_ResponseLimit = 0\<rparr>"

text \<open>A target whose name resolves to a private address: the exchange is made, the address is not dialled.\<close>

theorem delivery_stays_in_bounds_witness:
  "\<exists>x. fst (deliver_over sample_lib sample_env (BuildDispatcher sample_defaults sample_options) 5000000000 6000000000
      sample_request) = [x] \<and>
     Addr4 (ipv4 10 0 0 1) \<notin> set (connections (fst (BuildDispatcher sample_defaults sample_options)) x)"
proof -
  let ?b = "BuildDispatcher sample_defaults sample_options"
  obtain xs r where D: "deliver_over sample_lib sample_env ?b 5000000000 6000000000 sample_request = (xs, r)"
    by fastforce
  obtain x where xs: "xs = [x]"
    using D by (auto simp: deliver_over_def Deliver_def sample_env_def sample_request_def BuildDispatcher_def Let_def
        split: prod.splits sum.splits)
  have "stops_at_redirects sample_lib"
    by (auto simp: stops_at_redirects_def sample_lib_def split: sum.split)
  from delivery_stays_in_bounds [OF this D] xs
  have "\<forall>a \<in> set (connections (fst ?b) x). addressAllowed a False" by (simp add: sample_options_def)
  moreover have "\<not> addressAllowed (Addr4 (ipv4 10 0 0 1)) False"
    by (simp add: addressAllowed_def class4_iff in4_def ipv4_def Let_def)
  ultimately show ?thesis using D xs by auto
qed

end
