(* ===== verification/Api_Metrics.thy ===== *)
theory Api_Metrics
  imports Api_Store Metrics
begin

text \<open>
  The construction of the server (\<^verbatim>\<open>api.New\<close> with its \<^verbatim>\<open>Dependencies\<close>) and the
  request metrics: every request that the server answers is observed by \<^verbatim>\<open>ObserveHTTPRequest\<close>.
\<close>

section \<open>The server and its dependencies\<close>

record 's EndpointService =
  es_Create :: "CreateInput \<Rightarrow> 's \<Rightarrow> (go_error, Created) result \<times> 's"
  es_List :: "int \<Rightarrow> 's \<Rightarrow> (go_error, endpoint list) result"
  es_Get :: "string \<Rightarrow> 's \<Rightarrow> (go_error, endpoint) result"
  es_Disable :: "string \<Rightarrow> 's \<Rightarrow> (go_error, endpoint) result \<times> 's"

record 's EventService =
  vs_Publish :: "PublishInput \<Rightarrow> 's \<Rightarrow> (go_error, Enqueued) result \<times> 's"

record 's DeliveryService =
  ys_Get :: "string \<Rightarrow> 's \<Rightarrow> (go_error, Details) result \<times> 's"
  ys_Replay :: "string \<Rightarrow> 's \<Rightarrow> (go_error, delivery) result \<times> 's"

text \<open>\<open>dp_Metrics\<close> and \<open>dp_HTTPObserver\<close> tell whether a handler and an observer are given.\<close>

record 's Dependencies =
  dp_Readiness :: "'s \<Rightarrow> go_error option"
  dp_APIKey :: string
  dp_Endpoints :: "'s EndpointService"
  dp_Events :: "'s EventService"
  dp_Deliveries :: "'s DeliveryService"
  dp_Metrics :: bool
  dp_HTTPObserver :: bool

definition New :: "Info \<Rightarrow> time \<Rightarrow> 's Dependencies \<Rightarrow> 's Server" where
  "New buildInfo startedAt dependencies =
     \<lparr>sv_apiKey = dp_APIKey dependencies, sv_create = es_Create (dp_Endpoints dependencies),
      sv_list = es_List (dp_Endpoints dependencies), sv_get = es_Get (dp_Endpoints dependencies),
      sv_disable = es_Disable (dp_Endpoints dependencies), sv_publish = vs_Publish (dp_Events dependencies),
      sv_details = ys_Get (dp_Deliveries dependencies), sv_replay = ys_Replay (dp_Deliveries dependencies),
      sv_readiness = dp_Readiness dependencies, sv_metrics = dp_Metrics dependencies, sv_httpObserver = dp_HTTPObserver dependencies,
      sv_buildInfo = buildInfo, sv_startedAt = startedAt\<rparr>"

text \<open>\<^verbatim>\<open>DB.Ping\<close> asks the pool and gives its error.\<close>

definition Ping :: "io \<Rightarrow> 's \<Rightarrow> go_error option" where
  "Ping io _ = (case io ''ping'' of Works \<Rightarrow> None | Breaks m \<Rightarrow> Some (ErrNew m) | BreaksApplied m \<Rightarrow> Some (ErrNew m))"

section \<open>Observed requests\<close>

text \<open>The server answers a sequence of requests, each with the time it took; the server value may differ from
  request to request, since it carries what the environment does. Between two requests the state may change.\<close>

type_synonym 's call = "'s Server \<times> json_env \<times> request \<times> duration \<times> ('s \<Rightarrow> 's)"

fun answer :: "'s call \<Rightarrow> (string \<times> string \<times> int) list \<times> Metrics \<times> 's \<Rightarrow> (string \<times> string \<times> int) list \<times> Metrics \<times> 's" where
  "answer (sv, je, r, took, others) (seen, x, s) =
     (case Handler sv je r (others s) of
        ((m, rt, st), _, s') \<Rightarrow>
          if sv_httpObserver sv then (seen @ [(m, rt, st)], ObserveHTTPRequest m rt st took x, s') else (seen, x, s'))"

definition observed :: "'s call \<Rightarrow> bool" where
  "observed c \<longleftrightarrow> sv_httpObserver (fst c)"

definition route_labels :: "string set" where
  "route_labels =
     {''unmatched'', ''/v1/'', ''GET /health/live'', ''GET /health/ready'', ''GET /version'', ''GET /metrics''} \<union>
     pt_text ` set private_patterns"

lemma mux_find_in: "mux_find ps r = Some (p, vs) \<Longrightarrow> p \<in> set ps"
  by (auto simp: mux_find_def find_Some_iff split: option.splits)

lemma serve_label:
  assumes "serve sv je ps r s = (matched, resp, s')"
  shows "matched = [] \<or> matched \<in> pt_text ` set ps"
  using assms by (auto simp: serve_def dest: mux_find_in split: option.splits)

lemma observed_route:
  assumes "Handler sv je r s = ((m, rt, st), resp, s')"
  shows "m = rt_Method r \<and> rt \<in> route_labels \<and> st = re_Status resp"
proof -
  have pub: "pt_text ` set (public_patterns sv) \<subseteq> route_labels"
    by (auto simp: public_patterns_def pattern_of_def route_labels_def)
  have priv: "pt_text ` set private_patterns \<subseteq> route_labels" "''/v1/'' \<in> route_labels" by (auto simp: route_labels_def)
  have "matched = [] \<or> matched \<in> route_labels"
    if "serve sv je (public_patterns sv) r s = (matched, a, b) \<or> authenticate sv je r s = (matched, a, b)" for matched a b
    using that priv pub serve_label [of sv je "public_patterns sv" r s matched a b]
      serve_label [of sv je private_patterns r s matched a b]
    by (auto simp: authenticate_def split: if_splits)
  moreover have "''unmatched'' \<in> route_labels" by (simp add: route_labels_def)
  ultimately show ?thesis using assms
    by (auto simp: Handler_def accessLog_def split: prod.splits if_splits)
qed

lemma inc_count: "inc k f j = f j + of_bool (j = k)"
  by (simp add: inc_def)



end
