(* ===== verification/Shutdown.thy ===== *)
theory Shutdown
  imports Startup Pool_Store
begin

text \<open>
  The goroutines of \<^verbatim>\<open>run\<close> in \<^verbatim>\<open>cmd/relayforge/main.go\<close>: the main goroutine with its three \<^verbatim>\<open>select\<close>s, the
  goroutine of the HTTP server, which sends the error of \<^verbatim>\<open>ListenAndServe\<close> into a channel of capacity one, the
  one that closes \<^verbatim>\<open>workersDone\<close> after the pool has returned, and the workers of the pool (\<open>Worker_Pool\<close>).
  The server may end at any time with any error, a signal may arrive at any time, and other instances
  use the store meanwhile. \<open>Startup.run_server\<close> is the sequential view of the same code; every
  outcome of the goroutines is one of its outcomes.
\<close>

section \<open>State\<close>

text \<open>Where the main goroutine stands; the argument is \<^verbatim>\<open>serveErr\<close>.\<close>

datatype main_control =
    Selecting
  | Stopping "go_error option"          \<comment> \<open>before \<^verbatim>\<open>stop()\<close>\<close>
  | ShuttingDown "go_error option"      \<comment> \<open>in \<^verbatim>\<open>server.Shutdown\<close>\<close>
  | Draining "go_error option"          \<comment> \<open>second \<^verbatim>\<open>select\<close>\<close>
  | Joining "go_error option"           \<comment> \<open>third \<^verbatim>\<open>select\<close>\<close>
  | Finished "go_error option"          \<comment> \<open>the result of \<^verbatim>\<open>run\<close>\<close>

record 's service_state =
  sh_pool :: "'s pool_state"
  sh_main :: main_control
  sh_serving :: bool
  sh_errCh :: "go_error list"
  sh_workersDone :: bool
  sh_deadline :: bool
  sh_trace :: "action list"

definition service_started :: "Pool \<Rightarrow> 's \<Rightarrow> 's service_state" where
  "service_started p db =
     \<lparr>sh_pool = pools_started [p] db, sh_main = Selecting, sh_serving = True, sh_errCh = [], sh_workersDone = False,
      sh_deadline = False, sh_trace = [WorkersStarted, ServerStarted]\<rparr>"

fun stopping :: "main_control \<Rightarrow> bool" where
  "stopping Selecting = False"
| "stopping (Stopping _) = False"
| "stopping _ = True"

section \<open>Steps\<close>

text \<open>\<^verbatim>\<open>server.Shutdown\<close> returns, if only because its context expires; its result is free. The timer of the
  second \<^verbatim>\<open>select\<close> may win at any time.\<close>

inductive service_step ::
  "(float64 \<Rightarrow> int) \<Rightarrow> (bool \<Rightarrow> 's tick \<Rightarrow> bool) \<Rightarrow> 's service_state \<Rightarrow> 's service_state \<Rightarrow> bool" for cvt env where
  signalled: "sh_main s = Selecting \<Longrightarrow> ps_cancelled (sh_pool s) \<Longrightarrow> service_step cvt env s (s\<lparr>sh_main := Stopping None\<rparr>)"
| serve_ended: "sh_main s = Selecting \<Longrightarrow> sh_errCh s = e # es \<Longrightarrow>
    service_step cvt env s (s\<lparr>sh_main := Stopping (unexpected ''serve http'' (Some e)), sh_errCh := es\<rparr>)"
| stop: "sh_main s = Stopping x \<Longrightarrow>
    service_step cvt env s (s\<lparr>sh_main := ShuttingDown x, sh_pool := (sh_pool s)\<lparr>ps_cancelled := True\<rparr>,
      sh_trace := sh_trace s @ [ContextStopped]\<rparr>)"
| shut_down: "sh_main s = ShuttingDown x \<Longrightarrow>
    service_step cvt env s (s\<lparr>sh_main := (case err of None \<Rightarrow> Draining x
        | Some e \<Rightarrow> Finished (Some (WrapPrefix ''shutdown http server'' e))),
      sh_trace := sh_trace s @ [ServerShutdown]\<rparr>)"
| drained: "sh_main s = Draining x \<Longrightarrow> sh_errCh s = e # es \<Longrightarrow>
    service_step cvt env s (s\<lparr>sh_main := (case unexpected ''stop http server'' (Some e) of None \<Rightarrow> Joining x
        | Some e' \<Rightarrow> Finished (Some e')), sh_errCh := es\<rparr>)"
| waited: "sh_main s = Draining x \<Longrightarrow> service_step cvt env s (s\<lparr>sh_main := Joining x\<rparr>)"
| joined: "sh_main s = Joining x \<Longrightarrow> sh_workersDone s \<Longrightarrow>
    service_step cvt env s (s\<lparr>sh_main := Finished x, sh_trace := sh_trace s @ [WorkersJoined]\<rparr>)"
| expired: "sh_main s = Joining x \<Longrightarrow> sh_deadline s \<Longrightarrow>
    service_step cvt env s
      (s\<lparr>sh_main := Finished (Some (ErrNew ''delivery workers did not stop before shutdown timeout''))\<rparr>)"
| deadline: "stopping (sh_main s) \<Longrightarrow> \<not> sh_deadline s \<Longrightarrow> service_step cvt env s (s\<lparr>sh_deadline := True\<rparr>)"
| served: "sh_serving s \<Longrightarrow> length (sh_errCh s) < 1 \<Longrightarrow>
    service_step cvt env s (s\<lparr>sh_serving := False, sh_errCh := sh_errCh s @ [e]\<rparr>)"
| workers_done: "\<forall>w \<in> set (ps_workers (sh_pool s)). wk_control w = Returned \<Longrightarrow> \<not> sh_workersDone s \<Longrightarrow>
    service_step cvt env s (s\<lparr>sh_workersDone := True\<rparr>)"
| working: "worker_step cvt env (sh_pool s) p \<Longrightarrow> service_step cvt env s (s\<lparr>sh_pool := p\<rparr>)"

text \<open>Runs, with the number of steps that the process makes; the rest is what \<open>other_step\<close> allows: other users of the
  store, and the signal.\<close>

inductive service_run ::
  "(float64 \<Rightarrow> int) \<Rightarrow> (bool \<Rightarrow> 's tick \<Rightarrow> bool) \<Rightarrow> ('s \<Rightarrow> 's \<Rightarrow> bool) \<Rightarrow> nat \<Rightarrow> 's service_state \<Rightarrow> 's service_state \<Rightarrow> bool"
  for cvt env moves where
  start: "service_run cvt env moves 0 s s"
| own: "service_run cvt env moves n s t \<Longrightarrow> service_step cvt env t u \<Longrightarrow> service_run cvt env moves (Suc n) s u"
| other: "service_run cvt env moves n s t \<Longrightarrow> other_step moves (sh_pool t) p \<Longrightarrow>
    service_run cvt env moves n s (t\<lparr>sh_pool := p\<rparr>)"

section \<open>Every outcome is one of the sequential view\<close>

text \<open>What the first \<^verbatim>\<open>select\<close> received: a signal, or the error of the server, which then sends nothing more.\<close>

definition ended_by :: "'s service_state \<Rightarrow> go_error option \<Rightarrow> go_error option \<Rightarrow> bool" where
  "ended_by s first x \<longleftrightarrow> x = unexpected ''serve http'' first \<and> (first \<noteq> None \<longrightarrow> \<not> sh_serving s \<and> sh_errCh s = [])"

lemma ended_by_signal [simp]: "ended_by s None None"
  by (simp add: ended_by_def unexpected_def)

definition main_inv :: "'s service_state \<Rightarrow> bool" where
  "main_inv s \<longleftrightarrow>
     (case sh_main s of
        Selecting \<Rightarrow> sh_trace s = [WorkersStarted, ServerStarted]
      | Stopping x \<Rightarrow> (\<exists>first. ended_by s first x) \<and> sh_trace s = [WorkersStarted, ServerStarted]
      | ShuttingDown x \<Rightarrow> (\<exists>first. ended_by s first x) \<and> sh_trace s = [WorkersStarted, ServerStarted, ContextStopped]
      | Draining x \<Rightarrow>
          (\<exists>first. ended_by s first x) \<and> sh_trace s = [WorkersStarted, ServerStarted, ContextStopped, ServerShutdown]
      | Joining x \<Rightarrow>
          (\<exists>first. ended_by s first x) \<and> sh_trace s = [WorkersStarted, ServerStarted, ContextStopped, ServerShutdown]
      | Finished err \<Rightarrow>
          (\<exists>sv. run_server sv = (sh_trace s, err)) \<and> (WorkersJoined \<in> set (sh_trace s) \<longrightarrow> sh_workersDone s))"

definition channel_inv :: "'s service_state \<Rightarrow> bool" where
  "channel_inv s \<longleftrightarrow> length (sh_errCh s) \<le> 1 \<and> (sh_serving s \<longrightarrow> sh_errCh s = []) \<and>
     (stopping (sh_main s) \<longrightarrow> ps_cancelled (sh_pool s)) \<and>
     (sh_workersDone s \<longrightarrow> (\<forall>w \<in> set (ps_workers (sh_pool s)). wk_control w = Returned))"

lemma run_server_outcomes:
  "run_server \<lparr>sv_first = first, sv_shutdown = Some e, sv_second = None, sv_workers_done = False\<rparr> =
     ([WorkersStarted, ServerStarted, ContextStopped, ServerShutdown], Some (WrapPrefix ''shutdown http server'' e))"
  "unexpected ''stop http server'' (Some e) = Some e' \<Longrightarrow>
     run_server \<lparr>sv_first = None, sv_shutdown = None, sv_second = Some e, sv_workers_done = False\<rparr> =
       ([WorkersStarted, ServerStarted, ContextStopped, ServerShutdown], Some e')"
  "run_server \<lparr>sv_first = first, sv_shutdown = None, sv_second = None, sv_workers_done = True\<rparr> =
     ([WorkersStarted, ServerStarted, ContextStopped, ServerShutdown, WorkersJoined], unexpected ''serve http'' first)"
  "run_server \<lparr>sv_first = first, sv_shutdown = None, sv_second = None, sv_workers_done = False\<rparr> =
     ([WorkersStarted, ServerStarted, ContextStopped, ServerShutdown],
      Some (ErrNew ''delivery workers did not stop before shutdown timeout''))"
  by (simp_all add: run_server_def unexpected_def [of _ None] Let_def)

lemma returned_stays:
  assumes "worker_step cvt env p q" and "\<forall>w \<in> set (ps_workers p). wk_control w = Returned"
  shows False
  using assms by (auto elim!: worker_stepE simp: stands_def)

lemma worker_step_cancelled: "worker_step cvt env p q \<Longrightarrow> ps_cancelled q = ps_cancelled p"
  by (auto elim!: worker_stepE)

lemma channel_inv_step: "service_step cvt env s t \<Longrightarrow> channel_inv s \<Longrightarrow> channel_inv t"
proof (induction rule: service_step.induct)
  case (working s p)
  then show ?case using returned_stays worker_step_cancelled by (fastforce simp: channel_inv_def)
qed (auto simp: channel_inv_def split: option.split)

lemma main_inv_step: "service_step cvt env s t \<Longrightarrow> channel_inv s \<Longrightarrow> main_inv s \<Longrightarrow> main_inv t"
proof (induction rule: service_step.induct)
  case (signalled s)
  then show ?case by (auto simp: main_inv_def intro: exI [of _ None])
next
  case (serve_ended s e es)
  then have "ended_by (s\<lparr>sh_main := Stopping (unexpected ''serve http'' (Some e)), sh_errCh := es\<rparr>) (Some e)
      (unexpected ''serve http'' (Some e))" by (auto simp: ended_by_def channel_inv_def)
  with serve_ended show ?case by (auto simp: main_inv_def)
next
  case (shut_down s x err)
  then show ?case using run_server_outcomes(1) by (cases err) (fastforce simp: main_inv_def ended_by_def)+
next
  case (drained s x e es)
  then obtain first where "ended_by s first x" by (auto simp: main_inv_def)
  with drained have x: "x = None" by (auto simp: ended_by_def unexpected_def)
  show ?case
  proof (cases "unexpected ''stop http server'' (Some e)")
    case None
    with drained x show ?thesis by (auto simp: main_inv_def intro: exI [of _ None])
  next
    case (Some e')
    have "\<exists>sv. run_server sv = ([WorkersStarted, ServerStarted, ContextStopped, ServerShutdown], Some e')"
      using run_server_outcomes(2) [OF Some] by blast
    with drained Some show ?thesis by (auto simp: main_inv_def)
  qed
next
  case (joined s x)
  then show ?case using run_server_outcomes(3) by (fastforce simp: main_inv_def ended_by_def)
next
  case (expired s x)
  then show ?case using run_server_outcomes(4) by (fastforce simp: main_inv_def ended_by_def)
next
  case (served s e)
  then show ?case by (auto simp: main_inv_def ended_by_def channel_inv_def split: main_control.splits)
qed (auto simp: main_inv_def ended_by_def split: main_control.splits)

definition service_inv :: "'s service_state \<Rightarrow> bool" where
  "service_inv s \<longleftrightarrow> channel_inv s \<and> main_inv s"

lemma service_started_inv: "service_inv (service_started p db)"
  by (simp add: service_inv_def channel_inv_def main_inv_def service_started_def)

text \<open>Of the others only the cancellation and the store are seen, which the invariant does not restrict.\<close>

lemma other_step_inv: "other_step moves (sh_pool s) p \<Longrightarrow> service_inv s \<Longrightarrow> service_inv (s\<lparr>sh_pool := p\<rparr>)"
  by (auto elim!: other_stepE simp: service_inv_def channel_inv_def main_inv_def ended_by_def split: main_control.splits)

interpretation service: invariant_system
  "\<lambda>s. \<exists>p db. s = service_started p db"
  "\<lambda>s t. service_step cvt env s t \<or> (\<exists>p. other_step moves (sh_pool s) p \<and> t = s\<lparr>sh_pool := p\<rparr>)" service_inv
  for cvt env moves
proof unfold_locales
  show "service_inv s" if "\<exists>p db. s = service_started p db" for s using that by (auto simp: service_started_inv)
  show "service_inv t" if "service_inv s"
    and "service_step cvt env s t \<or> (\<exists>p. other_step moves (sh_pool s) p \<and> t = s\<lparr>sh_pool := p\<rparr>)" for s t
    using that channel_inv_step main_inv_step other_step_inv unfolding service_inv_def by blast
qed

lemma service_run_steps:
  "service_run cvt env moves n s t \<Longrightarrow>
    (\<lambda>s t. service_step cvt env s t \<or> (\<exists>p. other_step moves (sh_pool s) p \<and> t = s\<lparr>sh_pool := p\<rparr>))\<^sup>*\<^sup>* s t"
  by (induction rule: service_run.induct) (blast intro: rtranclp.rtrancl_refl rtranclp.rtrancl_into_rtrancl)+

section \<open>The process ends\<close>

fun main_weight :: "main_control \<Rightarrow> nat" where
  "main_weight Selecting = 5"
| "main_weight (Stopping _) = 4"
| "main_weight (ShuttingDown _) = 3"
| "main_weight (Draining _) = 2"
| "main_weight (Joining _) = 1"
| "main_weight (Finished _) = 0"

definition service_weight :: "'s service_state \<Rightarrow> nat" where
  "service_weight s = main_weight (sh_main s) + of_bool (sh_serving s) + of_bool (\<not> sh_workersDone s) +
     of_bool (\<not> sh_deadline s) + total_of steps_left (sh_pool s)"

lemma service_weight_bound: "service_weight s \<le> 5 * length (ps_workers (sh_pool s)) + 8"
proof -
  have "main_weight c \<le> 5" for c by (cases c) auto
  from this [of "sh_main s"] total_steps_left [of "sh_pool s"] show ?thesis by (simp add: service_weight_def of_bool_def)
qed

lemma service_run_trans:
  assumes "service_run cvt env moves m s t" and "service_run cvt env moves n t u"
  shows "service_run cvt env moves (m + n) s u"
  using assms(2,1) by (induction rule: service_run.induct) (auto intro: service_run.intros)

lemma service_run_first:
  assumes "service_step cvt env s t" and "service_run cvt env moves n t u"
  shows "service_run cvt env moves (Suc n) s u"
  using assms(2,1)
  by (induction rule: service_run.induct) (auto intro: service_run.intros)

context cancellable_queue
begin

lemma service_step_weight:
  assumes "service_step cvt env s t" and "ps_cancelled (sh_pool s)"
  shows "ps_cancelled (sh_pool t) \<and> service_weight t < service_weight s"
  using assms
proof (induction rule: service_step.induct)
  case (working s p)
  then show ?case using cancelled_step [of cvt "sh_pool s" p] by (simp add: service_weight_def)
qed (auto simp: service_weight_def split: option.split)

lemma service_run_weight:
  assumes "service_run cvt env moves n s t" and "ps_cancelled (sh_pool s)"
  shows "ps_cancelled (sh_pool t) \<and> n + service_weight t \<le> service_weight s"
  using assms
proof (induction rule: service_run.induct)
  case (own n s t u)
  then show ?case using service_step_weight [OF own.hyps(2)] by force
next
  case (other n s t p)
  then show ?case by (auto elim!: other_stepE simp: service_weight_def)
qed simp

lemma service_progress:
  assumes "ps_cancelled (sh_pool s) \<or> sh_errCh s \<noteq> [] \<or> sh_main s \<noteq> Selecting" and "\<nexists>err. sh_main s = Finished err"
  shows "\<exists>t. service_step cvt env s t"
proof (cases "sh_main s")
  case Selecting
  then show ?thesis using assms(1) service_step.signalled service_step.serve_ended
    by (cases "sh_errCh s") blast+
next
  case (Joining x)
  show ?thesis
  proof (cases "\<forall>w \<in> set (ps_workers (sh_pool s)). wk_control w = Returned")
    case True
    then show ?thesis using Joining service_step.joined service_step.workers_done by (cases "sh_workersDone s") blast+
  next
    case False
    then show ?thesis using some_step service_step.working by blast
  qed
qed (use assms(2) service_step.stop service_step.shut_down service_step.waited in blast)+

lemma workers_can_return:
  assumes "ps_cancelled (sh_pool s)"
  shows "\<exists>n q. service_run cvt env moves n s (s\<lparr>sh_pool := q\<rparr>) \<and> ps_cancelled q \<and>
    (\<forall>w \<in> set (ps_workers q). wk_control w = Returned)"
  using assms
proof (induction "total_of steps_left (sh_pool s)" arbitrary: s rule: less_induct)
  case less
  show ?case
  proof (cases "\<forall>w \<in> set (ps_workers (sh_pool s)). wk_control w = Returned")
    case True
    then show ?thesis using service_run.start [of cvt env moves s] less.prems by (intro exI [of _ 0] exI [of _ "sh_pool s"]) simp
  next
    case False
    then obtain p where p: "worker_step cvt env (sh_pool s) p" using some_step by blast
    note c = cancelled_step [OF p less.prems]
    obtain n q where "service_run cvt env moves n (s\<lparr>sh_pool := p\<rparr>) (s\<lparr>sh_pool := q\<rparr>)" "ps_cancelled q"
      "\<forall>w \<in> set (ps_workers q). wk_control w = Returned"
      using less.hyps [of "s\<lparr>sh_pool := p\<rparr>"] c by auto
    then show ?thesis using service_run_first [OF service_step.working [OF p]] by blast
  qed
qed

end

text \<open>C22. The service stops. After a signal, however the goroutines of main, of the server and of the workers interleave,
  whatever the server returns and whatever other instances do to the store: the process makes at most five
  steps per worker and eight more, and is never stuck before \<^verbatim>\<open>run\<close> has returned; a server that
  fails by itself takes the same way. The result and the order of actions are those of the sequential
  \<^verbatim>\<open>run_server\<close> for some behaviour of the server, and without an error every worker has
  returned, so no delivery is in the hands of the process when the dispatcher and the pool are closed.\<close>

theorem service_stops:
  assumes "service_run cvt (store_env pg) (store_step pg) m (service_started p db) s"
    and "service_run cvt (store_env pg) (store_step pg) n s t"
  shows "(ps_cancelled (sh_pool s) \<longrightarrow> n \<le> 5 * length (ps_workers (sh_pool s)) + 8) \<and>
    ((ps_cancelled (sh_pool t) \<or> sh_errCh t \<noteq> [] \<or> sh_main t \<noteq> Selecting) \<and> (\<nexists>err. sh_main t = Finished err) \<longrightarrow>
       (\<exists>u. service_step cvt (store_env pg) t u)) \<and>
    (\<forall>err. sh_main t = Finished err \<longrightarrow> (\<exists>sv. run_server sv = (sh_trace t, err)) \<and>
       (err = None \<longrightarrow> (\<forall>w \<in> set (ps_workers (sh_pool t)). wk_control w = Returned)))"
proof -
  have "service_inv s"
    using service.steps_inv [OF service_run_steps [OF assms(1)] service_started_inv] .
  then have inv: "service_inv t" using service.steps_inv [OF service_run_steps [OF assms(2)]] by blast
  have fin: "(\<exists>sv. run_server sv = (sh_trace t, err)) \<and>
      (err = None \<longrightarrow> (\<forall>w \<in> set (ps_workers (sh_pool t)). wk_control w = Returned))" if fm: "sh_main t = Finished err" for err
  proof -
    obtain sv where sv: "run_server sv = (sh_trace t, err)" "WorkersJoined \<in> set (sh_trace t) \<longrightarrow> sh_workersDone t"
      using inv fm by (auto simp: service_inv_def main_inv_def)
    moreover have "WorkersJoined \<in> set (sh_trace t)" if "err = None" using run_server_outcome [of sv] sv(1) that by auto
    ultimately show ?thesis using inv by (auto simp: service_inv_def channel_inv_def)
  qed
  moreover have "n \<le> 5 * length (ps_workers (sh_pool s)) + 8" if "ps_cancelled (sh_pool s)"
    using store_pool.service_run_weight [OF assms(2) that] service_weight_bound [of s] by linarith
  ultimately show ?thesis using store_pool.service_progress by blast
qed

text \<open>An orderly end: a signal, the workers return, the server closes regularly.\<close>

theorem service_stops_witness:
  "\<exists>n t. service_run (\<lambda>_. 0) (store_env sample_pg) (store_step sample_pg) n (service_started sample_pool sample_enqueued) t \<and>
    sh_main t = Finished None \<and> sh_trace t = [WorkersStarted, ServerStarted, ContextStopped, ServerShutdown, WorkersJoined] \<and>
    (\<forall>w \<in> set (ps_workers (sh_pool t)). wk_control w = Returned)"
proof -
  let ?run = "service_run (\<lambda>_. 0) (store_env sample_pg) (store_step sample_pg)" and ?env = "store_env sample_pg"
  let ?start = "service_started sample_pool sample_enqueued"
  let ?s = "?start\<lparr>sh_pool := (sh_pool ?start)\<lparr>ps_cancelled := True\<rparr>\<rparr>"
  have signal: "?run 0 ?start ?s" by (rule service_run.other [OF service_run.start other_step.cancelled])
  obtain n q where q: "?run n ?s (?s\<lparr>sh_pool := q\<rparr>)" "ps_cancelled q" "\<forall>w \<in> set (ps_workers q). wk_control w = Returned"
    using store_pool.workers_can_return [of ?s "\<lambda>_. 0" sample_pg "store_step sample_pg"] by auto
  define t where "t = ?s\<lparr>sh_pool := q\<rparr>"
  have t: "sh_main t = Selecting" "sh_trace t = [WorkersStarted, ServerStarted]" "sh_pool t = q" "\<not> sh_workersDone t"
    by (simp_all add: t_def service_started_def)
  have "?run (Suc n) ?s (t\<lparr>sh_main := Stopping None\<rparr>)"
    using service_run.own [OF q(1) service_step.signalled] t q(2) unfolding t_def by simp
  note r1 = service_run.own [OF this service_step.stop [of _ None]]
  note r2 = service_run.own [OF r1 service_step.shut_down [where err = None and x = None]]
  note r3 = service_run.own [OF r2 service_step.waited [of _ None]]
  note r4 = service_run.own [OF r3 service_step.workers_done]
  note r5 = service_run.own [OF r4 service_step.joined [of _ None]]
  obtain m u where u: "?run m ?s u" "sh_main u = Finished None" "sh_pool u = q\<lparr>ps_cancelled := True\<rparr>"
    "sh_trace u = [WorkersStarted, ServerStarted, ContextStopped, ServerShutdown, WorkersJoined]"
    using r5 t q(3) by simp
  from service_stops [OF signal u(1)] u(2) have "\<forall>w \<in> set (ps_workers (sh_pool u)). wk_control w = Returned" by blast
  moreover have "?run m ?start u" using service_run_trans [OF signal u(1)] by simp
  ultimately show ?thesis using u by blast
qed

end
