(* ===== verification/Queue_Order.thy ===== *)
theory Queue_Order
  imports Queue_Properties
begin

text \<open>
  The order in which the queue is served. \<open>Queue_Properties\<close> shows that one claim hands out an oldest due
  delivery; here any number of claims of any workers at one moment of the database clock are followed, with rows
  of the tables moving in between: they hand out the due deliveries in the order of the queue, each once,
  until none is left.
\<close>

definition queue_key :: "delivery_row \<Rightarrow> time \<times> time" where
  "queue_key d = (dr_next_attempt_at d, dr_created_at d)"

definition due :: "time \<Rightarrow> locked \<Rightarrow> db \<Rightarrow> delivery_row list" where
  "due now skip db = filter (claimable now skip db) (deliveries db)"

definition no_lease_expired :: "time \<Rightarrow> db \<Rightarrow> bool" where
  "no_lease_expired now db \<longleftrightarrow> list_all (\<lambda>d. \<not> lease_expired now (\<lambda>_. False) d) (deliveries db)"

inductive claims_at :: "pg \<Rightarrow> time \<Rightarrow> locked \<Rightarrow> db \<Rightarrow> job option list \<Rightarrow> db \<Rightarrow> bool"
  for pg :: pg and now :: time and skip :: locked and db :: db where
  start: "claims_at pg now skip db [] db"
| claim: "claims_at pg now skip db js db1 \<Longrightarrow>
    ClaimDelivery pg io gen now skipR skip w lease db1 = (Inr j, db2) \<Longrightarrow> claims_at pg now skip db (js @ [j]) db2"
| rows_move: "claims_at pg now skip db js db1 \<Longrightarrow> reorder db1 db2 \<Longrightarrow> claims_at pg now skip db js db2"

section \<open>One claim takes the head of the queue\<close>

lemma nothing_to_recover:
  assumes "no_lease_expired now db" and "recoverExpiredLeases pg io gen now skip db = Inr (n, db1)"
  shows "n = 0 \<and> db1 = db"
proof -
  have "filter (lease_expired now skip) (deliveries db) = []"
    using assms(1) by (auto simp: filter_empty_conv no_lease_expired_def list_all_iff lease_expired_def)
  then have "expired_rows now skip db = []" by (simp add: expired_rows_def select_limit_def)
  then show ?thesis
    using assms(2) by (auto simp: recoverExpiredLeases_def bind_ok_Inr_iff stmt_Inr_iff scanned_Inr_iff)
qed

lemma claimable_claimed [simp]: "\<not> claimable now skip db (claim_row w tok l now d)"
  by (simp add: claimable_def claim_row_def)

lemma due_claimed:
  assumes "deliveries db' = tupdate dr_id k (claim_row w tok l now) (deliveries db)" and "endpoints db' = endpoints db"
  shows "due now skip db' = filter (\<lambda>d. dr_id d \<noteq> k) (due now skip db)"
proof -
  have "claimable now skip db' = claimable now skip db"
    using assms(2) by (simp add: fun_eq_iff claimable_def endpoint_open_def)
  moreover have "filter (claimable now skip db) (tupdate dr_id k (claim_row w tok l now) ds) =
      filter (\<lambda>d. dr_id d \<noteq> k) (filter (claimable now skip db) ds)" for ds
    by (induction ds) (auto simp: tupdate_def)
  ultimately show ?thesis by (simp add: due_def assms(1))
qed

lemma claim_takes_head:
  assumes inv: "store_inv pg db" and live: "no_lease_expired now db"
    and c: "ClaimDelivery pg io gen now skipR skip w lease db = (Inr j, db')"
  obtains (idle) "due now skip db = []" "j = None" "db' = db"
  | (head) d x where "j = Some x" "dl_ID (jb_Delivery x) = dr_id d" "d \<in> set (due now skip db)"
      "\<forall>d' \<in> set (due now skip db). queue_key d \<le> queue_key d'"
      "due now skip db' = filter (\<lambda>d'. dr_id d' \<noteq> dr_id d) (due now skip db)" "no_lease_expired now db'"
proof -
  have ok: "rows_ok pg {} db" using inv by (simp add: store_inv_def)
  from ClaimDelivery_body(1) [OF c] obtain n db1 row where
    r: "recoverExpiredLeases pg io gen now skipR db = Inr (n, db1)"
    and q: "claim_query pg (trim_space w) (gen n) (milliseconds lease) now skip db1 = Some (row, db')"
    and row: "case row of None \<Rightarrow> j = None | Some (d, v, e) \<Rightarrow> (\<exists>x. scanJob d v e = Inr x \<and> j = Some x)"
    by (rule claim_bodyE)
  have db1: "db1 = db" using nothing_to_recover [OF live r] by simp
  from ok q [unfolded db1] show thesis
  proof (cases rule: claim_queryE)
    case none
    then show thesis using row by (intro idle) (auto simp: due_def claim_candidate_None_iff filter_empty_conv)
  next
    case (some d tok v e)
    note cd = claim_candidate_SomeD [OF some(1)]
    note up = update_delivery_eq [OF some(4)]
    obtain x where x: "j = Some x" "dl_ID (jb_Delivery x) = dr_id d"
      using row some(7) by (auto simp: scanJob_def scanDelivery_def claim_row_def)
    have "0 < milliseconds lease" using ClaimDelivery_body(2) [OF c] by (rule milliseconds_pos)
    then have "\<not> lease_expired now (\<lambda>_. False) (claim_row (trim_space w) tok (milliseconds lease) now y)" for y
      by (simp add: lease_expired_def claim_row_def)
    then have "no_lease_expired now db'"
      using live by (auto simp: up no_lease_expired_def list_all_iff set_tupdate)
    then show thesis
      using x cd due_claimed [of db' "dr_id d" "trim_space w" tok "milliseconds lease" now db skip]
      by (intro head [of x d]) (auto simp: up due_def queue_key_def)
  qed
qed

section \<open>Many claims\<close>

lemma due_reorder:
  assumes "store_inv pg db" and "reorder db db'"
  shows "mset (due now skip db') = mset (due now skip db)"
proof -
  have "rows_ok pg {} db" using assms(1) by (simp add: store_inv_def)
  then have "endpoint_open now db' k = endpoint_open now db k" for k
    by (simp add: endpoint_open_def reorder_tfind(2) [OF _ assms(2)])
  then have "claimable now skip db' = claimable now skip db" by (simp add: fun_eq_iff claimable_def)
  then show ?thesis using assms(2) by (simp add: due_def reorder_def mset_filter)
qed

lemma filter_other_keys:
  assumes "distinct (map key xs)" and "d \<in> set xs"
  shows "add_mset d (mset (filter (\<lambda>x. key x \<noteq> key d) xs)) = mset xs"
  using assms
proof (induction xs)
  case (Cons x xs)
  show ?case
  proof (cases "x = d")
    case True
    then have "filter (\<lambda>x. key x \<noteq> key d) xs = xs" using Cons.prems by (fastforce simp: filter_id_conv image_iff)
    with True show ?thesis by simp
  next
    case False
    then have "d \<in> set xs" "key x \<noteq> key d" using Cons.prems by auto
    then show ?thesis using Cons by simp
  qed
qed simp

lemma distinct_due: "store_inv pg db \<Longrightarrow> distinct (map dr_id (due now skip db))"
  by (simp add: store_inv_def rows_ok_def schema_ok_def due_def distinct_map_filter)

definition job_id :: "job \<Rightarrow> string" where
  "job_id j = dl_ID (jb_Delivery j)"

text \<open>What has been handed out so far, \<open>ds\<close>, and what is still due make up the queue at the start.\<close>

lemma claims_split_queue:
  assumes "claims_at pg now skip db js db'" and can: "canonical_uuid pg" and "store_inv pg db" and "no_lease_expired now db"
  shows "store_inv pg db' \<and> no_lease_expired now db' \<and>
    (\<exists>ds. map (map_option job_id) js = map (Some \<circ> dr_id) ds @ replicate (length js - length ds) None \<and>
       length ds \<le> length js \<and> (length ds < length js \<longrightarrow> due now skip db' = []) \<and>
       mset ds + mset (due now skip db') = mset (due now skip db) \<and> sorted (map queue_key ds) \<and>
       (\<forall>d \<in> set ds. \<forall>x \<in> set (due now skip db'). queue_key d \<le> queue_key x))"
  using assms(1)
proof (induction rule: claims_at.induct)
  case start
  show ?case using assms(3,4) by (intro conjI exI [of _ "[]"]) auto
next
  case (claim js db1 io gen skipR w lease j db2)
  then obtain ds where inv: "store_inv pg db1" "no_lease_expired now db1"
    and ds: "map (map_option job_id) js = map (Some \<circ> dr_id) ds @ replicate (length js - length ds) None"
      "length ds \<le> length js" "length ds < length js \<longrightarrow> due now skip db1 = []"
      "mset ds + mset (due now skip db1) = mset (due now skip db)" "sorted (map queue_key ds)"
      "\<forall>d \<in> set ds. \<forall>x \<in> set (due now skip db1). queue_key d \<le> queue_key x" by blast
  have inv2: "store_inv pg db2" using can inv(1) claim.hyps(2) by (blast intro: store_inv_step store_step.claim)
  from inv claim.hyps(2) show ?case
  proof (cases rule: claim_takes_head)
    case idle
    have "replicate (Suc (length js) - length ds) None = replicate (length js - length ds) None @ [None :: string option]"
      using ds(2) by (simp add: Suc_diff_le replicate_append_same)
    then show ?thesis using idle inv ds by (intro conjI exI [of _ ds]) auto
  next
    case (head d x)
    have len: "length ds = length js" using head(3) ds(2,3) by (cases "length ds < length js") auto
    have "add_mset d (mset (due now skip db2)) = mset (due now skip db1)"
      unfolding head(5) by (rule filter_other_keys [OF distinct_due [OF inv(1)] head(3)])
    then have "mset (ds @ [d]) + mset (due now skip db2) = mset (due now skip db)" using ds(4) by (metis add_mset_add_single mset_append mset.simps union_assoc union_commute)
    moreover have "sorted (map queue_key (ds @ [d]))" using ds(5,6) head(3) by (auto simp: sorted_append)
    moreover have "set (due now skip db2) \<subseteq> set (due now skip db1)" by (auto simp: head(5))
    moreover have "job_id x = dr_id d" using head(2) by (simp add: job_id_def)
    ultimately show ?thesis
      using inv2 head(1,3,4,6) ds(1,6) len by (intro conjI exI [of _ "ds @ [d]"]) auto
  qed
next
  case (rows_move js db1 db2)
  then obtain ds where inv: "store_inv pg db1" "no_lease_expired now db1"
    and ds: "map (map_option job_id) js = map (Some \<circ> dr_id) ds @ replicate (length js - length ds) None"
      "length ds \<le> length js" "length ds < length js \<longrightarrow> due now skip db1 = []"
      "mset ds + mset (due now skip db1) = mset (due now skip db)" "sorted (map queue_key ds)"
      "\<forall>d \<in> set ds. \<forall>x \<in> set (due now skip db1). queue_key d \<le> queue_key x" by blast
  note same = due_reorder [OF inv(1) rows_move.hyps(2), of now skip]
  have "no_lease_expired now db2"
    using inv(2) reorder_sets(3) [OF rows_move.hyps(2)] by (simp add: no_lease_expired_def list_all_iff)
  moreover have "due now skip db1 = [] \<Longrightarrow> due now skip db2 = []" using same by simp
  ultimately show ?case
    using store_inv_reorder [OF inv(1) rows_move.hyps(2)] ds same mset_eq_setD [OF same]
    by (intro conjI exI [of _ ds]) auto
qed

text \<open>C10. The queue is served in order and nobody starves: any number of claims, by any workers and under any leases, at one moment
  at which no lease is expired, hand out the due deliveries in the order of the queue (next attempt, then creation), each
  at most once, and only when all of them are handed out does a claim come back empty; so a delivery with
  \<open>k\<close> due ones before it is in the hands of a worker after at most \<open>k + 1\<close> claims.\<close>

theorem claims_serve_queue:
  assumes "canonical_uuid pg" and "store_inv pg db" and "no_lease_expired now db" and "claims_at pg now skip db js db'"
  shows "\<exists>ds. map (map_option job_id) js = map (Some \<circ> dr_id) ds @ replicate (length js - length ds) None \<and>
    length ds = min (length js) (length (due now skip db)) \<and> set ds \<subseteq> set (due now skip db) \<and> distinct (map dr_id ds) \<and>
    map queue_key ds = take (length js) (sort (map queue_key (due now skip db)))"
proof -
  from claims_split_queue [OF assms(4,1-3)] obtain ds where
    ds: "map (map_option job_id) js = map (Some \<circ> dr_id) ds @ replicate (length js - length ds) None"
      "length ds \<le> length js" "length ds < length js \<longrightarrow> due now skip db' = []"
      "mset ds + mset (due now skip db') = mset (due now skip db)" "sorted (map queue_key ds)"
      "\<forall>d \<in> set ds. \<forall>x \<in> set (due now skip db'). queue_key d \<le> queue_key x" by blast
  have all: "mset (ds @ due now skip db') = mset (due now skip db)" using ds(4) by simp
  have len: "length ds + length (due now skip db') = length (due now skip db)" using mset_eq_length [OF all] by simp
  have keys: "mset (map queue_key (ds @ due now skip db')) = mset (map queue_key (due now skip db))" using all by (simp only: mset_map)
  have "sort (map queue_key (due now skip db)) = map queue_key ds @ sort (map queue_key (due now skip db'))"
    using ds(5,6) keys by (intro properties_for_sort) (auto simp: sorted_append)
  then have "map queue_key ds = take (length js) (sort (map queue_key (due now skip db)))"
    using ds(2,3) by (cases "length ds = length js") auto
  moreover have "distinct (map dr_id ds)"
    using distinct_due [OF assms(2), of now skip] distinct_map_mset [OF all [symmetric], of dr_id] by simp
  moreover have "set ds \<subseteq> set (due now skip db)" using mset_eq_setD [OF all] by auto
  ultimately show ?thesis using ds(1-3) len by (intro exI [of _ ds]) auto
qed

theorem claims_serve_queue_witness:
  "\<exists>j. claims_at sample_pg 3000000000 (\<lambda>_. False) sample_enqueued [Some j] sample_claimed \<and> job_id j = ''dl''"
proof -
  obtain j where "ClaimDelivery sample_pg sample_io (sample_gen 0) 3000000000 (\<lambda>_. False) (\<lambda>_. False) ''w1'' 10000000000 sample_enqueued =
      (Inr (Some j), sample_claimed)" using sample_claimed_eq(1) by blast
  then have c: "claims_at sample_pg 3000000000 (\<lambda>_. False) sample_enqueued [Some j] sample_claimed"
    using claims_at.claim [OF claims_at.start] by fastforce
  have "no_lease_expired 3000000000 sample_enqueued"
    by (simp add: no_lease_expired_def sample_enqueued_eq sample_dl_row_def new_delivery_def lease_expired_def)
  from claims_serve_queue [OF canonical_sample sample_inv(2) this c] obtain ds where
    ds: "[Some (job_id j)] = map (Some \<circ> dr_id) ds @ replicate (Suc 0 - length ds) None"
      "set ds \<subseteq> set (due 3000000000 (\<lambda>_. False) sample_enqueued)" by auto
  obtain d where "job_id j = dr_id d" "d \<in> set (deliveries sample_enqueued)"
    using ds by (cases ds) (auto simp: due_def)
  with c show ?thesis by (auto simp: sample_enqueued_eq sample_dl_row_def new_delivery_def)
qed

end
