(* ===== verification/Wiring.thy ===== *)
theory Wiring
  imports Api_Metrics Http_Client Startup
begin

text \<open>
  How \<^verbatim>\<open>main\<close> puts the service together: the structs and constructors of the services, of the store and of the
  database handle, the interfaces between them, and the objects that \<^verbatim>\<open>run\<close> builds from the configuration. The server built here
  is the one of \<open>Api_Store\<close>, and the dispatcher the one of \<open>Http_Client\<close>, both with the options of the configuration.
\<close>

section \<open>The services\<close>

record 's endpoint_Repository =
  rp_CreateEndpoint :: "endpoint \<Rightarrow> 's \<Rightarrow> (go_error, endpoint) result \<times> 's"
  rp_ListEndpoints :: "int \<Rightarrow> 's \<Rightarrow> (go_error, endpoint list) result"
  rp_GetEndpoint :: "string \<Rightarrow> 's \<Rightarrow> (go_error, endpoint) result"
  rp_DisableEndpoint :: "string \<Rightarrow> 's \<Rightarrow> (go_error, endpoint) result \<times> 's"

record 's event_Repository =
  vp_EnqueueEvent :: "EnqueueParams \<Rightarrow> 's \<Rightarrow> (go_error, Enqueued) result \<times> 's"

record 's delivery_Repository =
  yp_GetDelivery :: "string \<Rightarrow> 's \<Rightarrow> (go_error, Details) result \<times> 's"
  yp_ReplayDelivery :: "string \<Rightarrow> 's \<Rightarrow> (go_error, delivery) result \<times> 's"

type_synonym cipher = "bytes \<Rightarrow> bytes \<Rightarrow> (go_error, bytes) result"

record 's endpoint_Service =
  en_repository :: "'s endpoint_Repository"
  en_cipher :: cipher
  en_random :: random
  en_options :: Options

text \<open>The reader is \<^verbatim>\<open>rand.Reader\<close>.\<close>

definition endpoint_New :: "random \<Rightarrow> 's endpoint_Repository \<Rightarrow> cipher \<Rightarrow> Options \<Rightarrow> 's endpoint_Service" where
  "endpoint_New reader repository cipher options =
     \<lparr>en_repository = repository, en_cipher = cipher, en_random = reader, en_options = options\<rparr>"

record 's event_Service =
  vn_repository :: "'s event_Repository"

definition event_New :: "'s event_Repository \<Rightarrow> 's event_Service" where
  "event_New repository = \<lparr>vn_repository = repository\<rparr>"

record 's delivery_Service =
  yn_repository :: "'s delivery_Repository"

definition delivery_NewService :: "'s delivery_Repository \<Rightarrow> 's delivery_Service" where
  "delivery_NewService repository = \<lparr>yn_repository = repository\<rparr>"

text \<open>The services as the interfaces that the server calls; the new identifiers of a request are arguments.\<close>

definition endpoint_methods :: "url_env \<Rightarrow> (string \<Rightarrow> bool) \<Rightarrow> string \<Rightarrow> 's endpoint_Service \<Rightarrow> 's EndpointService" where
  "endpoint_methods url uuid_ok newid s =
     \<lparr>es_Create = Create url (en_options s) (en_random s) (en_cipher s) newid (rp_CreateEndpoint (en_repository s)),
      es_List = Endpoint_List (rp_ListEndpoints (en_repository s)),
      es_Get = Endpoint_Get uuid_ok (rp_GetEndpoint (en_repository s)),
      es_Disable = Endpoint_Disable uuid_ok (rp_DisableEndpoint (en_repository s))\<rparr>"

definition event_methods :: "(string \<Rightarrow> bool) \<Rightarrow> string \<Rightarrow> string \<Rightarrow> 's event_Service \<Rightarrow> 's EventService" where
  "event_methods uuid_ok eventID deliveryID s =
     \<lparr>vs_Publish = Publish uuid_ok eventID deliveryID (vp_EnqueueEvent (vn_repository s))\<rparr>"

definition delivery_methods :: "(string \<Rightarrow> bool) \<Rightarrow> 's delivery_Service \<Rightarrow> 's DeliveryService" where
  "delivery_methods uuid_ok s =
     \<lparr>ys_Get = Delivery_Get uuid_ok (yp_GetDelivery (yn_repository s)),
      ys_Replay = Delivery_Replay uuid_ok (yp_ReplayDelivery (yn_repository s))\<rparr>"

section \<open>The database handle and the store\<close>

text \<open>What the connection pool is during a request: the server behind it, how the calls go, and its clock.\<close>

record conn_pool =
  cp_pg :: pg
  cp_io :: io
  cp_now :: time

record DB =
  db_pool :: conn_pool

definition DB_Pool :: "DB \<Rightarrow> conn_pool" where
  "DB_Pool d = db_pool d"

definition DB_Ping :: "DB \<Rightarrow> 's \<Rightarrow> go_error option" where
  "DB_Ping d = Ping (cp_io (db_pool d))"

record Store =
  st_pool :: conn_pool

definition store_New :: "conn_pool \<Rightarrow> Store" where
  "store_New pool = \<lparr>st_pool = pool\<rparr>"

text \<open>The store as the three repositories.\<close>

definition store_endpoints :: "Store \<Rightarrow> db endpoint_Repository" where
  "store_endpoints s =
     (let pg = cp_pg (st_pool s); io = cp_io (st_pool s); now = cp_now (st_pool s) in
      \<lparr>rp_CreateEndpoint = CreateEndpoint pg io now, rp_ListEndpoints = ListEndpoints io,
       rp_GetEndpoint = GetEndpoint pg io, rp_DisableEndpoint = DisableEndpoint pg io now\<rparr>)"

definition store_events :: "Store \<Rightarrow> db event_Repository" where
  "store_events s = \<lparr>vp_EnqueueEvent = EnqueueEvent (cp_pg (st_pool s)) (cp_io (st_pool s)) (cp_now (st_pool s))\<rparr>"

definition store_deliveries :: "Store \<Rightarrow> db delivery_Repository" where
  "store_deliveries s =
     \<lparr>yp_GetDelivery = GetDelivery (cp_pg (st_pool s)) (cp_io (st_pool s)),
      yp_ReplayDelivery = ReplayDelivery (cp_pg (st_pool s)) (cp_io (st_pool s)) (cp_now (st_pool s))\<rparr>"

section \<open>What main builds\<close>

definition main_db :: "pg \<Rightarrow> request_env \<Rightarrow> DB" where
  "main_db pg q = \<lparr>db_pool = \<lparr>cp_pg = pg, cp_io = qe_io q, cp_now = qe_now q\<rparr>\<rparr>"

definition main_services :: "LoadedConfig \<Rightarrow> Box \<Rightarrow> request_env \<Rightarrow> Store \<Rightarrow>
    db endpoint_Service \<times> db event_Service \<times> db delivery_Service" where
  "main_services cfg secretBox q repository =
     (endpoint_New (qe_secret q) (store_endpoints repository) (Encrypt secretBox (qe_nonce q))
        \<lparr>op_AllowHTTP = lc_AllowHTTP cfg, op_AllowPrivateTargets = lc_AllowPrivateTargets cfg\<rparr>,
      event_New (store_events repository),
      delivery_NewService (store_deliveries repository))"

definition main_server :: "LoadedConfig \<Rightarrow> Box \<Rightarrow> Info \<Rightarrow> time \<Rightarrow> DB \<Rightarrow> request_env \<Rightarrow> db Server" where
  "main_server cfg secretBox info startedAt d q =
     (case main_services cfg secretBox q (store_New (DB_Pool d)) of (endpointService, eventService, deliveryService) \<Rightarrow>
        New info startedAt
          \<lparr>dp_Readiness = DB_Ping d, dp_APIKey = lc_APIKey cfg,
           dp_Endpoints = endpoint_methods (qe_url q) (qe_uuid_ok q) (qe_endpoint_id q) endpointService,
           dp_Events = event_methods (qe_uuid_ok q) (qe_event_id q) (qe_delivery_id q) eventService,
           dp_Deliveries = delivery_methods (qe_uuid_ok q) deliveryService,
           dp_Metrics = True, dp_HTTPObserver = True\<rparr>)"

definition main_dispatcher :: "'c net_defaults \<Rightarrow> LoadedConfig \<Rightarrow> 'c Client \<times> Dispatcher" where
  "main_dispatcher nd cfg =
     BuildDispatcher nd \<lparr>wo_AllowHTTP = lc_AllowHTTP cfg, wo_AllowPrivateTargets = lc_AllowPrivateTargets cfg,
       wo_Resolver = None, wo_Dialer = None, wo_ResponseLimit = 0\<rparr>"

text \<open>The theorems over the store are about the server that \<^verbatim>\<open>main\<close> builds.\<close>

lemma main_server_store:
  "main_server cfg b info startedAt (main_db pg q) q =
   store_server pg b \<lparr>op_AllowHTTP = lc_AllowHTTP cfg, op_AllowPrivateTargets = lc_AllowPrivateTargets cfg\<rparr> (lc_APIKey cfg)
     info startedAt q"
  by (simp add: main_server_def main_services_def main_db_def New_def store_server_def store_New_def DB_Pool_def DB_Ping_def Ping_def
      endpoint_methods_def event_methods_def delivery_methods_def endpoint_New_def event_New_def delivery_NewService_def
      store_endpoints_def store_events_def store_deliveries_def fun_eq_iff Let_def)

lemma main_dispatcher_components:
  "build_components new_cipher new_gcm instanceID cfg = Inr cm \<Longrightarrow> cm_dispatcher cm = snd (main_dispatcher nd cfg)"
  by (auto simp: build_components_def bind_ok_Inr_iff main_dispatcher_def BuildDispatcher_def)

section \<open>Secure by default\<close>

lemma Load_targets:
  assumes "Load env = Inr cfg"
  shows "config_boolean env ''ALLOW_HTTP_TARGETS'' False = Inr (lc_AllowHTTP cfg)"
    and "config_boolean env ''ALLOW_PRIVATE_TARGETS'' False = Inr (lc_AllowPrivateTargets cfg)"
  using assms unfolding Load_def bind_ok_Inr_iff by auto

lemma boolean_unset: "trim_space (ce_Getenv env key) = [] \<Longrightarrow> config_boolean env key False = Inr False"
  by (simp add: config_boolean_def config_value_def format_bool_def parse_bool_def)

text \<open>C11. Secure by default: a service whose environment leaves \<^verbatim>\<open>ALLOW_HTTP_TARGETS\<close> and \<^verbatim>\<open>ALLOW_PRIVATE_TARGETS\<close> unset
  sends deliveries only to HTTPS targets and opens connections only to addresses that pass the filter, so to no IPv4 address in a
  reserved range, whatever an endpoint's name resolves to and wherever it redirects; and it
  registers an endpoint only with an HTTPS URL whose host is not a private one.\<close>

theorem secure_by_default:
  assumes "Load cenv = Inr cfg" and "trim_space (ce_Getenv cenv ''ALLOW_HTTP_TARGETS'') = []"
    and "trim_space (ce_Getenv cenv ''ALLOW_PRIVATE_TARGETS'') = []"
    and "stops_at_redirects lib" and "deliver_over lib env (main_dispatcher nd cfg) t u input = (xs, r)"
    and "sv_create (main_server cfg b info startedAt d q) new db = (created, db')"
  shows "(\<forall>x \<in> set xs.
      (\<forall>a \<in> set (connections (fst (main_dispatcher nd cfg)) x). addressAllowed a False \<and>
         (\<forall>w. a = Addr4 w \<longrightarrow> (\<forall>(p, n) \<in> set reserved4. \<not> in4 n p w))) \<and>
      (\<forall>req \<in> set (xc_sent x). hq_url req = rq_TargetURL input \<and> we_scheme env (hq_url req) = Inr ''https'')) \<and>
    (\<not> isl created \<longrightarrow> (\<exists>target hostname. ue_parse (qe_url q) (trim_space (ci_URL new)) = Inr target \<and>
       ue_lower (qe_url q) (ur_Scheme target) = ''https'' \<and>
       hostname = ue_lower (qe_url q) (trim_suffix (Hostname target) ''.'') \<and> \<not> isPrivateHost (qe_url q) hostname))"
proof -
  let ?o = "\<lparr>wo_AllowHTTP = False, wo_AllowPrivateTargets = False, wo_Resolver = None, wo_Dialer = None, wo_ResponseLimit = 0\<rparr>"
  have off: "lc_AllowHTTP cfg = False" "lc_AllowPrivateTargets cfg = False"
    using Load_targets [OF assms(1)] boolean_unset [OF assms(2)] boolean_unset [OF assms(3)] by simp_all
  then have disp: "main_dispatcher nd cfg = BuildDispatcher nd ?o" by (simp add: main_dispatcher_def)
  have allowed: "addressAllowed a False" if "a \<in> set (connections (fst (main_dispatcher nd cfg)) x)" for a x
    using connections_allowed [of a nd ?o x] that disp by simp
  have sent: "hq_url req = rq_TargetURL input \<and> we_scheme env (hq_url req) = Inr ''https''"
    if "x \<in> set xs" "req \<in> set (xc_sent x)" for x req
    using deliver_over_requests(2) [OF assms(4) assms(5) [unfolded disp] that] by auto
  have created: "\<exists>target hostname. ue_parse (qe_url q) (trim_space (ci_URL new)) = Inr target \<and>
       ue_lower (qe_url q) (ur_Scheme target) = ''https'' \<and>
       hostname = ue_lower (qe_url q) (trim_suffix (Hostname target) ''.'') \<and> \<not> isPrivateHost (qe_url q) hostname"
    if "\<not> isl created"
  proof -
    obtain encrypt create where "Create (qe_url q) \<lparr>op_AllowHTTP = False, op_AllowPrivateTargets = False\<rparr> (qe_secret q) encrypt
        (qe_endpoint_id q) create new db = (created, db')"
      using assms(6) by (simp add: main_server_def main_services_def New_def endpoint_methods_def endpoint_New_def off Let_def)
    with that obtain target where
      "normalizeTarget (qe_url q) \<lparr>op_AllowHTTP = False, op_AllowPrivateTargets = False\<rparr> (ci_URL new) = Inr target"
      by (cases rule: Create_cases [of "qe_url q" "\<lparr>op_AllowHTTP = False, op_AllowPrivateTargets = False\<rparr>" "qe_secret q" encrypt
            "qe_endpoint_id q" create new db]) auto
    then show ?thesis by (rule normalizeTarget_InrD) auto
  qed
  have "addressAllowed a False \<and> (\<forall>w. a = Addr4 w \<longrightarrow> (\<forall>(p, n) \<in> set reserved4. \<not> in4 n p w))"
    if "a \<in> set (connections (fst (main_dispatcher nd cfg)) x)" for a x
    using allowed [OF that] addressAllowed_Addr4 by blast
  with sent created show ?thesis by blast
qed

text \<open>The default configuration and a target whose name resolves to a private address.\<close>

theorem secure_by_default_witness:
  "\<exists>cfg x. Load (sample_cenv []) = Inr cfg \<and>
     fst (deliver_over sample_lib sample_env (main_dispatcher sample_defaults cfg) 5000000000 6000000000 sample_request) = [x] \<and>
     Addr4 (ipv4 10 0 0 1) \<notin> set (connections (fst (main_dispatcher sample_defaults cfg)) x)"
proof -
  obtain cfg where l: "Load (sample_cenv []) = Inr cfg" by (rule sample_loads)
  let ?d = "main_dispatcher sample_defaults cfg"
  obtain xs r where D: "deliver_over sample_lib sample_env ?d 5000000000 6000000000 sample_request = (xs, r)" by fastforce
  obtain x where xs: "xs = [x]"
    using D by (auto simp: deliver_over_def Deliver_def sample_env_def sample_request_def main_dispatcher_def BuildDispatcher_def
        Let_def split: prod.splits sum.splits)
  obtain created db' where c: "sv_create (main_server cfg sample_box sample_info 0 (main_db sample_pg sample_q) sample_q)
      orders_input sample_enqueued = (created, db')" by fastforce
  have lib: "stops_at_redirects sample_lib" by (auto simp: stops_at_redirects_def sample_lib_def split: sum.split)
  have unset: "trim_space (ce_Getenv (sample_cenv []) ''ALLOW_HTTP_TARGETS'') = []"
    "trim_space (ce_Getenv (sample_cenv []) ''ALLOW_PRIVATE_TARGETS'') = []" by (simp_all add: sample_cenv_def sample_vars_def)
  have "\<not> (\<forall>(p, n) \<in> set reserved4. \<not> in4 n p (ipv4 10 0 0 1))" by (simp add: reserved4_def in4_def ipv4_def)
  with secure_by_default [OF l unset lib D c] xs
  have "Addr4 (ipv4 10 0 0 1) \<notin> set (connections (fst ?d) x)" by fastforce
  with l D xs show ?thesis by auto
qed

end
