(* ===== verification/Row_Scan.thy ===== *)
theory Row_Scan
  imports Scenario
begin

text \<open>
  How the store reads rows. A query names its columns in some order and \<^verbatim>\<open>Scan\<close> assigns them by position to a list of
  destinations, so the column lists of \<^verbatim>\<open>endpoints.go\<close>, \<^verbatim>\<open>deliveries.go\<close> and \<^verbatim>\<open>queue.go\<close> have to
  agree with the destinations in \<^verbatim>\<open>scanEndpoint\<close>, \<^verbatim>\<open>scanDelivery\<close>, \<^verbatim>\<open>scanJob\<close> and the loops, in number,
  order and type. Here both sides are lists as in the code, and scanning is shown equal to the functions by field that
  \<open>Queue\<close> and \<open>Store\<close> use.
\<close>

section \<open>Values and destinations\<close>

datatype sql = SText string | SBytes bytes | SJsonb bytes | SInt int | STime time | SNull

text \<open>A destination stores a value in the variables of the scanning function. The driver refuses a null for a plain
  variable and accepts it for a pointer, which becomes nil, and for a byte slice.\<close>

type_synonym 'v dest = "sql \<Rightarrow> 'v \<Rightarrow> (go_error, 'v) result"

definition refused :: "string \<Rightarrow> sql \<Rightarrow> (go_error, 'v) result" where
  "refused kind v = Inl (ErrNew (if v = SNull then ''cannot scan NULL into '' @ kind else ''cannot scan into '' @ kind))"

fun to_string :: "(string \<Rightarrow> 'v \<Rightarrow> 'v) \<Rightarrow> 'v dest" where
  "to_string put (SText s) x = Inr (put s x)"
| "to_string put v x = refused ''*string'' v"

fun to_bytes :: "(bytes \<Rightarrow> 'v \<Rightarrow> 'v) \<Rightarrow> 'v dest" where
  "to_bytes put (SBytes b) x = Inr (put b x)"
| "to_bytes put (SJsonb b) x = Inr (put b x)"
| "to_bytes put SNull x = Inr (put [] x)"
| "to_bytes put v x = refused ''*[]uint8'' v"

fun to_int :: "(int \<Rightarrow> 'v \<Rightarrow> 'v) \<Rightarrow> 'v dest" where
  "to_int put (SInt n) x = Inr (put n x)"
| "to_int put v x = refused ''*int'' v"

fun to_time :: "(time \<Rightarrow> 'v \<Rightarrow> 'v) \<Rightarrow> 'v dest" where
  "to_time put (STime t) x = Inr (put t x)"
| "to_time put v x = refused ''*time.Time'' v"

definition to_pointer :: "(('a \<Rightarrow> 'v \<Rightarrow> 'v) \<Rightarrow> 'v dest) \<Rightarrow> ('a option \<Rightarrow> 'v \<Rightarrow> 'v) \<Rightarrow> 'v dest" where
  "to_pointer plain put v x = (if v = SNull then Inr (put None x) else plain (\<lambda>a. put (Some a)) v x)"

definition nullable :: "('a \<Rightarrow> sql) \<Rightarrow> 'a option \<Rightarrow> sql" where
  "nullable c x = (case x of None \<Rightarrow> SNull | Some a \<Rightarrow> c a)"

text \<open>\<^verbatim>\<open>delivery.Status\<close> is a string type.\<close>

fun status_text :: "status \<Rightarrow> string" where
  "status_text StatusPending = ''pending''"
| "status_text StatusProcessing = ''processing''"
| "status_text StatusRetrying = ''retrying''"
| "status_text StatusSucceeded = ''succeeded''"
| "status_text StatusDead = ''dead''"
| "status_text (StatusOther s) = s"

definition status_of :: "string \<Rightarrow> status" where
  "status_of s =
     (case find (\<lambda>x. status_text x = s) [StatusPending, StatusProcessing, StatusRetrying, StatusSucceeded, StatusDead] of
        Some x \<Rightarrow> x | None \<Rightarrow> StatusOther s)"

definition to_status :: "(status \<Rightarrow> 'v \<Rightarrow> 'v) \<Rightarrow> 'v dest" where
  "to_status put = to_string (\<lambda>s. put (status_of s))"

text \<open>The driver compares the numbers first and then assigns from left to right, up to the first error.\<close>

fun assign :: "'v dest list \<Rightarrow> sql list \<Rightarrow> 'v \<Rightarrow> (go_error, 'v) result" where
  "assign (d # ds) (v # vs) x = bind_ok (d v x) (assign ds vs)"
| "assign _ _ x = Inr x"

definition Scan :: "sql list \<Rightarrow> 'v dest list \<Rightarrow> 'v \<Rightarrow> (go_error, 'v) result" where
  "Scan row destinations x =
     (if length row \<noteq> length destinations
      then Inl (ErrNew ''number of field descriptions must equal number of destinations'')
      else assign destinations row x)"

section \<open>Columns\<close>

definition endpointColumns :: "endpoint_row \<Rightarrow> sql list" where
  "endpointColumns e =
     [SText (er_id e), SText (er_name e), SText (er_url e), SBytes (er_secret_ciphertext e), SInt (er_timeout_ms e),
      SInt (er_max_attempts e), SInt (er_consecutive_failures e), nullable STime (er_circuit_open_until e),
      nullable STime (er_disabled_at e), STime (er_created_at e), STime (er_updated_at e)]"

definition deliveryColumns :: "delivery_row \<Rightarrow> sql list" where
  "deliveryColumns d =
     [SText (dr_id d), SText (dr_event_id d), SText (dr_endpoint_id d), SText (status_text (dr_status d)),
      SInt (dr_attempt_count d), SInt (dr_max_attempts d), STime (dr_next_attempt_at d), nullable SText (dr_locked_by d),
      nullable SText (dr_lease_token d), nullable STime (dr_locked_at d), nullable STime (dr_locked_until d),
      nullable SInt (dr_last_status_code d), SText (dr_last_error d), nullable STime (dr_last_completed_at d),
      STime (dr_created_at d), STime (dr_updated_at d)]"

text \<open>The columns that \<^verbatim>\<open>GetDelivery\<close> adds for the event, and those of its second query.\<close>

definition eventColumns :: "event_row \<Rightarrow> sql list" where
  "eventColumns v =
     [SText (vr_id v), SText (vr_endpoint_id v), SText (vr_event_type v), SJsonb (vr_payload v),
      SText (vr_idempotency_key v), STime (vr_created_at v)]"

definition attemptColumns :: "attempt_row \<Rightarrow> sql list" where
  "attemptColumns a =
     [SText (ar_id a), SText (ar_delivery_id a), SInt (ar_attempt_number a), nullable SInt (ar_status_code a),
      SText (ar_response_body a), SText (ar_error_message a), SInt (ar_duration_ms a), STime (ar_started_at a),
      STime (ar_completed_at a)]"

definition claimColumns :: "delivery_row \<Rightarrow> event_row \<Rightarrow> endpoint_row \<Rightarrow> sql list" where
  "claimColumns d ev ep =
     [SText (dr_id d), SText (dr_event_id d), SText (dr_endpoint_id d), SText (status_text (dr_status d)),
      SInt (dr_attempt_count d), SInt (dr_max_attempts d), STime (dr_next_attempt_at d), nullable SText (dr_locked_by d),
      nullable SText (dr_lease_token d), nullable STime (dr_locked_at d), nullable STime (dr_locked_until d),
      nullable SInt (dr_last_status_code d), SText (dr_last_error d), nullable STime (dr_last_completed_at d),
      STime (dr_created_at d), STime (dr_updated_at d),
      SText (vr_id ev), SText (vr_endpoint_id ev), SText (vr_event_type ev), SJsonb (vr_payload ev),
      SText (vr_idempotency_key ev), STime (vr_created_at ev),
      SText (er_id ep), SText (er_name ep), SText (er_url ep), SBytes (er_secret_ciphertext ep), SInt (er_timeout_ms ep),
      SInt (er_max_attempts ep), SInt (er_consecutive_failures ep), nullable STime (er_circuit_open_until ep),
      nullable STime (er_disabled_at ep), STime (er_created_at ep), STime (er_updated_at ep)]"

text \<open>\<^verbatim>\<open>RETURNING\<close> of the recovery: \<^verbatim>\<open>locked_at\<close> is the one before the update, the rest is of the updated row.\<close>

definition recoveredColumns :: "delivery_row \<Rightarrow> delivery_row \<Rightarrow> sql list" where
  "recoveredColumns e d =
     [SText (dr_id d), SInt (dr_attempt_count d), nullable STime (dr_locked_at e), nullable STime (dr_last_completed_at d)]"

section \<open>The scanning functions\<close>

text \<open>The variables that the scanning functions declare, with their zero values.\<close>

record scan_vars =
  va_delivery :: delivery
  va_event :: event
  va_endpoint :: endpoint
  va_attempt :: attempt
  va_lease :: recoveredLease
  va_lockedBy :: "string option"
  va_leaseToken :: "string option"
  va_payload :: bytes
  va_timeoutMilliseconds :: int
  va_durationMilliseconds :: int

definition zero_vars :: scan_vars where
  "zero_vars =
     \<lparr>va_delivery = \<lparr>dl_ID = [], dl_EventID = [], dl_EndpointID = [], dl_Status = StatusOther [], dl_AttemptCount = 0,
        dl_MaxAttempts = 0, dl_NextAttemptAt = 0, dl_LockedBy = [], dl_LeaseToken = [], dl_LockedAt = None, dl_LockedUntil = None,
        dl_LastStatusCode = None, dl_LastError = [], dl_LastCompletedAt = None, dl_CreatedAt = 0, dl_UpdatedAt = 0\<rparr>,
      va_event = \<lparr>ev_ID = [], ev_EndpointID = [], ev_Type = [], ev_Payload = [], ev_IdempotencyKey = [], ev_CreatedAt = 0\<rparr>,
      va_endpoint = \<lparr>ep_ID = [], ep_Name = [], ep_URL = [], ep_SecretCiphertext = [], ep_Timeout = 0, ep_MaxAttempts = 0,
        ep_ConsecutiveFailures = 0, ep_DisabledAt = None, ep_CircuitOpenUntil = None, ep_CreatedAt = 0, ep_UpdatedAt = 0\<rparr>,
      va_attempt = \<lparr>at_ID = [], at_DeliveryID = [], at_Number = 0, at_StatusCode = None, at_ResponseBody = [],
        at_ErrorMessage = [], at_Duration = 0, at_StartedAt = 0, at_CompletedAt = 0\<rparr>,
      va_lease = \<lparr>rl_deliveryID = [], rl_attempt = 0, rl_startedAt = 0, rl_completedAt = 0\<rparr>,
      va_lockedBy = None, va_leaseToken = None, va_payload = [], va_timeoutMilliseconds = 0, va_durationMilliseconds = 0\<rparr>"

text \<open>Destinations that are fields of a struct among the variables.\<close>

definition in_delivery :: "('a \<Rightarrow> delivery \<Rightarrow> delivery) \<Rightarrow> 'a \<Rightarrow> scan_vars \<Rightarrow> scan_vars" where
  "in_delivery put a = va_delivery_update (put a)"

definition in_event :: "('a \<Rightarrow> event \<Rightarrow> event) \<Rightarrow> 'a \<Rightarrow> scan_vars \<Rightarrow> scan_vars" where
  "in_event put a = va_event_update (put a)"

definition in_endpoint :: "('a \<Rightarrow> endpoint \<Rightarrow> endpoint) \<Rightarrow> 'a \<Rightarrow> scan_vars \<Rightarrow> scan_vars" where
  "in_endpoint put a = va_endpoint_update (put a)"

definition in_attempt :: "('a \<Rightarrow> attempt \<Rightarrow> attempt) \<Rightarrow> 'a \<Rightarrow> scan_vars \<Rightarrow> scan_vars" where
  "in_attempt put a = va_attempt_update (put a)"

definition in_lease :: "('a \<Rightarrow> recoveredLease \<Rightarrow> recoveredLease) \<Rightarrow> 'a \<Rightarrow> scan_vars \<Rightarrow> scan_vars" where
  "in_lease put a = va_lease_update (put a)"

lemmas in_defs = in_delivery_def in_event_def in_endpoint_def in_attempt_def in_lease_def

definition endpoint_destinations :: "scan_vars dest list" where
  "endpoint_destinations =
     [to_string (in_endpoint (\<lambda>x. ep_ID_update (\<lambda>_. x))),
      to_string (in_endpoint (\<lambda>x. ep_Name_update (\<lambda>_. x))),
      to_string (in_endpoint (\<lambda>x. ep_URL_update (\<lambda>_. x))),
      to_bytes (in_endpoint (\<lambda>x. ep_SecretCiphertext_update (\<lambda>_. x))),
      to_int (\<lambda>n. va_timeoutMilliseconds_update (\<lambda>_. n)),
      to_int (in_endpoint (\<lambda>x. ep_MaxAttempts_update (\<lambda>_. x))),
      to_int (in_endpoint (\<lambda>x. ep_ConsecutiveFailures_update (\<lambda>_. x))),
      to_pointer to_time (in_endpoint (\<lambda>x. ep_CircuitOpenUntil_update (\<lambda>_. x))),
      to_pointer to_time (in_endpoint (\<lambda>x. ep_DisabledAt_update (\<lambda>_. x))),
      to_time (in_endpoint (\<lambda>x. ep_CreatedAt_update (\<lambda>_. x))),
      to_time (in_endpoint (\<lambda>x. ep_UpdatedAt_update (\<lambda>_. x)))]"

definition scan_endpoint_row :: "sql list \<Rightarrow> (go_error, endpoint) result" where
  "scan_endpoint_row row =
     bind_ok (Scan row endpoint_destinations zero_vars) (\<lambda>x.
     Inr ((va_endpoint x)\<lparr>ep_Timeout := wrap64 (va_timeoutMilliseconds x * millisecond)\<rparr>))"

definition delivery_destinations :: "scan_vars dest list" where
  "delivery_destinations =
     [to_string (in_delivery (\<lambda>x. dl_ID_update (\<lambda>_. x))),
      to_string (in_delivery (\<lambda>x. dl_EventID_update (\<lambda>_. x))),
      to_string (in_delivery (\<lambda>x. dl_EndpointID_update (\<lambda>_. x))),
      to_status (in_delivery (\<lambda>x. dl_Status_update (\<lambda>_. x))),
      to_int (in_delivery (\<lambda>x. dl_AttemptCount_update (\<lambda>_. x))),
      to_int (in_delivery (\<lambda>x. dl_MaxAttempts_update (\<lambda>_. x))),
      to_time (in_delivery (\<lambda>x. dl_NextAttemptAt_update (\<lambda>_. x))),
      to_pointer to_string (\<lambda>s. va_lockedBy_update (\<lambda>_. s)),
      to_pointer to_string (\<lambda>s. va_leaseToken_update (\<lambda>_. s)),
      to_pointer to_time (in_delivery (\<lambda>x. dl_LockedAt_update (\<lambda>_. x))),
      to_pointer to_time (in_delivery (\<lambda>x. dl_LockedUntil_update (\<lambda>_. x))),
      to_pointer to_int (in_delivery (\<lambda>x. dl_LastStatusCode_update (\<lambda>_. x))),
      to_string (in_delivery (\<lambda>x. dl_LastError_update (\<lambda>_. x))),
      to_pointer to_time (in_delivery (\<lambda>x. dl_LastCompletedAt_update (\<lambda>_. x))),
      to_time (in_delivery (\<lambda>x. dl_CreatedAt_update (\<lambda>_. x))),
      to_time (in_delivery (\<lambda>x. dl_UpdatedAt_update (\<lambda>_. x)))]"

text \<open>The two pointers are copied when they are set.\<close>

definition lock_fields :: "scan_vars \<Rightarrow> scan_vars" where
  "lock_fields x =
     (let y = (case va_lockedBy x of None \<Rightarrow> x | Some s \<Rightarrow> x\<lparr>va_delivery := (va_delivery x)\<lparr>dl_LockedBy := s\<rparr>\<rparr>)
      in case va_leaseToken y of None \<Rightarrow> y | Some s \<Rightarrow> y\<lparr>va_delivery := (va_delivery y)\<lparr>dl_LeaseToken := s\<rparr>\<rparr>)"

definition scan_delivery_row :: "scan_vars dest list \<Rightarrow> sql list \<Rightarrow> (go_error, scan_vars) result" where
  "scan_delivery_row trailing row =
     bind_ok (Scan row (delivery_destinations @ trailing) zero_vars) (\<lambda>x. Inr (lock_fields x))"

definition event_destinations :: "scan_vars dest list" where
  "event_destinations =
     [to_string (in_event (\<lambda>x. ev_ID_update (\<lambda>_. x))),
      to_string (in_event (\<lambda>x. ev_EndpointID_update (\<lambda>_. x))),
      to_string (in_event (\<lambda>x. ev_Type_update (\<lambda>_. x))),
      to_bytes (\<lambda>b. va_payload_update (\<lambda>_. b)),
      to_string (in_event (\<lambda>x. ev_IdempotencyKey_update (\<lambda>_. x))),
      to_time (in_event (\<lambda>x. ev_CreatedAt_update (\<lambda>_. x)))]"

text \<open>The row of \<^verbatim>\<open>GetDelivery\<close>, and a row of its attempts.\<close>

definition scan_details_row :: "sql list \<Rightarrow> (go_error, delivery \<times> event) result" where
  "scan_details_row row =
     bind_ok (scan_delivery_row event_destinations row) (\<lambda>x.
     Inr (va_delivery x, (va_event x)\<lparr>ev_Payload := va_payload x\<rparr>))"

definition attempt_destinations :: "scan_vars dest list" where
  "attempt_destinations =
     [to_string (in_attempt (\<lambda>x. at_ID_update (\<lambda>_. x))),
      to_string (in_attempt (\<lambda>x. at_DeliveryID_update (\<lambda>_. x))),
      to_int (in_attempt (\<lambda>x. at_Number_update (\<lambda>_. x))),
      to_pointer to_int (in_attempt (\<lambda>x. at_StatusCode_update (\<lambda>_. x))),
      to_string (in_attempt (\<lambda>x. at_ResponseBody_update (\<lambda>_. x))),
      to_string (in_attempt (\<lambda>x. at_ErrorMessage_update (\<lambda>_. x))),
      to_int (\<lambda>n. va_durationMilliseconds_update (\<lambda>_. n)),
      to_time (in_attempt (\<lambda>x. at_StartedAt_update (\<lambda>_. x))),
      to_time (in_attempt (\<lambda>x. at_CompletedAt_update (\<lambda>_. x)))]"

definition scan_attempt_row :: "sql list \<Rightarrow> (go_error, attempt) result" where
  "scan_attempt_row row =
     bind_ok (Scan row attempt_destinations zero_vars) (\<lambda>x.
     Inr ((va_attempt x)\<lparr>at_Duration := wrap64 (va_durationMilliseconds x * millisecond)\<rparr>))"

definition job_destinations :: "scan_vars dest list" where
  "job_destinations =
     [to_string (in_delivery (\<lambda>x. dl_ID_update (\<lambda>_. x))),
      to_string (in_delivery (\<lambda>x. dl_EventID_update (\<lambda>_. x))),
      to_string (in_delivery (\<lambda>x. dl_EndpointID_update (\<lambda>_. x))),
      to_status (in_delivery (\<lambda>x. dl_Status_update (\<lambda>_. x))),
      to_int (in_delivery (\<lambda>x. dl_AttemptCount_update (\<lambda>_. x))),
      to_int (in_delivery (\<lambda>x. dl_MaxAttempts_update (\<lambda>_. x))),
      to_time (in_delivery (\<lambda>x. dl_NextAttemptAt_update (\<lambda>_. x))),
      to_string (in_delivery (\<lambda>x. dl_LockedBy_update (\<lambda>_. x))),
      to_string (in_delivery (\<lambda>x. dl_LeaseToken_update (\<lambda>_. x))),
      to_pointer to_time (in_delivery (\<lambda>x. dl_LockedAt_update (\<lambda>_. x))),
      to_pointer to_time (in_delivery (\<lambda>x. dl_LockedUntil_update (\<lambda>_. x))),
      to_pointer to_int (in_delivery (\<lambda>x. dl_LastStatusCode_update (\<lambda>_. x))),
      to_string (in_delivery (\<lambda>x. dl_LastError_update (\<lambda>_. x))),
      to_pointer to_time (in_delivery (\<lambda>x. dl_LastCompletedAt_update (\<lambda>_. x))),
      to_time (in_delivery (\<lambda>x. dl_CreatedAt_update (\<lambda>_. x))),
      to_time (in_delivery (\<lambda>x. dl_UpdatedAt_update (\<lambda>_. x))),
      to_string (in_event (\<lambda>x. ev_ID_update (\<lambda>_. x))),
      to_string (in_event (\<lambda>x. ev_EndpointID_update (\<lambda>_. x))),
      to_string (in_event (\<lambda>x. ev_Type_update (\<lambda>_. x))),
      to_bytes (\<lambda>b. va_payload_update (\<lambda>_. b)),
      to_string (in_event (\<lambda>x. ev_IdempotencyKey_update (\<lambda>_. x))),
      to_time (in_event (\<lambda>x. ev_CreatedAt_update (\<lambda>_. x))),
      to_string (in_endpoint (\<lambda>x. ep_ID_update (\<lambda>_. x))),
      to_string (in_endpoint (\<lambda>x. ep_Name_update (\<lambda>_. x))),
      to_string (in_endpoint (\<lambda>x. ep_URL_update (\<lambda>_. x))),
      to_bytes (in_endpoint (\<lambda>x. ep_SecretCiphertext_update (\<lambda>_. x))),
      to_int (\<lambda>n. va_timeoutMilliseconds_update (\<lambda>_. n)),
      to_int (in_endpoint (\<lambda>x. ep_MaxAttempts_update (\<lambda>_. x))),
      to_int (in_endpoint (\<lambda>x. ep_ConsecutiveFailures_update (\<lambda>_. x))),
      to_pointer to_time (in_endpoint (\<lambda>x. ep_CircuitOpenUntil_update (\<lambda>_. x))),
      to_pointer to_time (in_endpoint (\<lambda>x. ep_DisabledAt_update (\<lambda>_. x))),
      to_time (in_endpoint (\<lambda>x. ep_CreatedAt_update (\<lambda>_. x))),
      to_time (in_endpoint (\<lambda>x. ep_UpdatedAt_update (\<lambda>_. x)))]"

definition scan_job_row :: "sql list \<Rightarrow> (go_error, job) result" where
  "scan_job_row row =
     bind_ok (Scan row job_destinations zero_vars) (\<lambda>x.
     Inr \<lparr>jb_Delivery = va_delivery x, jb_Event = (va_event x)\<lparr>ev_Payload := va_payload x\<rparr>,
       jb_Endpoint = (va_endpoint x)\<lparr>ep_Timeout := wrap64 (va_timeoutMilliseconds x * millisecond)\<rparr>\<rparr>)"

definition scan_lease_row :: "sql list \<Rightarrow> (go_error, recoveredLease) result" where
  "scan_lease_row row =
     bind_ok (Scan row
       [to_string (in_lease (\<lambda>x. rl_deliveryID_update (\<lambda>_. x))), to_int (in_lease (\<lambda>x. rl_attempt_update (\<lambda>_. x))),
        to_time (in_lease (\<lambda>x. rl_startedAt_update (\<lambda>_. x))), to_time (in_lease (\<lambda>x. rl_completedAt_update (\<lambda>_. x)))] zero_vars)
     (\<lambda>x. Inr (va_lease x))"

section \<open>Columns and destinations agree\<close>

lemma status_of_text: "(\<forall>x. s \<noteq> StatusOther x) \<Longrightarrow> status_of (status_text s) = s"
  by (cases s) (simp_all add: status_of_def)

lemma to_nullable [simp]:
  "to_pointer to_string put (nullable SText s) x = Inr (put s x)"
  "to_pointer to_int put' (nullable SInt i) x = Inr (put' i x)"
  "to_pointer to_time put'' (nullable STime t) x = Inr (put'' t x)"
  by (simp_all add: to_pointer_def nullable_def split: option.split)

lemma status_known: "check_delivery d \<Longrightarrow> status_of (status_text (dr_status d)) = dr_status d"
  by (rule status_of_text) (auto simp: check_delivery_def)

lemmas scan_defs = Scan_def in_defs zero_vars_def to_status_def

lemma scan_endpoint_columns: "scan_endpoint_row (endpointColumns e) = Inr (scanEndpoint e)"
  by (simp add: scan_endpoint_row_def endpoint_destinations_def endpointColumns_def scan_defs scanEndpoint_def)

lemma scan_attempt_columns: "scan_attempt_row (attemptColumns a) = Inr (scan_attempt a)"
  by (simp add: scan_attempt_row_def attempt_destinations_def attemptColumns_def scan_defs scan_attempt_def)

lemma scan_delivery_columns:
  assumes "check_delivery d"
  shows "map_sum id va_delivery (scan_delivery_row [] (deliveryColumns d)) = Inr (scanDelivery d)"
  by (simp add: scan_delivery_row_def delivery_destinations_def deliveryColumns_def scan_defs scanDelivery_def lock_fields_def
      status_known [OF assms] Let_def split: option.split)

lemma scan_details_columns:
  assumes "check_delivery d"
  shows "scan_details_row (deliveryColumns d @ eventColumns v) = Inr (scanDelivery d, scan_event v)"
  by (simp add: scan_details_row_def scan_delivery_row_def delivery_destinations_def event_destinations_def deliveryColumns_def
      eventColumns_def scan_defs scanDelivery_def scan_event_def lock_fields_def status_known [OF assms] Let_def
      split: option.split)

lemma to_string_nullable:
  "to_string put (nullable SText s) x =
   (case s of None \<Rightarrow> Inl (ErrNew ''cannot scan NULL into *string'') | Some t \<Rightarrow> Inr (put t x))"
  by (simp add: nullable_def refused_def split: option.split)

lemma scan_job_columns:
  assumes "check_delivery d"
  shows "scan_job_row (claimColumns d v e) = scanJob d v e"
  by (cases "dr_locked_by d"; cases "dr_lease_token d")
    (simp_all add: scan_job_row_def job_destinations_def claimColumns_def scan_defs scanJob_def scanDelivery_def scan_event_def
      scanEndpoint_def to_string_nullable status_known [OF assms])

lemma scan_lease_columns:
  "scan_recovered now ds =
   those (map (\<lambda>d. case scan_lease_row (recoveredColumns d (recover_row now d)) of Inl _ \<Rightarrow> None | Inr item \<Rightarrow> Some item) ds)"
proof (induction ds)
  case (Cons d ds)
  then show ?case
    by (cases "dr_locked_at d") (simp_all add: scan_lease_row_def recoveredColumns_def scan_defs nullable_def refused_def
        recover_row_def map_option_case split: option.split)
qed simp



end
