(* ===== verification/Spec2Isabelle.thy ===== *)
theory Spec2Isabelle
  imports System_Properties Service Startup Metrics Bench_Run Pool_Store Lease_Time Http_Client Api_Metrics Shutdown Queue_Order Wiring Row_Scan
begin

text \<open>
  RelayForge accepts events over HTTP, stores them in PostgreSQL and delivers them as signed webhooks
  with retries, leases and a circuit breaker per endpoint. This development models the service's own
  code as functions and proves what makes it correct.

  \<^bold>\<open>How the parts interact.\<close> The API server (\<^verbatim>\<open>internal/api\<close>) authenticates a request and calls one of
  three services (\<^verbatim>\<open>internal/endpoint\<close>, \<^verbatim>\<open>internal/eventing\<close>, \<^verbatim>\<open>internal/delivery/management.go\<close>), which validate
  and call the store (\<^verbatim>\<open>internal/store\<close>). Workers (\<^verbatim>\<open>internal/worker\<close>) claim due deliveries from the same store
  under a lease, hand them to the dispatcher (\<^verbatim>\<open>internal/webhook\<close>) and record the result; the store alone decides
  who may claim and whose result counts. Secrets are encrypted at rest (\<^verbatim>\<open>internal/secure\<close>). \<^verbatim>\<open>cmd/relayforge\<close> builds
  all of it from the configuration (\<^verbatim>\<open>internal/config\<close>), \<^verbatim>\<open>cmd/relaybench\<close> is the load generator.

  \<^bold>\<open>Theories and the code they model.\<close>
  \<^item> \<open>Prelude\<close>: types, wrap-around, errors (\<open>go_error\<close> with \<^verbatim>\<open>errors.Is\<close>), tables as lists with lookup and update.
    \<open>Go_Float\<close> (binary64 with correct rounding), \<open>Go_Strings\<close> (UTF-8, \<^verbatim>\<open>TrimSpace\<close>), \<open>Go_Base64\<close>, \<open>Go_Json\<close> (the scanner of
    \<^verbatim>\<open>json.Valid\<close>), \<open>Go_Strconv\<close> and \<open>Netip\<close> (addresses on words) model what the code uses of the standard library.
  \<^item> \<open>Delivery\<close>: \<^verbatim>\<open>internal/delivery/model.go\<close> and \<^verbatim>\<open>policy.go\<close>.
  \<^item> \<open>Schema\<close>: the tables and constraints of \<^verbatim>\<open>migrations/001_init.up.sql\<close>; a statement that would violate a
    constraint returns \<open>None\<close>.
  \<^item> \<open>Queue\<close>: \<^verbatim>\<open>internal/store/queue.go\<close> (\<open>ClaimDelivery\<close>, \<open>FinishAttempt\<close>, recovery of expired leases). \<open>Store\<close>: the rest of the
    store (\<^verbatim>\<open>events.go\<close>, \<^verbatim>\<open>deliveries.go\<close>, \<^verbatim>\<open>endpoints.go\<close>, \<^verbatim>\<open>stats.go\<close>). \<open>Row_Scan\<close>: the column lists of the
    queries and the destinations they are scanned into by position.
  \<^item> \<open>Secure\<close>, \<open>Webhook\<close> (\<^verbatim>\<open>signature.go\<close>, \<^verbatim>\<open>dispatcher.go\<close>), \<open>Dialer\<close> (\<^verbatim>\<open>dialer.go\<close>), \<open>Http_Client\<close> (the client and transport that
    \<^verbatim>\<open>NewDispatcher\<close> builds), \<open>Worker\<close> (\<^verbatim>\<open>pool.go\<close>, one worker as a function) and \<open>Worker_Pool\<close> (\<^verbatim>\<open>Pool.Run\<close> with its goroutines as
    a step relation).
  \<^item> \<open>Event_Service\<close>, \<open>Endpoint_Service\<close>, \<open>Api\<close>, \<open>Buildinfo\<close>: the services and the HTTP layer with its routes, handlers, views and
    error answers; \<open>Api_Metrics\<close>: \<^verbatim>\<open>api.New\<close> and the observation of requests; \<open>Wiring\<close>: the structs, interfaces and
    constructors of the services, of the store and of the database handle, and the objects that \<^verbatim>\<open>main\<close> builds of them.
  \<^item> \<open>Configuration\<close> (\<^verbatim>\<open>config.go\<close>), \<open>Startup\<close> (\<^verbatim>\<open>database.go\<close> and \<^verbatim>\<open>cmd/relayforge/main.go\<close>), \<open>Shutdown\<close> (the
    goroutines of \<^verbatim>\<open>run\<close> and their \<^verbatim>\<open>select\<close>s as a step relation), \<open>Metrics\<close>
    (\<^verbatim>\<open>internal/observability\<close>), \<open>Bench\<close> and \<open>Bench_Run\<close> (\<^verbatim>\<open>cmd/relaybench/main.go\<close>: requests and report; the
    goroutines and channels of a run).

  \<^bold>\<open>How state is modelled.\<close> The database is the record \<open>db\<close> of four tables. A transaction is one function from
  database to result and database: the code runs each operation in one transaction with row locks, so
  transactions are taken as atomic and their order as arbitrary. \<^verbatim>\<open>FOR UPDATE SKIP LOCKED\<close> takes the set of rows locked by
  others as a parameter, the clock is a parameter of each call and need not be monotone, rows of a table may be
  reordered at any time, and every call of the driver may fail (\<open>io\<close>), the commit also after it took effect. \<open>Store_System\<close>
  makes this a step relation \<open>store_step\<close>: any caller may call any operation at any time. The worker loop is a
  function of a list of rounds (\<open>tick\<close>), each holding what the environment does in it, so a finite list is a prefix of a run, and
  no fuel is needed. \<open>Worker_Pool\<close> splits the same loop into its calls: \<open>worker_step\<close> advances one worker of any number of pools by
  one call, in any order, while others use the store and the context may be cancelled at any moment; \<open>runWorker_steps\<close> relates
  the two. \<open>Bench_Run\<close> does the same for the channels of the benchmark, \<open>Shutdown\<close> for the end of the service. All other loops recurse on lists, and the one of \<open>backoff\<close> on the attempt number.

  \<^bold>\<open>What the lemmas show.\<close>
  \<^item> \<open>Systems\<close>, \<open>Lifecycle\<close>, \<open>Store_Invariant\<close>, \<open>Store_System\<close>, \<open>System_Properties\<close>: contracts as locales, interpreted on the store: every
    reachable state satisfies the invariant, every delivery follows the abstract lifecycle machine, history is never lost,
    the attempt log has no gaps and stays within its budget.
  \<^item> \<open>Queue_Properties\<close>, \<open>Worker_Store\<close>: what a claim hands out, that due deliveries are handed out, fencing of stale results,
    what an accepted result changes, the circuit breaker, and one whole round of a worker on the store. \<open>Queue_Order\<close>: claims at one
    moment serve the due deliveries in the order of the queue, each once, until none is left.
  \<^item> \<open>Pool_Store\<close>, \<open>Lease_Time\<close>: any number of pools on the store: no attempt is sent twice, the metrics are exact at every moment,
    a cancelled pool stops within a bounded number of steps, and a result that is reported before the lease runs out is recorded.
  \<^item> \<open>Store_Properties\<close>, \<open>Api_Store\<close>, \<open>Service\<close>: idempotent publishing (in the store and through the HTTP API), replay,
    atomicity of failed calls, and that requests and workers together only make transactions of the store. \<open>Row_Scan\<close>: reading by
    position is reading by name, for the queries that read whole rows.
  \<^item> \<open>Secure\<close>, \<open>Endpoint_Service\<close>, \<open>Endpoint_Secrets\<close>, \<open>Webhook\<close>, \<open>Dialer\<close>: the envelope's round trip, validation of endpoints, that the
    secret shown at creation signs every later request, what is sent and to which addresses. \<open>Http_Client\<close>: through the whole client, a
    delivery reaches only admitted addresses and only its target. \<open>Wiring\<close>: the service as \<^verbatim>\<open>main\<close> builds it is secure unless its
    environment says otherwise.
  \<^item> \<open>Api\<close>: authentication and confidentiality of secrets. \<open>Configuration\<close>, \<open>Startup\<close>: a loaded configuration starts, leases
    outlive attempts, resources are released. \<open>Shutdown\<close>: the service stops (within five steps per worker and eight more), never gets
    stuck, and its outcomes are those of the sequential view. \<open>Metrics\<close>, \<open>Api_Metrics\<close>: scrapes are well-formed, request counters
    exact. \<open>Bench\<close>, \<open>Bench_Run\<close>: a benchmark always ends (the bound is four steps per request, one per worker and four more) and
    its report accounts for every request.
  \<^item> \<open>Scenario\<close> is a concrete run on which hypotheses are discharged.

  \<^bold>\<open>Parameters.\<close> PostgreSQL's input functions (\<open>pg\<close>), the driver's failures, new identifiers, HMAC, the cipher, the random
  source, URL parsing, DNS, the network and the HTTP exchange, JSON decoding of request bodies, duration and float texts,
  and out-of-range conversions of floats. Hypotheses on them are named and are documented behaviour:
  \<open>canonical_uuid\<close> (a stored uuid reads back as itself), \<open>aead_ok\<close> (an authenticated cipher), \<open>full_reads\<close>, \<open>stops_at_redirects\<close>
  (\<^verbatim>\<open>net/http\<close> with \<^verbatim>\<open>ErrUseLastResponse\<close>), \<open>joins_by_underscore\<close> (Prometheus names), and monotonicity of the rounding of timestamps.

  \<^bold>\<open>Not modelled.\<close> The inside of \<^verbatim>\<open>net/http\<close> (connection reuse; \<open>Dispatcher_Close\<close> forwards to it), of
  the connection pool (\<^verbatim>\<open>DB.Close\<close> is an event of the shutdown) and of the Prometheus registry with its runtime collectors and exposition
  format, log lines, the path-cleaning redirects of \<^verbatim>\<open>http.ServeMux\<close>, JSON text of responses, the parsing of flags, the deletion
  of rows (no code deletes any), and the down migration. None of it is logic of this repository that the kernel could check
  without making up the library behind it; deadlines appear as events that may happen at any time.
\<close>

end
